theory Spec2Isabelle
  imports Main "HOL-Library.Multiset"
begin

section \<open>Taxonomy (schemas.ts)\<close>

text \<open>
  The closed enumerations of the Zod schemas: \<^verbatim>\<open>TrustLevelSchema\<close>,
  \<^verbatim>\<open>ToolCapabilitySchema\<close>, \<^verbatim>\<open>RiskLevelSchema\<close>, \<^verbatim>\<open>ExecutionModeSchema\<close>,
  \<^verbatim>\<open>WorkflowStageSchema\<close>, \<^verbatim>\<open>ApprovalStatusSchema\<close>, \<^verbatim>\<open>ReviewerVerdictSchema\<close>,
  \<^verbatim>\<open>DecisionTypeSchema\<close> and \<^verbatim>\<open>AgentRoleSchema\<close>.
\<close>

datatype TrustLevel = L0 | L1 | L2 | L3 | L4

datatype ToolCapability = READ | PROPOSE | WRITE | SIDE_EFFECTS

datatype RiskLevel = LOW | MEDIUM | HIGH | CRITICAL

datatype ExecutionMode = DIRECT | SANDBOX_ONLY

datatype WorkflowStage = plan | execute | review | commit

datatype ApprovalStatus = PENDING | APPROVED | REJECTED | EXPIRED

datatype ReviewerVerdict = PASS | FAIL

datatype DecisionType = APPROVE | REJECT

datatype AgentRole = planner | worker | reviewer

text \<open>\<^verbatim>\<open>TRUST_ORDER.indexOf(level)\<close> for \<^verbatim>\<open>["L0", "L1", "L2", "L3", "L4"]\<close>.\<close>

fun trustIndex :: "TrustLevel \<Rightarrow> int" where
  "trustIndex L0 = 0"
| "trustIndex L1 = 1"
| "trustIndex L2 = 2"
| "trustIndex L3 = 3"
| "trustIndex L4 = 4"

section \<open>Approval store (approvals.ts)\<close>

subsection \<open>Records\<close>

text \<open>
  Timestamps are milliseconds since the epoch (\<^verbatim>\<open>Date.getTime()\<close>). An opaque
  \<^verbatim>\<open>Record<string, unknown>\<close> is an association list from keys to serialised values;
  an optional field is an \<open>option\<close>.
\<close>

type_synonym json = "(string \<times> string) list"

record ApprovalRequest =
  rid :: string
  createdAt :: int
  domain :: string
  runId :: string
  workflowName :: string
  requestedBy :: string
  trustLevel :: TrustLevel
  actionType :: string
  actionPayload :: json
  status :: ApprovalStatus
  expiresAt :: int
  requestContext :: "json option"
  reviewerVerdict :: "ReviewerVerdict option"
  reviewerNotes :: "string option"
  autoApproveEligible :: bool
  autoApproveReason :: "string option"

record ApprovalDecision =
  did :: string
  decisionCreatedAt :: int
  approvalRequestId :: string
  decidedBy :: string
  decision :: DecisionType
  decisionNotes :: "string option"
  metadata :: "json option"

text \<open>\<^verbatim>\<open>CreateApprovalRequestInput\<close> and \<^verbatim>\<open>CreateDecisionInput\<close>, before validation.\<close>

record CreateApprovalRequestInput =
  in_domain :: "string option"
  in_runId :: string
  in_workflowName :: string
  in_requestedBy :: string
  in_trustLevel :: TrustLevel
  in_actionType :: string
  in_actionPayload :: json
  in_context :: "json option"
  in_reviewerVerdict :: "ReviewerVerdict option"
  in_reviewerNotes :: "string option"

record CreateDecisionInput =
  di_approvalRequestId :: string
  di_decidedBy :: string
  di_decision :: DecisionType
  di_notes :: "string option"
  di_metadata :: "json option"

text \<open>
  Every \<^verbatim>\<open>throw\<close> of the store is a constructor. \<open>StorageFailure\<close> is an error
  reported by the database client of the Supabase store.
\<close>

datatype store_error =
    InvalidInput
  | RequestNotFound string
  | NotPendingStatus ApprovalStatus
  | RequestExpired
  | AlreadyDecided
  | AutoApproveNotFound string
  | StorageFailure string

subsection \<open>Configuration\<close>

definition AUTO_APPROVE_DENY_LIST :: "string list" where
  "AUTO_APPROVE_DENY_LIST =
     [''COMMIT_SEND_INVOICE'', ''COMMIT_MARK_CHECKPOINT_COMPLETE'',
      ''billing_reconciliation'', ''compliance_audit_pack'']"

definition AUTO_APPROVE_ALLOW_LIST :: "string list" where
  "AUTO_APPROVE_ALLOW_LIST =
     [''COMMIT_POST_ALERT'', ''COMMIT_PUBLISH_DAILY_BRIEF'', ''COMMIT_APPLY_CHANGES'',
      ''daily_ops_brief'', ''alert_triage'']"

text \<open>\<^verbatim>\<open>DEFAULT_EXPIRY[trustLevel] ?? 3600\<close>, in seconds.\<close>

fun DEFAULT_EXPIRY :: "TrustLevel \<Rightarrow> int" where
  "DEFAULT_EXPIRY L3 = 3600"
| "DEFAULT_EXPIRY L4 = 86400"
| "DEFAULT_EXPIRY _ = 3600"

subsection \<open>Auto-approve eligibility\<close>

text \<open>
  \<^verbatim>\<open>SupabaseApprovalStore.isAutoApproveEligible\<close>: the guards in the order of the
  source, \<^verbatim>\<open>Array.includes\<close> as list membership.
\<close>

definition isAutoApproveEligible ::
  "TrustLevel \<Rightarrow> string \<Rightarrow> string \<Rightarrow> ReviewerVerdict option \<Rightarrow> bool" where
  "isAutoApproveEligible lvl act wfn rv =
     (if lvl = L4 then False
      else if lvl \<noteq> L3 then False
      else if rv \<noteq> Some PASS then False
      else if act \<in> set AUTO_APPROVE_DENY_LIST \<or> wfn \<in> set AUTO_APPROVE_DENY_LIST then False
      else if act \<in> set AUTO_APPROVE_ALLOW_LIST \<or> wfn \<in> set AUTO_APPROVE_ALLOW_LIST then True
      else False)"

text \<open>
  \<^verbatim>\<open>InMemoryApprovalStore.isAutoApproveEligible\<close>, with its own local copies of the
  two lists.
\<close>

definition mem_isAutoApproveEligible ::
  "TrustLevel \<Rightarrow> string \<Rightarrow> string \<Rightarrow> ReviewerVerdict option \<Rightarrow> bool" where
  "mem_isAutoApproveEligible lvl act wfn rv =
     (if lvl = L4 then False
      else if lvl \<noteq> L3 then False
      else if rv \<noteq> Some PASS then False
      else
        (let denyList = [''COMMIT_SEND_INVOICE'', ''COMMIT_MARK_CHECKPOINT_COMPLETE'',
                         ''billing_reconciliation'', ''compliance_audit_pack''] in
         if act \<in> set denyList \<or> wfn \<in> set denyList then False
         else
           (let allowList = [''COMMIT_POST_ALERT'', ''COMMIT_PUBLISH_DAILY_BRIEF'',
                             ''COMMIT_APPLY_CHANGES'', ''daily_ops_brief'', ''alert_triage''] in
            if act \<in> set allowList \<or> wfn \<in> set allowList then True else False)))"

text \<open>
  The chain as the specification words it (section 4.C, Creation): no step asks for
  level L3.
\<close>

definition spec_eligibility_chain ::
  "TrustLevel \<Rightarrow> string \<Rightarrow> string \<Rightarrow> ReviewerVerdict option \<Rightarrow> bool" where
  "spec_eligibility_chain lvl act wfn rv =
     (if lvl = L4 then False
      else if rv \<noteq> Some PASS then False
      else if act \<in> set AUTO_APPROVE_DENY_LIST \<or> wfn \<in> set AUTO_APPROVE_DENY_LIST then False
      else if act \<in> set AUTO_APPROVE_ALLOW_LIST \<or> wfn \<in> set AUTO_APPROVE_ALLOW_LIST then True
      else False)"

subsection \<open>The in-memory store\<close>

text \<open>
  \<^verbatim>\<open>InMemoryApprovalStore\<close> keeps two JavaScript \<^verbatim>\<open>Map\<close>s. A \<^verbatim>\<open>Map\<close> iterates in
  insertion order and \<^verbatim>\<open>set\<close> on a present key keeps the key's position, so each map is
  an association list with \<open>map_set\<close>.
\<close>

record InMemoryApprovalStore =
  requests :: "(string \<times> ApprovalRequest) list"
  decisions :: "(string \<times> ApprovalDecision) list"

fun map_set :: "'k \<Rightarrow> 'v \<Rightarrow> ('k \<times> 'v) list \<Rightarrow> ('k \<times> 'v) list" where
  "map_set k v [] = [(k, v)]"
| "map_set k v ((k', v') # kvs) =
     (if k' = k then (k, v) # kvs else (k', v') # map_set k v kvs)"

definition emptyStore :: InMemoryApprovalStore where
  "emptyStore = \<lparr>requests = [], decisions = []\<rparr>"

text \<open>
  \<^verbatim>\<open>CreateApprovalRequestSchema.parse\<close>. The UUID test of the validation library is
  the parameter \<open>isUuid\<close>; \<^verbatim>\<open>domain\<close> defaults to \<^verbatim>\<open>"asi"\<close> and must be a member
  of \<^verbatim>\<open>DomainSchema\<close>.
\<close>

definition parseCreateApprovalRequest ::
  "(string \<Rightarrow> bool) \<Rightarrow> CreateApprovalRequestInput \<Rightarrow> CreateApprovalRequestInput option" where
  "parseCreateApprovalRequest isUuid inp =
     (let d = (case in_domain inp of None \<Rightarrow> ''asi'' | Some x \<Rightarrow> x) in
      if d \<in> set [''asi'', ''land''] \<and> isUuid (in_runId inp) \<and> in_workflowName inp \<noteq> []
         \<and> in_requestedBy inp \<noteq> [] \<and> in_actionType inp \<noteq> []
      then Some (inp\<lparr>in_domain := Some d\<rparr>)
      else None)"

definition parseCreateDecision ::
  "(string \<Rightarrow> bool) \<Rightarrow> CreateDecisionInput \<Rightarrow> CreateDecisionInput option" where
  "parseCreateDecision isUuid inp =
     (if isUuid (di_approvalRequestId inp) \<and> di_decidedBy inp \<noteq> [] then Some inp else None)"

text \<open>
  Every mutating operation returns its outcome together with the store after the call,
  so that what a failed call leaves behind is part of the model.

  \<^verbatim>\<open>InMemoryApprovalStore.createRequest\<close>. The environment supplies the clock reading
  of \<^verbatim>\<open>Date.now()\<close> (\<open>now\<close>), the one of \<^verbatim>\<open>new Date()\<close> (\<open>created\<close>) and the
  result of \<^verbatim>\<open>crypto.randomUUID()\<close> (\<open>newId\<close>).
\<close>

definition mem_createRequest ::
  "(string \<Rightarrow> bool) \<Rightarrow> InMemoryApprovalStore \<Rightarrow> CreateApprovalRequestInput \<Rightarrow> int \<Rightarrow> int
     \<Rightarrow> string \<Rightarrow> (store_error + ApprovalRequest) \<times> InMemoryApprovalStore" where
  "mem_createRequest isUuid s inp now created newId =
     (case parseCreateApprovalRequest isUuid inp of
        None \<Rightarrow> (Inl InvalidInput, s)
      | Some validated \<Rightarrow>
          (let isL4 = (in_trustLevel validated = L4);
               expirySeconds = (if isL4 then 86400 else 3600);
               expires = now + expirySeconds * 1000;
               eligible =
                 (if isL4 then False
                  else mem_isAutoApproveEligible (in_trustLevel validated)
                         (in_actionType validated) (in_workflowName validated)
                         (in_reviewerVerdict validated));
               request = \<lparr>rid = newId, createdAt = created,
                          domain = (case in_domain validated of None \<Rightarrow> ''asi'' | Some d \<Rightarrow> d),
                          runId = in_runId validated,
                          workflowName = in_workflowName validated,
                          requestedBy = in_requestedBy validated,
                          trustLevel = in_trustLevel validated,
                          actionType = in_actionType validated,
                          actionPayload = in_actionPayload validated,
                          status = PENDING, expiresAt = expires,
                          requestContext = in_context validated,
                          reviewerVerdict = in_reviewerVerdict validated,
                          reviewerNotes = in_reviewerNotes validated,
                          autoApproveEligible = eligible,
                          autoApproveReason = None\<rparr>
           in (Inr request, s\<lparr>requests := map_set newId request (requests s)\<rparr>)))"

definition mem_getRequest :: "InMemoryApprovalStore \<Rightarrow> string \<Rightarrow> ApprovalRequest option" where
  "mem_getRequest s i = map_of (requests s) i"

definition mem_getDecision :: "InMemoryApprovalStore \<Rightarrow> string \<Rightarrow> ApprovalDecision option" where
  "mem_getDecision s i = map_of (decisions s) i"

text \<open>
  The options of \<^verbatim>\<open>getPendingRequests\<close>. A guard \<^verbatim>\<open>if (options?.domain)\<close> tests
  truthiness: an absent field, an empty string and the limit 0 all skip their step.
  \<^verbatim>\<open>slice(0, n)\<close> and \<^verbatim>\<open>limit(n)\<close> keep the first \<open>n\<close> rows.
\<close>

record PendingOptions =
  opt_domain :: "string option"
  opt_workflowName :: "string option"
  opt_limit :: "nat option"

definition truthyStr :: "string option \<Rightarrow> bool" where
  "truthyStr x = (case x of None \<Rightarrow> False | Some v \<Rightarrow> v \<noteq> [])"

text \<open>
  \<^verbatim>\<open>Array.prototype.sort\<close> is stable; with the comparator
  \<^verbatim>\<open>b.createdAt - a.createdAt\<close> it is the stable insertion sort on the negated key.
\<close>

definition sortByCreatedDesc :: "ApprovalRequest list \<Rightarrow> ApprovalRequest list" where
  "sortByCreatedDesc rs = sort_key (\<lambda>r. - createdAt r) rs"

definition sortByCreatedAsc :: "ApprovalRequest list \<Rightarrow> ApprovalRequest list" where
  "sortByCreatedAsc rs = sort_key createdAt rs"

definition applyPendingOptions ::
  "PendingOptions option \<Rightarrow> ApprovalRequest list \<Rightarrow> ApprovalRequest list" where
  "applyPendingOptions options rs =
     (case options of
        None \<Rightarrow> rs
      | Some opts \<Rightarrow>
          (let r1 = (if truthyStr (opt_domain opts)
                     then filter (\<lambda>r. Some (domain r) = opt_domain opts) rs else rs);
               r2 = (if truthyStr (opt_workflowName opts)
                     then filter (\<lambda>r. Some (workflowName r) = opt_workflowName opts) r1 else r1)
           in r2))"

definition applyLimit :: "PendingOptions option \<Rightarrow> ApprovalRequest list \<Rightarrow> ApprovalRequest list" where
  "applyLimit options rs =
     (case options of
        None \<Rightarrow> rs
      | Some opts \<Rightarrow>
          (case opt_limit opts of
             None \<Rightarrow> rs
           | Some n \<Rightarrow> (if n \<noteq> 0 then take n rs else rs)))"

definition mem_getPendingRequests ::
  "InMemoryApprovalStore \<Rightarrow> PendingOptions option \<Rightarrow> int \<Rightarrow> ApprovalRequest list" where
  "mem_getPendingRequests s options now =
     (let results = filter (\<lambda>r. status r = PENDING \<and> expiresAt r > now) (map snd (requests s));
          results = applyPendingOptions options results;
          results = sortByCreatedDesc results
      in applyLimit options results)"

definition mem_getRequestsByRunId :: "InMemoryApprovalStore \<Rightarrow> string \<Rightarrow> ApprovalRequest list" where
  "mem_getRequestsByRunId s run =
     sortByCreatedAsc (filter (\<lambda>r. runId r = run) (map snd (requests s)))"

definition mem_isApproved :: "InMemoryApprovalStore \<Rightarrow> string \<Rightarrow> bool" where
  "mem_isApproved s i =
     (case mem_getRequest s i of None \<Rightarrow> False | Some r \<Rightarrow> status r = APPROVED)"

definition mem_isPending :: "InMemoryApprovalStore \<Rightarrow> string \<Rightarrow> int \<Rightarrow> bool" where
  "mem_isPending s i now =
     (case mem_getRequest s i of
        None \<Rightarrow> False
      | Some r \<Rightarrow>
          (if status r \<noteq> PENDING then False
           else if expiresAt r < now then False
           else True))"

definition shouldExpire :: "int \<Rightarrow> ApprovalRequest \<Rightarrow> bool" where
  "shouldExpire now r = (status r = PENDING \<and> expiresAt r < now)"

definition mem_expireStaleRequests :: "InMemoryApprovalStore \<Rightarrow> int \<Rightarrow> nat \<times> InMemoryApprovalStore" where
  "mem_expireStaleRequests s now =
     (length (filter (\<lambda>kv. shouldExpire now (snd kv)) (requests s)),
      s\<lparr>requests :=
           map (\<lambda>kv. if shouldExpire now (snd kv) then (fst kv, (snd kv)\<lparr>status := EXPIRED\<rparr>) else kv)
               (requests s)\<rparr>)"

definition statusForDecision :: "DecisionType \<Rightarrow> ApprovalStatus" where
  "statusForDecision d = (if d = APPROVE then APPROVED else REJECTED)"

text \<open>The decision object (or row) that \<^verbatim>\<open>createDecision\<close> builds from its input.\<close>

definition newDecision :: "CreateDecisionInput \<Rightarrow> int \<Rightarrow> string \<Rightarrow> ApprovalDecision" where
  "newDecision validated created newId =
     \<lparr>did = newId, decisionCreatedAt = created,
      approvalRequestId = di_approvalRequestId validated,
      decidedBy = di_decidedBy validated,
      decision = di_decision validated,
      decisionNotes = di_notes validated,
      metadata = di_metadata validated\<rparr>"

text \<open>
  \<^verbatim>\<open>InMemoryApprovalStore.createDecision\<close>. \<open>now\<close> is the clock reading of the
  expiry test, \<open>created\<close> the one stored in the decision. The request object is mutated
  in place, which is \<open>map_set\<close> at its own key.
\<close>

definition mem_createDecision ::
  "(string \<Rightarrow> bool) \<Rightarrow> InMemoryApprovalStore \<Rightarrow> CreateDecisionInput \<Rightarrow> int \<Rightarrow> int \<Rightarrow> string
     \<Rightarrow> (store_error + ApprovalDecision) \<times> InMemoryApprovalStore" where
  "mem_createDecision isUuid s inp now created newId =
     (case parseCreateDecision isUuid inp of
        None \<Rightarrow> (Inl InvalidInput, s)
      | Some validated \<Rightarrow>
          (case mem_getRequest s (di_approvalRequestId validated) of
             None \<Rightarrow> (Inl (RequestNotFound (di_approvalRequestId validated)), s)
           | Some request \<Rightarrow>
               (if status request \<noteq> PENDING then (Inl (NotPendingStatus (status request)), s)
                else if expiresAt request < now then (Inl RequestExpired, s)
                else if map_of (decisions s) (di_approvalRequestId validated) \<noteq> None
                  then (Inl AlreadyDecided, s)
                else
                  (let d = newDecision validated created newId;
                       request' = request\<lparr>status := statusForDecision (di_decision validated)\<rparr>
                   in (Inr d,
                       s\<lparr>requests := map_set (di_approvalRequestId validated) request' (requests s),
                         decisions := map_set (di_approvalRequestId validated) d (decisions s)\<rparr>)))))"

definition autoApproveDecisionInput :: "string \<Rightarrow> string \<Rightarrow> CreateDecisionInput" where
  "autoApproveDecisionInput i reason =
     \<lparr>di_approvalRequestId = i, di_decidedBy = ''system:auto-approve'', di_decision = APPROVE,
      di_notes = Some reason,
      di_metadata = Some [(''autoApproved'', ''true''), (''reason'', reason)]\<rparr>"

text \<open>
  \<^verbatim>\<open>InMemoryApprovalStore.autoApprove\<close>. It reads the clock for its own expiry gate
  (\<open>now\<close>); the \<^verbatim>\<open>createDecision\<close> it then calls reads the clock again (\<open>now2\<close>).
  \<open>Inr None\<close> is the \<^verbatim>\<open>null\<close> result.
\<close>

definition mem_autoApprove ::
  "(string \<Rightarrow> bool) \<Rightarrow> InMemoryApprovalStore \<Rightarrow> string \<Rightarrow> string \<Rightarrow> int \<Rightarrow> int \<Rightarrow> int \<Rightarrow> string
     \<Rightarrow> (store_error + ApprovalDecision option) \<times> InMemoryApprovalStore" where
  "mem_autoApprove isUuid s i reason now now2 created newId =
     (case mem_getRequest s i of
        None \<Rightarrow> (Inl (AutoApproveNotFound i), s)
      | Some request \<Rightarrow>
          (if trustLevel request = L4 then (Inr None, s)
           else if status request \<noteq> PENDING then (Inr None, s)
           else if \<not> autoApproveEligible request then (Inr None, s)
           else if reviewerVerdict request \<noteq> Some PASS then (Inr None, s)
           else if expiresAt request < now then (Inr None, s)
           else
             (let s1 = s\<lparr>requests :=
                          map_set i (request\<lparr>autoApproveReason := Some reason\<rparr>) (requests s)\<rparr>
              in case mem_createDecision isUuid s1 (autoApproveDecisionInput i reason)
                        now2 created newId of
                   (Inl e, s2) \<Rightarrow> (Inl e, s2)
                 | (Inr d, s2) \<Rightarrow> (Inr (Some d), s2))))"

subsection \<open>The Supabase store\<close>

text \<open>
  \<^verbatim>\<open>SupabaseApprovalStore\<close> works on the two tables of the migrations
  \<^verbatim>\<open>003_approval_requests.sql\<close> and \<^verbatim>\<open>004_approval_decisions.sql\<close>:
  \<^verbatim>\<open>id\<close> is the primary key of both, \<^verbatim>\<open>approval_decisions\<close> is
  \<^verbatim>\<open>UNIQUE(approval_request_id)\<close>, and the trigger
  \<^verbatim>\<open>trg_update_approval_status\<close> sets the request's status after each inserted
  decision. \<^verbatim>\<open>rowToRequest\<close> and \<^verbatim>\<open>rowToDecision\<close> rename fields only, so rows are
  the records above. Every client call takes a fault: \<open>Some msg\<close> when the client
  reports an error other than the ones the tables themselves raise.
\<close>

record Database =
  approval_requests :: "ApprovalRequest list"
  approval_decisions :: "ApprovalDecision list"

definition emptyDatabase :: Database where
  "emptyDatabase = \<lparr>approval_requests = [], approval_decisions = []\<rparr>"

text \<open>
  \<^verbatim>\<open>getRequest\<close>: \<^verbatim>\<open>.single()\<close> reports \<^verbatim>\<open>PGRST116\<close> unless exactly one row
  matches, and the method maps that code to \<^verbatim>\<open>null\<close>.
\<close>

definition sb_getRequest ::
  "Database \<Rightarrow> string option \<Rightarrow> string \<Rightarrow> store_error + ApprovalRequest option" where
  "sb_getRequest db fault i =
     (case fault of
        Some msg \<Rightarrow> Inl (StorageFailure msg)
      | None \<Rightarrow>
          (case filter (\<lambda>r. rid r = i) (approval_requests db) of
             [r] \<Rightarrow> Inr (Some r)
           | _ \<Rightarrow> Inr None))"

definition sb_getDecision ::
  "Database \<Rightarrow> string option \<Rightarrow> string \<Rightarrow> store_error + ApprovalDecision option" where
  "sb_getDecision db fault i =
     (case fault of
        Some msg \<Rightarrow> Inl (StorageFailure msg)
      | None \<Rightarrow>
          (case filter (\<lambda>d. approvalRequestId d = i) (approval_decisions db) of
             [d] \<Rightarrow> Inr (Some d)
           | _ \<Rightarrow> Inr None))"

text \<open>
  \<^verbatim>\<open>SupabaseApprovalStore.createRequest\<close>. \<open>created\<close> and \<open>newId\<close> are the
  column defaults \<^verbatim>\<open>NOW()\<close> and \<^verbatim>\<open>gen_random_uuid()\<close>; the primary key rejects a
  row whose id is already present.
\<close>

definition sb_createRequest ::
  "(string \<Rightarrow> bool) \<Rightarrow> Database \<Rightarrow> string option \<Rightarrow> CreateApprovalRequestInput \<Rightarrow> int \<Rightarrow> int
     \<Rightarrow> string \<Rightarrow> (store_error + ApprovalRequest) \<times> Database" where
  "sb_createRequest isUuid db fault inp now created newId =
     (case parseCreateApprovalRequest isUuid inp of
        None \<Rightarrow> (Inl InvalidInput, db)
      | Some validated \<Rightarrow>
          (let isL4 = (in_trustLevel validated = L4);
               expirySeconds = DEFAULT_EXPIRY (in_trustLevel validated);
               expires = now + expirySeconds * 1000;
               eligible =
                 (if isL4 then False
                  else isAutoApproveEligible (in_trustLevel validated)
                         (in_actionType validated) (in_workflowName validated)
                         (in_reviewerVerdict validated));
               row = \<lparr>rid = newId, createdAt = created,
                      domain = (case in_domain validated of None \<Rightarrow> ''asi'' | Some d \<Rightarrow> d),
                      runId = in_runId validated,
                      workflowName = in_workflowName validated,
                      requestedBy = in_requestedBy validated,
                      trustLevel = in_trustLevel validated,
                      actionType = in_actionType validated,
                      actionPayload = in_actionPayload validated,
                      status = PENDING, expiresAt = expires,
                      requestContext = in_context validated,
                      reviewerVerdict = in_reviewerVerdict validated,
                      reviewerNotes = in_reviewerNotes validated,
                      autoApproveEligible = eligible,
                      autoApproveReason = None\<rparr>
           in case fault of
                Some msg \<Rightarrow> (Inl (StorageFailure msg), db)
              | None \<Rightarrow>
                  (if newId \<in> set (map rid (approval_requests db))
                   then (Inl (StorageFailure ''duplicate key''), db)
                   else (Inr row, db\<lparr>approval_requests := approval_requests db @ [row]\<rparr>))))"

text \<open>
  \<^verbatim>\<open>SupabaseApprovalStore.getPendingRequests\<close>: the query filters, orders by
  \<^verbatim>\<open>created_at\<close> descending and limits. Rows with equal \<^verbatim>\<open>created_at\<close> keep their
  table order here.
\<close>

definition sb_getPendingRequests ::
  "Database \<Rightarrow> string option \<Rightarrow> PendingOptions option \<Rightarrow> int
     \<Rightarrow> store_error + ApprovalRequest list" where
  "sb_getPendingRequests db fault options now =
     (case fault of
        Some msg \<Rightarrow> Inl (StorageFailure msg)
      | None \<Rightarrow>
          Inr (applyLimit options (sortByCreatedDesc (applyPendingOptions options
                 (filter (\<lambda>r. status r = PENDING \<and> expiresAt r > now) (approval_requests db))))))"

definition sb_expireStaleRequests ::
  "Database \<Rightarrow> string option \<Rightarrow> int \<Rightarrow> (store_error + nat) \<times> Database" where
  "sb_expireStaleRequests db fault now =
     (case fault of
        Some msg \<Rightarrow> (Inl (StorageFailure msg), db)
      | None \<Rightarrow>
          (Inr (length (filter (shouldExpire now) (approval_requests db))),
           db\<lparr>approval_requests :=
                map (\<lambda>r. if shouldExpire now r then r\<lparr>status := EXPIRED\<rparr> else r)
                    (approval_requests db)\<rparr>))"

text \<open>
  \<^verbatim>\<open>SupabaseApprovalStore.createDecision\<close>: \<open>f_get\<close> is the fault of the
  \<^verbatim>\<open>getRequest\<close> call, \<open>f_ins\<close> the one of the insert. The insert violates the
  uniqueness constraint (code \<^verbatim>\<open>23505\<close>) when a decision for the request is present;
  otherwise the row is stored and the trigger updates the request.
\<close>

definition sb_createDecision ::
  "(string \<Rightarrow> bool) \<Rightarrow> Database \<Rightarrow> string option \<Rightarrow> string option \<Rightarrow> CreateDecisionInput
     \<Rightarrow> int \<Rightarrow> int \<Rightarrow> string \<Rightarrow> (store_error + ApprovalDecision) \<times> Database" where
  "sb_createDecision isUuid db f_get f_ins inp now created newId =
     (case parseCreateDecision isUuid inp of
        None \<Rightarrow> (Inl InvalidInput, db)
      | Some validated \<Rightarrow>
          (case sb_getRequest db f_get (di_approvalRequestId validated) of
             Inl e \<Rightarrow> (Inl e, db)
           | Inr None \<Rightarrow> (Inl (RequestNotFound (di_approvalRequestId validated)), db)
           | Inr (Some request) \<Rightarrow>
               (if status request \<noteq> PENDING then (Inl (NotPendingStatus (status request)), db)
                else if expiresAt request < now then (Inl RequestExpired, db)
                else
                  (case f_ins of
                     Some msg \<Rightarrow> (Inl (StorageFailure msg), db)
                   | None \<Rightarrow>
                       (if di_approvalRequestId validated
                             \<in> set (map approvalRequestId (approval_decisions db))
                        then (Inl AlreadyDecided, db)
                        else
                          (let d = newDecision validated created newId
                           in (Inr d,
                               db\<lparr>approval_requests :=
                                    map (\<lambda>r. if rid r = di_approvalRequestId validated
                                              then r\<lparr>status := statusForDecision (di_decision validated)\<rparr>
                                              else r)
                                        (approval_requests db),
                                  approval_decisions := approval_decisions db @ [d]\<rparr>)))))))"

text \<open>
  \<^verbatim>\<open>SupabaseApprovalStore.autoApprove\<close>. The result of the update of
  \<^verbatim>\<open>auto_approve_reason\<close> is not inspected, so its fault \<open>f_upd\<close> only decides
  whether the column changes.
\<close>

definition sb_autoApprove ::
  "(string \<Rightarrow> bool) \<Rightarrow> Database \<Rightarrow> string option \<Rightarrow> string option \<Rightarrow> string option
     \<Rightarrow> string option \<Rightarrow> string \<Rightarrow> string \<Rightarrow> int \<Rightarrow> int \<Rightarrow> int \<Rightarrow> string
     \<Rightarrow> (store_error + ApprovalDecision option) \<times> Database" where
  "sb_autoApprove isUuid db f_get f_upd f_get2 f_ins i reason now now2 created newId =
     (case sb_getRequest db f_get i of
        Inl e \<Rightarrow> (Inl e, db)
      | Inr None \<Rightarrow> (Inl (AutoApproveNotFound i), db)
      | Inr (Some request) \<Rightarrow>
          (if trustLevel request = L4 then (Inr None, db)
           else if status request \<noteq> PENDING then (Inr None, db)
           else if \<not> autoApproveEligible request then (Inr None, db)
           else if reviewerVerdict request \<noteq> Some PASS then (Inr None, db)
           else if expiresAt request < now then (Inr None, db)
           else
             (let db1 = (case f_upd of
                           Some msg \<Rightarrow> db
                         | None \<Rightarrow>
                             db\<lparr>approval_requests :=
                                  map (\<lambda>r. if rid r = i then r\<lparr>autoApproveReason := Some reason\<rparr>
                                            else r)
                                      (approval_requests db)\<rparr>)
              in case sb_createDecision isUuid db1 f_get2 f_ins (autoApproveDecisionInput i reason)
                        now2 created newId of
                   (Inl e, db2) \<Rightarrow> (Inl e, db2)
                 | (Inr d, db2) \<Rightarrow> (Inr (Some d), db2))))"

subsection \<open>Sample data\<close>

text \<open>
  An instance of the UUID test (five groups of 8, 4, 4, 4 and 12 hexadecimal digits),
  and concrete inputs on which the operations are evaluated.
\<close>

fun splitOn :: "'a \<Rightarrow> 'a list \<Rightarrow> 'a list list" where
  "splitOn c [] = [[]]"
| "splitOn c (x # xs) =
     (if x = c then [] # splitOn c xs
      else (case splitOn c xs of [] \<Rightarrow> [[x]] | g # gs \<Rightarrow> (x # g) # gs))"

definition isHexDigit :: "char \<Rightarrow> bool" where
  "isHexDigit c = (c \<in> set ''0123456789abcdefABCDEF'')"

definition uuidShape :: "string \<Rightarrow> bool" where
  "uuidShape s =
     (let gs = splitOn (CHR ''-'') s
      in map length gs = [8, 4, 4, 4, 12] \<and> list_all (list_all isHexDigit) gs)"

definition run1 :: string where
  "run1 = ''11111111-1111-4111-8111-111111111111''"

definition id1 :: string where
  "id1 = ''aaaaaaaa-aaaa-4aaa-8aaa-aaaaaaaaaaaa''"

definition id2 :: string where
  "id2 = ''bbbbbbbb-bbbb-4bbb-8bbb-bbbbbbbbbbbb''"

definition id3 :: string where
  "id3 = ''cccccccc-cccc-4ccc-8ccc-cccccccccccc''"

definition sampleInput :: "TrustLevel \<Rightarrow> string \<Rightarrow> string \<Rightarrow> ReviewerVerdict option
    \<Rightarrow> CreateApprovalRequestInput" where
  "sampleInput lvl act wfn rv =
     \<lparr>in_domain = Some ''asi'', in_runId = run1, in_workflowName = wfn,
      in_requestedBy = ''ops_brief_lead'', in_trustLevel = lvl, in_actionType = act,
      in_actionPayload = [], in_context = None, in_reviewerVerdict = rv,
      in_reviewerNotes = None\<rparr>"

subsection \<open>Reachable stores\<close>

text \<open>
  The states the in-memory store can be in: the empty store, and the store after any
  public mutating method. \<^verbatim>\<open>crypto.randomUUID()\<close> returns an identifier that passes the
  UUID test and is not in use.
\<close>

inductive mem_reachable :: "(string \<Rightarrow> bool) \<Rightarrow> InMemoryApprovalStore \<Rightarrow> bool"
  for isUuid :: "string \<Rightarrow> bool" where
  mr_init: "mem_reachable isUuid emptyStore"
| mr_createRequest:
    "mem_reachable isUuid s \<Longrightarrow> isUuid newId \<Longrightarrow> newId \<notin> set (map fst (requests s))
     \<Longrightarrow> mem_reachable isUuid (snd (mem_createRequest isUuid s inp now created newId))"
| mr_createDecision:
    "mem_reachable isUuid s
     \<Longrightarrow> mem_reachable isUuid (snd (mem_createDecision isUuid s inp now created newId))"
| mr_autoApprove:
    "mem_reachable isUuid s
     \<Longrightarrow> mem_reachable isUuid (snd (mem_autoApprove isUuid s i reason now now2 created newId))"
| mr_expire:
    "mem_reachable isUuid s \<Longrightarrow> mem_reachable isUuid (snd (mem_expireStaleRequests s now))"

text \<open>
  What every reachable store satisfies: keys are distinct UUIDs and name their own
  record, an L4 request is never eligible, and a recorded decision belongs to a request
  whose status is the one that decision gives.
\<close>

definition mem_inv :: "(string \<Rightarrow> bool) \<Rightarrow> InMemoryApprovalStore \<Rightarrow> bool" where
  "mem_inv isUuid s =
     (distinct (map fst (requests s)) \<and> distinct (map fst (decisions s))
      \<and> (\<forall>k r. map_of (requests s) k = Some r \<longrightarrow>
             isUuid k \<and> rid r = k \<and> (trustLevel r = L4 \<longrightarrow> \<not> autoApproveEligible r))
      \<and> (\<forall>k d. map_of (decisions s) k = Some d \<longrightarrow>
             approvalRequestId d = k
             \<and> (\<exists>r. map_of (requests s) k = Some r
                     \<and> status r = statusForDecision (decision d))))"

text \<open>
  The states of the two tables: empty, and after any public mutating method of the
  Supabase store, whatever faults the client reports. \<^verbatim>\<open>gen_random_uuid()\<close> returns
  an identifier that passes the UUID test; the primary key itself rejects a duplicate.
\<close>

inductive sb_reachable :: "(string \<Rightarrow> bool) \<Rightarrow> Database \<Rightarrow> bool"
  for isUuid :: "string \<Rightarrow> bool" where
  sr_init: "sb_reachable isUuid emptyDatabase"
| sr_createRequest:
    "sb_reachable isUuid db \<Longrightarrow> isUuid newId
     \<Longrightarrow> sb_reachable isUuid (snd (sb_createRequest isUuid db fault inp now created newId))"
| sr_createDecision:
    "sb_reachable isUuid db
     \<Longrightarrow> sb_reachable isUuid
           (snd (sb_createDecision isUuid db f_get f_ins inp now created newId))"
| sr_autoApprove:
    "sb_reachable isUuid db
     \<Longrightarrow> sb_reachable isUuid
           (snd (sb_autoApprove isUuid db f_get f_upd f_get2 f_ins i reason now now2 created newId))"
| sr_expire:
    "sb_reachable isUuid db \<Longrightarrow> sb_reachable isUuid (snd (sb_expireStaleRequests db fault now))"

definition sb_inv :: "(string \<Rightarrow> bool) \<Rightarrow> Database \<Rightarrow> bool" where
  "sb_inv isUuid db =
     (distinct (map rid (approval_requests db))
      \<and> distinct (map approvalRequestId (approval_decisions db))
      \<and> (\<forall>r \<in> set (approval_requests db).
             isUuid (rid r) \<and> (trustLevel r = L4 \<longrightarrow> \<not> autoApproveEligible r))
      \<and> (\<forall>d \<in> set (approval_decisions db).
             \<exists>r \<in> set (approval_requests db).
               rid r = approvalRequestId d \<and> status r = statusForDecision (decision d)))"

text \<open>
  Sample stores: one request created at time 1000 from an input of the given trust
  level, action type \<^verbatim>\<open>COMMIT_POST_ALERT\<close>, workflow \<^verbatim>\<open>daily_ops_brief\<close> and reviewer
  verdict PASS, as in the repository's tests of \<^verbatim>\<open>autoApprove\<close>.
\<close>

definition sampleStore :: "TrustLevel \<Rightarrow> InMemoryApprovalStore" where
  "sampleStore lvl =
     snd (mem_createRequest uuidShape emptyStore
            (sampleInput lvl ''COMMIT_POST_ALERT'' ''daily_ops_brief'' (Some PASS)) 1000 1000 id1)"

definition sampleDb :: "TrustLevel \<Rightarrow> Database" where
  "sampleDb lvl =
     snd (sb_createRequest uuidShape emptyDatabase None
            (sampleInput lvl ''COMMIT_POST_ALERT'' ''daily_ops_brief'' (Some PASS)) 1000 1000 id1)"

text \<open>
  The gates that \<^verbatim>\<open>autoApprove\<close> tests on the request it found, at its own clock
  reading \<open>now\<close>.
\<close>

definition autoApproveGates :: "ApprovalRequest \<Rightarrow> int \<Rightarrow> bool" where
  "autoApproveGates r now =
     (trustLevel r \<noteq> L4 \<and> status r = PENDING \<and> autoApproveEligible r
      \<and> reviewerVerdict r = Some PASS \<and> \<not> expiresAt r < now)"

text \<open>
  The duplicate-decision scenario of the repository's tests: a reviewer approves the
  sample L3 request at time 2000, then a second reviewer tries to reject it.
\<close>

definition firstDecision :: CreateDecisionInput where
  "firstDecision =
     \<lparr>di_approvalRequestId = id1, di_decidedBy = ''reviewer1'', di_decision = APPROVE,
      di_notes = None, di_metadata = None\<rparr>"

definition secondDecision :: CreateDecisionInput where
  "secondDecision =
     \<lparr>di_approvalRequestId = id1, di_decidedBy = ''reviewer2'', di_decision = REJECT,
      di_notes = None, di_metadata = None\<rparr>"

definition decidedStore :: InMemoryApprovalStore where
  "decidedStore = snd (mem_createDecision uuidShape (sampleStore L3) firstDecision 2000 2000 id2)"

definition decidedDb :: Database where
  "decidedDb = snd (sb_createDecision uuidShape (sampleDb L3) None None firstDecision 2000 2000 id2)"

section \<open>Plain JavaScript objects\<close>

text \<open>
  The registry of commit tools and the per-tool overrides of a trust gate are plain
  objects, read with \<^verbatim>\<open>obj[key]\<close> and \<^verbatim>\<open>key in obj\<close>. Both reads follow the
  prototype chain: a key that is no own property of the object but a property of
  \<^verbatim>\<open>Object.prototype\<close> is found there. An object is the list of its own properties
  here. What a read finds is a value of the object, or a member of the prototype: a
  function (the prototype itself for \<^verbatim>\<open>__proto__\<close>), which is truthy, has none of the
  fields of a value and is no element of any enumeration.
\<close>

definition objectPrototypeKeys :: "string list" where
  "objectPrototypeKeys =
     [''constructor'', ''__defineGetter__'', ''__defineSetter__'', ''hasOwnProperty'',
      ''__lookupGetter__'', ''__lookupSetter__'', ''isPrototypeOf'',
      ''propertyIsEnumerable'', ''toString'', ''valueOf'', ''__proto__'',
      ''toLocaleString'']"

datatype 'a js_member = Value 'a | PrototypeMember string

definition objectGet :: "(string \<times> 'a) list \<Rightarrow> string \<Rightarrow> 'a js_member option" where
  "objectGet obj key =
     (case map_of obj key of
        Some v \<Rightarrow> Some (Value v)
      | None \<Rightarrow> (if key \<in> set objectPrototypeKeys then Some (PrototypeMember key) else None))"

definition objectHas :: "(string \<times> 'a) list \<Rightarrow> string \<Rightarrow> bool" where
  "objectHas obj key = (map_of obj key \<noteq> None \<or> key \<in> set objectPrototypeKeys)"

section \<open>Commit tools (commit-tools.ts)\<close>

record CommitToolDefinition =
  ct_name :: string
  ct_minTrustLevel :: TrustLevel
  ct_actionType :: string
  ct_autoApproveEligible :: bool
  ct_risk :: RiskLevel

text \<open>The own properties of the registry \<^verbatim>\<open>COMMIT_TOOLS\<close>.\<close>

definition COMMIT_TOOLS :: "(string \<times> CommitToolDefinition) list" where
  "COMMIT_TOOLS =
     [(''asi.commit_apply_changes'',
         \<lparr>ct_name = ''asi.commit_apply_changes'', ct_minTrustLevel = L3,
          ct_actionType = ''COMMIT_APPLY_CHANGES'', ct_autoApproveEligible = True,
          ct_risk = HIGH\<rparr>),
      (''asi.commit_publish_daily_brief'',
         \<lparr>ct_name = ''asi.commit_publish_daily_brief'', ct_minTrustLevel = L3,
          ct_actionType = ''COMMIT_PUBLISH_DAILY_BRIEF'', ct_autoApproveEligible = True,
          ct_risk = MEDIUM\<rparr>),
      (''asi.commit_post_alert'',
         \<lparr>ct_name = ''asi.commit_post_alert'', ct_minTrustLevel = L3,
          ct_actionType = ''COMMIT_POST_ALERT'', ct_autoApproveEligible = True,
          ct_risk = MEDIUM\<rparr>),
      (''asi.commit_mark_checkpoint_complete'',
         \<lparr>ct_name = ''asi.commit_mark_checkpoint_complete'', ct_minTrustLevel = L3,
          ct_actionType = ''COMMIT_MARK_CHECKPOINT_COMPLETE'', ct_autoApproveEligible = False,
          ct_risk = HIGH\<rparr>),
      (''asi.commit_send_invoice'',
         \<lparr>ct_name = ''asi.commit_send_invoice'', ct_minTrustLevel = L4,
          ct_actionType = ''COMMIT_SEND_INVOICE'', ct_autoApproveEligible = False,
          ct_risk = CRITICAL\<rparr>)]"

text \<open>\<^verbatim>\<open>toolName in COMMIT_TOOLS\<close> and \<^verbatim>\<open>COMMIT_TOOLS[toolName]\<close>.\<close>

definition isCommitTool :: "string \<Rightarrow> bool" where
  "isCommitTool toolName = objectHas COMMIT_TOOLS toolName"

definition getCommitTool :: "string \<Rightarrow> CommitToolDefinition js_member option" where
  "getCommitTool toolName = objectGet COMMIT_TOOLS toolName"

text \<open>
  The fields the callers read from what \<^verbatim>\<open>getCommitTool\<close> returned:
  \<^verbatim>\<open>toolDef.actionType\<close> and \<^verbatim>\<open>toolDef.minTrustLevel\<close> (undefined on a member of the
  prototype), \<^verbatim>\<open>trustOrder.indexOf(toolDef.minTrustLevel)\<close> (\<open>-1\<close> for undefined) and
  \<^verbatim>\<open>commitToolDef?.autoApproveEligible === true\<close>.
\<close>

definition entryActionType :: "CommitToolDefinition js_member \<Rightarrow> string option" where
  "entryActionType toolDef =
     (case toolDef of Value d \<Rightarrow> Some (ct_actionType d) | PrototypeMember k \<Rightarrow> None)"

definition entryMinTrustLevel :: "CommitToolDefinition js_member \<Rightarrow> TrustLevel option" where
  "entryMinTrustLevel toolDef =
     (case toolDef of Value d \<Rightarrow> Some (ct_minTrustLevel d) | PrototypeMember k \<Rightarrow> None)"

definition entryMinTrustIndex :: "CommitToolDefinition js_member \<Rightarrow> int" where
  "entryMinTrustIndex toolDef =
     (case entryMinTrustLevel toolDef of Some lvl \<Rightarrow> trustIndex lvl | None \<Rightarrow> - 1)"

definition entryAutoApproveEligible :: "CommitToolDefinition js_member \<Rightarrow> bool" where
  "entryAutoApproveEligible toolDef =
     (case toolDef of Value d \<Rightarrow> ct_autoApproveEligible d | PrototypeMember k \<Rightarrow> False)"

datatype ChangeType = create | update | delete

record StagedChange =
  sc_id :: string
  sc_sandboxId :: string
  sc_toolName :: string
  sc_changeType :: ChangeType
  sc_entityType :: string
  sc_payload :: json
  sc_createdAt :: int

text \<open>
  A denial of \<^verbatim>\<open>verifyCommitEligibility\<close>: one constructor for each
  \<^verbatim>\<open>return { eligible: false, reason: ... }\<close> of the source, carrying the values the
  message interpolates.
\<close>

datatype commit_denial =
    InvalidRunId
  | InvalidToolName
  | NotCommitTool string
  | StoreQueryFailed store_error
  | NoRequestForRun string
  | NoRequestForAction "string option"
  | TrustBelowRequired TrustLevel "TrustLevel option" string
  | StatusNotApproved ApprovalStatus
  | VerdictNotPass "ReviewerVerdict option"
  | ApprovalExpired int
  | StagedChangesFailed string
  | NoStagedChanges

record CommitEligibilityResult =
  eligible :: bool
  ce_reason :: "commit_denial option"
  ce_approvalRequest :: "ApprovalRequest option"
  ce_stagedChanges :: "StagedChange list option"

definition commitDenied :: "commit_denial \<Rightarrow> ApprovalRequest option \<Rightarrow> CommitEligibilityResult" where
  "commitDenied d ar =
     \<lparr>eligible = False, ce_reason = Some d, ce_approvalRequest = ar, ce_stagedChanges = None\<rparr>"

definition commitEligible ::
  "ApprovalRequest \<Rightarrow> StagedChange list option \<Rightarrow> CommitEligibilityResult" where
  "commitEligible ar changes =
     \<lparr>eligible = True, ce_reason = None, ce_approvalRequest = Some ar,
      ce_stagedChanges = changes\<rparr>"

text \<open>
  \<^verbatim>\<open>approvalRequest.context?.sandboxId\<close>, as the guard \<^verbatim>\<open>if (sandboxId)\<close> sees it:
  absent when the context is absent, has no such key, or holds the empty string.
\<close>

definition contextSandboxId :: "ApprovalRequest \<Rightarrow> string option" where
  "contextSandboxId ar =
     (case requestContext ar of
        None \<Rightarrow> None
      | Some ctx \<Rightarrow>
          (case map_of ctx ''sandboxId'' of
             None \<Rightarrow> None
           | Some v \<Rightarrow> (if v = [] then None else Some v)))"

text \<open>
  \<^verbatim>\<open>CommitToolBoundary.verifyCommitEligibility\<close>. The boundary's collaborators are
  parameters: \<open>getRequestsByRunId\<close> of the approval store and \<open>getStagedChanges\<close> of
  the sandbox, each of which may throw (\<open>Inl\<close>), and the clock reading \<open>now\<close> of
  gate 7. \<^verbatim>\<open>Array.find\<close> is \<open>find\<close>: the first matching request.
\<close>

definition verifyCommitEligibility ::
  "(string \<Rightarrow> store_error + ApprovalRequest list) \<Rightarrow> (string \<Rightarrow> string + StagedChange list)
     \<Rightarrow> int \<Rightarrow> string \<Rightarrow> string \<Rightarrow> CommitEligibilityResult" where
  "verifyCommitEligibility getRequestsByRunId getStagedChanges now run toolName =
     (if run = [] then commitDenied InvalidRunId None
      else if toolName = [] then commitDenied InvalidToolName None
      else
        (case getCommitTool toolName of
           None \<Rightarrow> commitDenied (NotCommitTool toolName) None
         | Some toolDef \<Rightarrow>
             (case getRequestsByRunId run of
                Inl e \<Rightarrow> commitDenied (StoreQueryFailed e) None
              | Inr reqs \<Rightarrow>
                  (if reqs = [] then commitDenied (NoRequestForRun run) None
                   else
                     (case find (\<lambda>r. Some (actionType r) = entryActionType toolDef
                                       \<or> actionType r = toolName) reqs of
                        None \<Rightarrow> commitDenied (NoRequestForAction (entryActionType toolDef)) None
                      | Some approvalRequest \<Rightarrow>
                          (if trustIndex (trustLevel approvalRequest)
                                < entryMinTrustIndex toolDef
                           then commitDenied
                                  (TrustBelowRequired (trustLevel approvalRequest)
                                     (entryMinTrustLevel toolDef) toolName)
                                  (Some approvalRequest)
                           else if status approvalRequest \<noteq> APPROVED
                           then commitDenied (StatusNotApproved (status approvalRequest))
                                  (Some approvalRequest)
                           else if reviewerVerdict approvalRequest \<noteq> Some PASS
                           then commitDenied (VerdictNotPass (reviewerVerdict approvalRequest))
                                  (Some approvalRequest)
                           else if expiresAt approvalRequest < now
                           then commitDenied (ApprovalExpired (expiresAt approvalRequest))
                                  (Some approvalRequest)
                           else if toolName = ''asi.commit_apply_changes''
                           then
                             (case contextSandboxId approvalRequest of
                                None \<Rightarrow> commitEligible approvalRequest None
                              | Some sandboxId \<Rightarrow>
                                  (case getStagedChanges sandboxId of
                                     Inl e \<Rightarrow> commitDenied (StagedChangesFailed e)
                                               (Some approvalRequest)
                                   | Inr changes \<Rightarrow>
                                       (if changes = []
                                        then commitDenied NoStagedChanges (Some approvalRequest)
                                        else commitEligible approvalRequest (Some changes))))
                           else commitEligible approvalRequest None))))))"

text \<open>
  The reason string of a denial. Every message of the source starts with the marker
  \<^verbatim>\<open>FAIL CLOSED: \<close>; the interpolated values are rendered by the functions below
  (\<open>showDate\<close> renders a \<^verbatim>\<open>Date\<close> and is a parameter).
\<close>

fun showTrustLevel :: "TrustLevel \<Rightarrow> string" where
  "showTrustLevel L0 = ''L0''"
| "showTrustLevel L1 = ''L1''"
| "showTrustLevel L2 = ''L2''"
| "showTrustLevel L3 = ''L3''"
| "showTrustLevel L4 = ''L4''"

fun showStatus :: "ApprovalStatus \<Rightarrow> string" where
  "showStatus PENDING = ''PENDING''"
| "showStatus APPROVED = ''APPROVED''"
| "showStatus REJECTED = ''REJECTED''"
| "showStatus EXPIRED = ''EXPIRED''"

fun showVerdict :: "ReviewerVerdict option \<Rightarrow> string" where
  "showVerdict None = ''missing''"
| "showVerdict (Some PASS) = ''PASS''"
| "showVerdict (Some FAIL) = ''FAIL''"

fun storeErrorMessage :: "store_error \<Rightarrow> string" where
  "storeErrorMessage InvalidInput = ''FAIL CLOSED: Invalid approval request input''"
| "storeErrorMessage (RequestNotFound i) = ''Approval request not found: '' @ i"
| "storeErrorMessage (NotPendingStatus st) =
     ''Cannot decide on request with status: '' @ showStatus st"
| "storeErrorMessage RequestExpired = ''Approval request has expired''"
| "storeErrorMessage AlreadyDecided = ''A decision has already been made for this request''"
| "storeErrorMessage (AutoApproveNotFound i) = ''FAIL CLOSED: Approval request not found: '' @ i"
| "storeErrorMessage (StorageFailure msg) = msg"

fun commitReasonText :: "(int \<Rightarrow> string) \<Rightarrow> commit_denial \<Rightarrow> string" where
  "commitReasonText showDate InvalidRunId = ''FAIL CLOSED: Invalid or missing runId''"
| "commitReasonText showDate InvalidToolName = ''FAIL CLOSED: Invalid or missing toolName''"
| "commitReasonText showDate (NotCommitTool t) =
     ''FAIL CLOSED: '' @ [CHR 0x27] @ t @ [CHR 0x27] @ '' is not a registered commit tool. ''
       @ ''Only commit tools can make irreversible changes.''"
| "commitReasonText showDate (StoreQueryFailed e) =
     ''FAIL CLOSED: Failed to query approval store - '' @ storeErrorMessage e"
| "commitReasonText showDate (NoRequestForRun r) =
     ''FAIL CLOSED: No approval request found for run '' @ r @ ''. ''
       @ ''All commit operations require prior approval.''"
| "commitReasonText showDate (NoRequestForAction a) =
     ''FAIL CLOSED: No approval request found for action type '' @ [CHR 0x27]
       @ (case a of Some s \<Rightarrow> s | None \<Rightarrow> ''undefined'') @ [CHR 0x27]
       @ ''. Approval must be requested before commit.''"
| "commitReasonText showDate (TrustBelowRequired have need t) =
     ''FAIL CLOSED: Trust level '' @ showTrustLevel have @ '' is below required ''
       @ (case need of Some lvl \<Rightarrow> showTrustLevel lvl | None \<Rightarrow> ''undefined'')
       @ '' for '' @ t"
| "commitReasonText showDate (StatusNotApproved st) =
     ''FAIL CLOSED: Approval status is '' @ [CHR 0x27] @ showStatus st @ [CHR 0x27]
       @ '', must be '' @ [CHR 0x27] @ ''APPROVED'' @ [CHR 0x27]
       @ ''. Commit operations require explicit approval.''"
| "commitReasonText showDate (VerdictNotPass v) =
     ''FAIL CLOSED: Reviewer verdict is '' @ [CHR 0x27] @ showVerdict v @ [CHR 0x27]
       @ '', must be '' @ [CHR 0x27] @ ''PASS'' @ [CHR 0x27]
       @ ''. All commits require reviewer approval.''"
| "commitReasonText showDate (ApprovalExpired t) =
     ''FAIL CLOSED: Approval request has expired at '' @ showDate t
       @ ''. A new approval must be requested.''"
| "commitReasonText showDate (StagedChangesFailed e) =
     ''FAIL CLOSED: Failed to get staged changes - '' @ e"
| "commitReasonText showDate NoStagedChanges =
     ''FAIL CLOSED: No staged changes found to commit. ''
       @ ''Changes must be staged before commit_apply_changes.''"

text \<open>The gate, in the numbering of the source's section comments, that a denial comes from.\<close>

fun gateOf :: "commit_denial \<Rightarrow> nat" where
  "gateOf InvalidRunId = 1"
| "gateOf InvalidToolName = 1"
| "gateOf (NotCommitTool t) = 2"
| "gateOf (StoreQueryFailed e) = 3"
| "gateOf (NoRequestForRun r) = 3"
| "gateOf (NoRequestForAction a) = 3"
| "gateOf (TrustBelowRequired have need t) = 4"
| "gateOf (StatusNotApproved st) = 5"
| "gateOf (VerdictNotPass v) = 6"
| "gateOf (ApprovalExpired t) = 7"
| "gateOf (StagedChangesFailed e) = 8"
| "gateOf NoStagedChanges = 8"

section \<open>Trust gate (trust-gates.ts)\<close>

record ToolDefinition =
  tool_name :: string
  tool_capability :: ToolCapability
  tool_risk :: RiskLevel
  tool_executionMode :: ExecutionMode

record TrustGateConfig =
  cfg_domain :: string
  cfg_defaultTrustLevel :: TrustLevel
  cfg_requireApprovalAbove :: TrustLevel
  cfg_sandboxWriteOps :: bool
  cfg_toolOverrides :: "(string \<times> TrustLevel) list option"

record StagePolicy =
  sp_maxTrustLevel :: TrustLevel
  sp_allowedCapabilities :: "ToolCapability list"
  sp_sandboxed :: "bool option"
  sp_requiresReviewerApproval :: "bool option"

text \<open>
  The gate object: its configuration and its stage policies after the constructor has
  merged the caller's overrides into \<^verbatim>\<open>DEFAULT_STAGE_POLICIES\<close>.
\<close>

record TrustGate =
  tg_config :: TrustGateConfig
  tg_stagePolicies :: "WorkflowStage \<Rightarrow> StagePolicy option"

fun DEFAULT_STAGE_POLICIES :: "WorkflowStage \<Rightarrow> StagePolicy option" where
  "DEFAULT_STAGE_POLICIES plan =
     Some \<lparr>sp_maxTrustLevel = L1, sp_allowedCapabilities = [READ, PROPOSE],
           sp_sandboxed = None, sp_requiresReviewerApproval = None\<rparr>"
| "DEFAULT_STAGE_POLICIES execute =
     Some \<lparr>sp_maxTrustLevel = L2, sp_allowedCapabilities = [READ, PROPOSE, WRITE],
           sp_sandboxed = Some True, sp_requiresReviewerApproval = None\<rparr>"
| "DEFAULT_STAGE_POLICIES review =
     Some \<lparr>sp_maxTrustLevel = L1, sp_allowedCapabilities = [READ, PROPOSE],
           sp_sandboxed = None, sp_requiresReviewerApproval = None\<rparr>"
| "DEFAULT_STAGE_POLICIES commit =
     Some \<lparr>sp_maxTrustLevel = L4,
           sp_allowedCapabilities = [READ, PROPOSE, WRITE, SIDE_EFFECTS],
           sp_sandboxed = Some True, sp_requiresReviewerApproval = Some True\<rparr>"

text \<open>
  The context of an evaluation. The optional approval store is the one method the gate
  calls on it, \<^verbatim>\<open>getRequestsByRunId\<close>, which may throw.
\<close>

record TrustGateContext =
  ctx_agentName :: string
  ctx_runId :: string
  ctx_approvalStore :: "(string \<Rightarrow> store_error + ApprovalRequest list) option"
  ctx_reviewerVerdict :: "ReviewerVerdict option"

text \<open>The reason of a gate result: one constructor for each message of the source.\<close>

datatype gate_reason =
    FailClosedToolName
  | FailClosedAgentName
  | FailClosedRunId
  | FailClosedNoPolicy WorkflowStage
  | StageDisallowsLevel WorkflowStage "TrustLevel js_member" TrustLevel
  | StageDisallowsCapability WorkflowStage ToolCapability
  | HumanApprovalRequiredL4 string
  | CommitToolRequiresApprovalCheck
  | ApprovalStoreError store_error
  | ApprovalRequestRequired
  | ReviewerVerdictExpectedPass "ReviewerVerdict option"
  | PendingAutoApproveEligible
  | AwaitingHumanApproval
  | ApprovalTerminal ApprovalStatus

record TrustGateResult =
  allowed :: bool
  tg_reason :: "gate_reason option"
  requiresApproval :: bool
  approvalId :: "string option"
  approvalStatus :: "ApprovalStatus option"
  sandboxed :: bool
  tg_trustLevel :: "TrustLevel js_member"
  tg_isCommitTool :: bool
  requiresReviewerVerdict :: bool
  tg_autoApproveEligible :: bool

definition createDenyResult :: "gate_reason \<Rightarrow> TrustGateResult" where
  "createDenyResult r =
     \<lparr>allowed = False, tg_reason = Some r, requiresApproval = False, approvalId = None,
      approvalStatus = None, sandboxed = False, tg_trustLevel = Value L4,
      tg_isCommitTool = False,
      requiresReviewerVerdict = False, tg_autoApproveEligible = False\<rparr>"

text \<open>
  \<^verbatim>\<open>validateToolDefinition\<close> and \<^verbatim>\<open>validateContext\<close>: for values of the declared
  types the \<^verbatim>\<open>typeof\<close> tests hold, which leaves the tests for empty strings. For the
  same reason \<^verbatim>\<open>VALID_STAGES.has(stage)\<close> holds of every stage.
\<close>

definition validateToolDefinition :: "ToolDefinition \<Rightarrow> gate_reason option" where
  "validateToolDefinition tool = (if tool_name tool = [] then Some FailClosedToolName else None)"

definition validateContext :: "TrustGateContext \<Rightarrow> gate_reason option" where
  "validateContext c =
     (if ctx_agentName c = [] then Some FailClosedAgentName
      else if ctx_runId c = [] then Some FailClosedRunId
      else None)"

text \<open>
  \<^verbatim>\<open>this.config.toolOverrides?.[tool.name]\<close>: the overrides are a plain object, so the
  read also finds the members of the prototype.
\<close>

definition toolOverride :: "TrustGate \<Rightarrow> ToolDefinition \<Rightarrow> TrustLevel js_member option" where
  "toolOverride gate tool =
     (case cfg_toolOverrides (tg_config gate) of
        None \<Rightarrow> None
      | Some ovr \<Rightarrow> objectGet ovr (tool_name tool))"

text \<open>
  \<^verbatim>\<open>TrustGate.getTrustLevelForTool\<close>. Whatever the read of the overrides finds is
  truthy and is returned as the level.
\<close>

definition getTrustLevelForTool :: "TrustGate \<Rightarrow> ToolDefinition \<Rightarrow> TrustLevel js_member" where
  "getTrustLevelForTool gate tool =
     (case toolOverride gate tool of
        Some found \<Rightarrow> found
      | None \<Rightarrow>
          Value
            (if tool_risk tool = CRITICAL then L4
             else if tool_risk tool = HIGH \<and> tool_capability tool = SIDE_EFFECTS then L3
             else if tool_risk tool = HIGH \<or> tool_capability tool = WRITE then L2
             else if tool_capability tool = PROPOSE then L1
             else L0))"

text \<open>
  The explicit per-tool override of the domain configuration, in the words of the
  specification: the level the configuration itself gives the tool's name.
\<close>

definition spec_explicitOverride :: "TrustGate \<Rightarrow> ToolDefinition \<Rightarrow> TrustLevel option" where
  "spec_explicitOverride gate tool =
     (case cfg_toolOverrides (tg_config gate) of
        None \<Rightarrow> None
      | Some ovr \<Rightarrow> map_of ovr (tool_name tool))"

text \<open>The derivation as the specification words it (section 4.E).\<close>

definition spec_toolTrustLevel ::
  "TrustLevel option \<Rightarrow> RiskLevel \<Rightarrow> ToolCapability \<Rightarrow> TrustLevel" where
  "spec_toolTrustLevel override rsk cap =
     (case override of
        Some lvl \<Rightarrow> lvl
      | None \<Rightarrow>
          (if rsk = CRITICAL then L4
           else if rsk = HIGH \<and> cap = SIDE_EFFECTS then L3
           else if rsk = HIGH \<or> cap = WRITE then L2
           else if cap = PROPOSE then L1
           else L0))"

text \<open>
  \<^verbatim>\<open>compareLevel\<close>: \<^verbatim>\<open>TRUST_ORDER.indexOf\<close> is \<open>-1\<close> for what is no trust level.
\<close>

definition levelIndex :: "TrustLevel js_member \<Rightarrow> int" where
  "levelIndex a = (case a of Value lvl \<Rightarrow> trustIndex lvl | PrototypeMember k \<Rightarrow> - 1)"

definition compareLevel :: "TrustLevel js_member \<Rightarrow> TrustLevel \<Rightarrow> int" where
  "compareLevel a b = levelIndex a - trustIndex b"

definition shouldSandbox :: "TrustGate \<Rightarrow> ToolDefinition \<Rightarrow> StagePolicy \<Rightarrow> bool" where
  "shouldSandbox gate tool stagePolicy =
     (if sp_sandboxed stagePolicy = Some True then True
      else if cfg_sandboxWriteOps (tg_config gate)
              \<and> (tool_capability tool = WRITE \<or> tool_capability tool = SIDE_EFFECTS) then True
      else if tool_executionMode tool = SANDBOX_ONLY then True
      else False)"

text \<open>\<^verbatim>\<open>TrustGate.evaluate\<close>.\<close>

definition evaluate ::
  "TrustGate \<Rightarrow> ToolDefinition \<Rightarrow> WorkflowStage \<Rightarrow> TrustGateContext \<Rightarrow> TrustGateResult" where
  "evaluate gate tool stage ctx =
     (case validateToolDefinition tool of
        Some e \<Rightarrow> createDenyResult e
      | None \<Rightarrow>
     (case validateContext ctx of
        Some e \<Rightarrow> createDenyResult e
      | None \<Rightarrow>
     (case tg_stagePolicies gate stage of
        None \<Rightarrow> createDenyResult (FailClosedNoPolicy stage)
      | Some stagePolicy \<Rightarrow>
          (let lvl = getTrustLevelForTool gate tool;
               commitTool = isCommitTool (tool_name tool);
               commitToolDef = (if commitTool then getCommitTool (tool_name tool) else None)
           in
           if compareLevel lvl (sp_maxTrustLevel stagePolicy) > 0 then
             \<lparr>allowed = False,
              tg_reason = Some (StageDisallowsLevel stage lvl (sp_maxTrustLevel stagePolicy)),
              requiresApproval = False, approvalId = None, approvalStatus = None,
              sandboxed = False, tg_trustLevel = lvl, tg_isCommitTool = commitTool,
              requiresReviewerVerdict = commitTool, tg_autoApproveEligible = False\<rparr>
           else if tool_capability tool \<notin> set (sp_allowedCapabilities stagePolicy) then
             \<lparr>allowed = False,
              tg_reason = Some (StageDisallowsCapability stage (tool_capability tool)),
              requiresApproval = False, approvalId = None, approvalStatus = None,
              sandboxed = False, tg_trustLevel = lvl, tg_isCommitTool = commitTool,
              requiresReviewerVerdict = commitTool, tg_autoApproveEligible = False\<rparr>
           else
             (let sbx = shouldSandbox gate tool stagePolicy;
                  reqApproval =
                    (compareLevel lvl (cfg_requireApprovalAbove (tg_config gate)) > 0
                     \<or> sp_requiresReviewerApproval stagePolicy = Some True
                     \<or> commitTool);
                  reqVerdict =
                    (commitTool \<or> sp_requiresReviewerApproval stagePolicy = Some True);
                  autoEligible =
                    (lvl = Value L3
                     \<and> (case commitToolDef of
                           None \<Rightarrow> False
                         | Some d \<Rightarrow> entryAutoApproveEligible d))
              in
              if lvl = Value L4 then
                \<lparr>allowed = False, tg_reason = Some (HumanApprovalRequiredL4 (tool_name tool)),
                 requiresApproval = True, approvalId = None, approvalStatus = None,
                 sandboxed = sbx, tg_trustLevel = lvl, tg_isCommitTool = commitTool,
                 requiresReviewerVerdict = reqVerdict, tg_autoApproveEligible = False\<rparr>
              else if commitTool \<and> stage = commit then
                \<lparr>allowed = False, tg_reason = Some CommitToolRequiresApprovalCheck,
                 requiresApproval = True, approvalId = None, approvalStatus = None,
                 sandboxed = sbx, tg_trustLevel = lvl, tg_isCommitTool = True,
                 requiresReviewerVerdict = True, tg_autoApproveEligible = autoEligible\<rparr>
              else
                \<lparr>allowed = True, tg_reason = None,
                 requiresApproval = reqApproval, approvalId = None, approvalStatus = None,
                 sandboxed = sbx, tg_trustLevel = lvl, tg_isCommitTool = commitTool,
                 requiresReviewerVerdict = reqVerdict,
                 tg_autoApproveEligible = autoEligible\<rparr>)))))"

text \<open>
  \<^verbatim>\<open>String.prototype.includes\<close> and the last segment of
  \<^verbatim>\<open>tool.name.split(".")\<close> (\<open>splitOn\<close> never returns the empty list).
\<close>

fun startsWith :: "string \<Rightarrow> string \<Rightarrow> bool" where
  "startsWith s [] = True"
| "startsWith [] (p # ps) = False"
| "startsWith (c # cs) (p # ps) = (c = p \<and> startsWith cs ps)"

fun includesStr :: "string \<Rightarrow> string \<Rightarrow> bool" where
  "includesStr [] needle = (needle = [])"
| "includesStr (c # cs) needle = (startsWith (c # cs) needle \<or> includesStr cs needle)"

definition lastSegment :: "string \<Rightarrow> string" where
  "lastSegment nm = last (splitOn (CHR ''.'') nm)"

definition matchesTool :: "ToolDefinition \<Rightarrow> ApprovalRequest \<Rightarrow> bool" where
  "matchesTool tool r =
     (actionType r = tool_name tool \<or> includesStr (actionType r) (lastSegment (tool_name tool)))"

text \<open>\<^verbatim>\<open>TrustGate.evaluateWithApproval\<close>. It reads no clock.\<close>

definition evaluateWithApproval ::
  "TrustGate \<Rightarrow> ToolDefinition \<Rightarrow> WorkflowStage \<Rightarrow> TrustGateContext \<Rightarrow> TrustGateResult" where
  "evaluateWithApproval gate tool stage ctx =
     (let basicResult = evaluate gate tool stage ctx in
      if \<not> allowed basicResult \<and> \<not> requiresApproval basicResult then basicResult
      else if \<not> requiresApproval basicResult then basicResult
      else
        (case ctx_approvalStore ctx of
           None \<Rightarrow> basicResult
         | Some getRequestsByRunId \<Rightarrow>
             (case getRequestsByRunId (ctx_runId ctx) of
                Inl e \<Rightarrow> basicResult\<lparr>allowed := False, tg_reason := Some (ApprovalStoreError e)\<rparr>
              | Inr reqs \<Rightarrow>
                  (case find (matchesTool tool) reqs of
                     None \<Rightarrow>
                       basicResult\<lparr>allowed := False, tg_reason := Some ApprovalRequestRequired\<rparr>
                   | Some relevantRequest \<Rightarrow>
                       (if status relevantRequest = APPROVED then
                          (if requiresReviewerVerdict basicResult
                                \<and> reviewerVerdict relevantRequest \<noteq> Some PASS
                           then basicResult
                                  \<lparr>allowed := False,
                                   tg_reason := Some (ReviewerVerdictExpectedPass
                                                       (reviewerVerdict relevantRequest)),
                                   approvalId := Some (rid relevantRequest),
                                   approvalStatus := Some (status relevantRequest)\<rparr>
                           else basicResult
                                  \<lparr>allowed := True,
                                   approvalId := Some (rid relevantRequest),
                                   approvalStatus := Some APPROVED\<rparr>)
                        else if status relevantRequest = PENDING then
                          (if tg_autoApproveEligible basicResult
                                \<and> ctx_reviewerVerdict ctx = Some PASS
                                \<and> autoApproveEligible relevantRequest
                           then basicResult
                                  \<lparr>allowed := False,
                                   tg_reason := Some PendingAutoApproveEligible,
                                   approvalId := Some (rid relevantRequest),
                                   approvalStatus := Some PENDING,
                                   tg_autoApproveEligible := True\<rparr>
                           else basicResult
                                  \<lparr>allowed := False,
                                   tg_reason := Some AwaitingHumanApproval,
                                   approvalId := Some (rid relevantRequest),
                                   approvalStatus := Some PENDING\<rparr>)
                        else basicResult
                               \<lparr>allowed := False,
                                tg_reason := Some (ApprovalTerminal (status relevantRequest)),
                                approvalId := Some (rid relevantRequest),
                                approvalStatus := Some (status relevantRequest)\<rparr>)))))"

text \<open>
  A gate with the default policies and no per-tool override, the commit tool
  \<^verbatim>\<open>asi.commit_post_alert\<close> (HIGH, SIDE_EFFECTS), and a store with one L3 request
  of the given action type, created at time 1000 (so it expires at 3601000) and
  approved by a reviewer at time 2000.
\<close>

definition defaultGate :: TrustGate where
  "defaultGate =
     \<lparr>tg_config = \<lparr>cfg_domain = ''asi'', cfg_defaultTrustLevel = L1,
                   cfg_requireApprovalAbove = L2, cfg_sandboxWriteOps = True,
                   cfg_toolOverrides = None\<rparr>,
      tg_stagePolicies = DEFAULT_STAGE_POLICIES\<rparr>"

definition postAlertTool :: ToolDefinition where
  "postAlertTool =
     \<lparr>tool_name = ''asi.commit_post_alert'', tool_capability = SIDE_EFFECTS,
      tool_risk = HIGH, tool_executionMode = SANDBOX_ONLY\<rparr>"

definition approvedStore :: "string \<Rightarrow> InMemoryApprovalStore" where
  "approvedStore act =
     snd (mem_createDecision uuidShape
            (snd (mem_createRequest uuidShape emptyStore
                    (sampleInput L3 act ''daily_ops_brief'' (Some PASS)) 1000 1000 id1))
            firstDecision 2000 2000 id2)"

definition decidedContext :: TrustGateContext where
  "decidedContext =
     \<lparr>ctx_agentName = ''ops_brief_lead'', ctx_runId = run1,
      ctx_approvalStore =
        Some (\<lambda>run. Inr (mem_getRequestsByRunId (approvedStore ''asi.commit_post_alert'') run)),
      ctx_reviewerVerdict = Some PASS\<rparr>"

text \<open>
  \<^verbatim>\<open>DEFAULT_GATES.land\<close>, whose overrides are the empty object, and a CRITICAL tool whose
  name is a property of \<^verbatim>\<open>Object.prototype\<close>.
\<close>

definition landGate :: TrustGate where
  "landGate =
     \<lparr>tg_config = \<lparr>cfg_domain = ''land'', cfg_defaultTrustLevel = L1,
                   cfg_requireApprovalAbove = L2, cfg_sandboxWriteOps = True,
                   cfg_toolOverrides = Some []\<rparr>,
      tg_stagePolicies = DEFAULT_STAGE_POLICIES\<rparr>"

definition toStringTool :: ToolDefinition where
  "toStringTool =
     \<lparr>tool_name = ''toString'', tool_capability = WRITE, tool_risk = CRITICAL,
      tool_executionMode = SANDBOX_ONLY\<rparr>"

section \<open>The gates of the commit boundary, as predicates\<close>

text \<open>
  Gates 1 to 7 of \<^verbatim>\<open>verifyCommitEligibility\<close> in one function: the request the
  boundary selected when all seven pass, \<open>None\<close> otherwise.
\<close>

definition gates1to7 ::
  "(string \<Rightarrow> store_error + ApprovalRequest list) \<Rightarrow> int \<Rightarrow> string \<Rightarrow> string
     \<Rightarrow> ApprovalRequest option" where
  "gates1to7 getRequestsByRunId now run toolName =
     (if run = [] \<or> toolName = [] then None
      else
        (case getCommitTool toolName of
           None \<Rightarrow> None
         | Some toolDef \<Rightarrow>
             (case getRequestsByRunId run of
                Inl e \<Rightarrow> None
              | Inr reqs \<Rightarrow>
                  (case find (\<lambda>r. Some (actionType r) = entryActionType toolDef
                                    \<or> actionType r = toolName) reqs of
                     None \<Rightarrow> None
                   | Some r \<Rightarrow>
                       (if entryMinTrustIndex toolDef \<le> trustIndex (trustLevel r)
                           \<and> status r = APPROVED \<and> reviewerVerdict r = Some PASS
                           \<and> \<not> expiresAt r < now
                        then Some r else None)))))"

text \<open>
  Gate 8 as the specification words it: for \<^verbatim>\<open>apply_changes\<close>, the request's
  sandbox has a non-empty set of staged changes.
\<close>

definition spec_stagedGate ::
  "(string \<Rightarrow> string + StagedChange list) \<Rightarrow> string \<Rightarrow> ApprovalRequest \<Rightarrow> bool" where
  "spec_stagedGate getStagedChanges toolName r =
     (toolName \<noteq> ''asi.commit_apply_changes''
      \<or> (case contextSandboxId r of
            None \<Rightarrow> False
          | Some sandboxId \<Rightarrow>
              (case getStagedChanges sandboxId of Inl e \<Rightarrow> False | Inr cs \<Rightarrow> cs \<noteq> [])))"

text \<open>Gate 8 as the source tests it: a request without a sandbox id skips the test.\<close>

definition code_stagedGate ::
  "(string \<Rightarrow> string + StagedChange list) \<Rightarrow> string \<Rightarrow> ApprovalRequest \<Rightarrow> bool" where
  "code_stagedGate getStagedChanges toolName r =
     (toolName \<noteq> ''asi.commit_apply_changes''
      \<or> (case contextSandboxId r of
            None \<Rightarrow> True
          | Some sandboxId \<Rightarrow>
              (case getStagedChanges sandboxId of Inl e \<Rightarrow> False | Inr cs \<Rightarrow> cs \<noteq> [])))"

text \<open>The approval store of a boundary or gate that is backed by an in-memory store.\<close>

definition storeQuery :: "InMemoryApprovalStore \<Rightarrow> string \<Rightarrow> store_error + ApprovalRequest list" where
  "storeQuery s run = Inr (mem_getRequestsByRunId s run)"

definition noStagedChanges :: "string \<Rightarrow> string + StagedChange list" where
  "noStagedChanges sandboxId = Inr []"

section \<open>Sandbox (sandbox.ts)\<close>

subsection \<open>Types\<close>

datatype SandboxFailureReason =
    DOCKER_NOT_AVAILABLE
  | DOCKER_NOT_RUNNING
  | IMAGE_PULL_FAILED
  | BLOCKED_ENV_VAR_REQUESTED
  | INVALID_INPUT
  | NETWORK_ALLOWLIST_INVALID
  | ARTIFACTS_DIR_CREATION_FAILED
  | EXECUTION_TIMEOUT
  | CONTAINER_STARTUP_FAILED
  | UNKNOWN_ERROR

text \<open>
  The fields of \<^verbatim>\<open>SandboxConfig\<close> that the execution path branches on. The image, the
  resource limits and the environment variables only shape the arguments of
  \<^verbatim>\<open>docker run\<close>, whose outcome is given by the environment below.
\<close>

record SandboxConfig =
  timeoutSeconds :: nat
  artifactsDir :: string
  failClosedOnDockerUnavailable :: bool
  verboseSecurityLogging :: bool

definition DEFAULT_SANDBOX_CONFIG :: SandboxConfig where
  "DEFAULT_SANDBOX_CONFIG =
     \<lparr>timeoutSeconds = 300, artifactsDir = ''/tmp/sandbox-artifacts'',
      failClosedOnDockerUnavailable = True, verboseSecurityLogging = False\<rparr>"

text \<open>
  What a call of the handler does: its promise resolves with a value, rejects with an
  \<^verbatim>\<open>Error\<close> that has the given message, rejects with a value that is no \<^verbatim>\<open>Error\<close>
  (given as \<^verbatim>\<open>String(error)\<close>), or does not settle before the timeout.
\<close>

datatype handler_outcome =
  Resolves string | RejectsError string | RejectsValue string | NeverSettles

datatype tool_args = ArgsObject json | ArgsMissing | ArgsNotObject

text \<open>
  \<^verbatim>\<open>SandboxExecutionInput\<close>. A \<open>runId\<close> or \<open>toolName\<close> that is missing or not a string
  is the empty string here (\<^verbatim>\<open>validateInput\<close> rejects all three alike); a handler that
  is missing or not a function is \<open>None\<close>.
\<close>

record SandboxExecutionInput =
  si_sandboxId :: "string option"
  si_runId :: string
  si_toolName :: string
  si_toolArgs :: tool_args
  si_handler :: "(json \<Rightarrow> handler_outcome) option"

record SandboxExecutionResult =
  sr_success :: bool
  sr_result :: "string option"
  sr_error :: "string option"
  sr_sandboxId :: string
  sr_artifacts :: "string list"
  sr_durationMs :: int
  sr_timedOut :: bool
  sr_exitCode :: "int option"
  sr_stdout :: "string option"
  sr_stderr :: "string option"
  failureReason :: "SandboxFailureReason option"
  deniedByPolicy :: "bool option"

text \<open>The result of \<^verbatim>\<open>runCommand\<close> and \<^verbatim>\<open>runCommandWithTimeout\<close>.\<close>

record CommandResult =
  cr_exitCode :: int
  cr_stdout :: string
  cr_stderr :: string
  cr_timedOut :: bool

record ParsedOutput =
  po_result :: "string option"
  po_error :: "string option"
  po_success :: "bool option"

text \<open>
  What one call of \<^verbatim>\<open>execute\<close> reads from outside the object: the identifiers and clock
  readings, the outcome of \<^verbatim>\<open>fs.mkdir\<close> (\<open>Some\<close> the error message when it throws), of
  the three docker commands (\<open>Inl\<close> when \<^verbatim>\<open>spawn\<close> throws), of building the execution
  script, of \<^verbatim>\<open>JSON.parse\<close> on the container's output and of \<^verbatim>\<open>fs.readdir\<close>.
\<close>

record SandboxEnv =
  env_uuid :: string
  env_dateNow :: int
  env_duration :: int
  env_isolationDuration :: int
  env_mkdir :: "string option"
  env_dockerVersion :: "string + CommandResult"
  env_dockerDiagnose :: "string + CommandResult"
  env_scriptError :: "string option"
  env_dockerRun :: "string + CommandResult"
  env_jsonParse :: "string \<Rightarrow> ParsedOutput option"
  env_readdir :: "string list option"
  env_stageId :: string
  env_stageTime :: int

record DockerSandbox =
  ds_config :: SandboxConfig
  ds_stagedChanges :: "(string \<times> StagedChange list) list"
  dockerAvailabilityCache :: "bool option"
  dockerAvailabilityCacheTime :: int

definition DOCKER_CACHE_TTL_MS :: int where
  "DOCKER_CACHE_TTL_MS = 30000"

definition newDockerSandbox :: "SandboxConfig \<Rightarrow> DockerSandbox" where
  "newDockerSandbox config =
     \<lparr>ds_config = config, ds_stagedChanges = [], dockerAvailabilityCache = None,
      dockerAvailabilityCacheTime = 0\<rparr>"

subsection \<open>DockerSandbox\<close>

definition createFailClosedResult ::
  "string \<Rightarrow> SandboxFailureReason \<Rightarrow> string \<Rightarrow> int \<Rightarrow> SandboxExecutionResult" where
  "createFailClosedResult sandboxId reason err duration =
     \<lparr>sr_success = False, sr_result = None, sr_error = Some (''FAIL CLOSED: '' @ err),
      sr_sandboxId = sandboxId, sr_artifacts = [], sr_durationMs = duration,
      sr_timedOut = False, sr_exitCode = None, sr_stdout = None, sr_stderr = None,
      failureReason = Some reason, deniedByPolicy = Some True\<rparr>"

definition validateInput :: "SandboxExecutionInput \<Rightarrow> string option" where
  "validateInput input =
     (if si_runId input = []
      then Some (''Input missing required '' @ [CHR 0x27] @ ''runId'' @ [CHR 0x27] @ '' field'')
      else if si_toolName input = []
      then Some (''Input missing required '' @ [CHR 0x27] @ ''toolName'' @ [CHR 0x27]
                   @ '' field'')
      else if si_handler input = None
      then Some (''Input missing required '' @ [CHR 0x27] @ ''handler'' @ [CHR 0x27]
                   @ '' function'')
      else if si_toolArgs input = ArgsNotObject
      then Some (''Input '' @ [CHR 0x27] @ ''toolArgs'' @ [CHR 0x27] @ '' must be an object'')
      else None)"

text \<open>
  \<^verbatim>\<open>isDockerAvailable\<close>: the cached answer while it is younger than 30 seconds,
  otherwise the exit code of \<^verbatim>\<open>docker version\<close>, which is cached.
\<close>

definition isDockerAvailable :: "DockerSandbox \<Rightarrow> SandboxEnv \<Rightarrow> bool \<times> DockerSandbox" where
  "isDockerAvailable sb env =
     (let now = env_dateNow env;
          probe =
            (case env_dockerVersion env of
               Inr r \<Rightarrow>
                 (cr_exitCode r = 0,
                  sb\<lparr>dockerAvailabilityCache := Some (cr_exitCode r = 0),
                     dockerAvailabilityCacheTime := now\<rparr>)
             | Inl e \<Rightarrow>
                 (False,
                  sb\<lparr>dockerAvailabilityCache := Some False,
                     dockerAvailabilityCacheTime := now\<rparr>))
      in (case dockerAvailabilityCache sb of
            None \<Rightarrow> probe
          | Some cached \<Rightarrow>
              (if now - dockerAvailabilityCacheTime sb < DOCKER_CACHE_TTL_MS
               then (cached, sb)
               else probe)))"

definition diagnoseDockerUnavailability :: "SandboxEnv \<Rightarrow> string" where
  "diagnoseDockerUnavailability env =
     (case env_dockerDiagnose env of
        Inl e \<Rightarrow> ''Docker check failed: '' @ e
      | Inr r \<Rightarrow>
          (if cr_exitCode r \<noteq> 0
           then (if includesStr (cr_stderr r) ''Cannot connect to the Docker daemon''
                 then ''Docker daemon is not running''
                 else if includesStr (cr_stderr r) ''command not found''
                         \<or> includesStr (cr_stderr r) ''not found''
                 then ''Docker is not installed''
                 else if includesStr (cr_stderr r) ''permission denied''
                 then ''Permission denied to access Docker socket''
                 else ''Docker error: '' @ take 100 (cr_stderr r))
           else ''Unknown Docker issue''))"

text \<open>
  \<^verbatim>\<open>executeInDocker\<close>. The handler is not called: the container runs the script that
  \<^verbatim>\<open>buildExecutionScript\<close> writes from the tool name and arguments. \<open>Inl\<close> is the
  exception of \<^verbatim>\<open>buildExecutionScript\<close>, which is raised outside the method's
  \<^verbatim>\<open>try\<close>.
\<close>

definition falsy :: "string option \<Rightarrow> bool" where
  "falsy v = (case v of None \<Rightarrow> True | Some s \<Rightarrow> s = [])"

definition executeInDocker :: "SandboxEnv \<Rightarrow> string + SandboxExecutionResult" where
  "executeInDocker env =
     (case env_scriptError env of
        Some e \<Rightarrow> Inl e
      | None \<Rightarrow>
          (case env_dockerRun env of
             Inl e \<Rightarrow>
               Inr \<lparr>sr_success = False, sr_result = None, sr_error = Some e,
                    sr_sandboxId = [], sr_artifacts = [], sr_durationMs = 0,
                    sr_timedOut = False, sr_exitCode = None, sr_stdout = None,
                    sr_stderr = None, failureReason = None, deniedByPolicy = None\<rparr>
           | Inr r \<Rightarrow>
               (let success0 = (cr_exitCode r = 0);
                    parsed =
                      (if cr_stdout r \<noteq> []
                       then (case env_jsonParse env (cr_stdout r) of
                               Some out \<Rightarrow>
                                 (po_result out, po_error out,
                                  (case po_success out of Some b \<Rightarrow> b | None \<Rightarrow> success0))
                             | None \<Rightarrow> (Some (cr_stdout r), None, success0))
                       else (None, None, success0));
                    err = (if cr_stderr r \<noteq> [] \<and> falsy (fst (snd parsed))
                           then Some (cr_stderr r) else fst (snd parsed))
                in Inr \<lparr>sr_success = snd (snd parsed), sr_result = fst parsed, sr_error = err,
                        sr_sandboxId = [], sr_artifacts = [], sr_durationMs = 0,
                        sr_timedOut = cr_timedOut r, sr_exitCode = Some (cr_exitCode r),
                        sr_stdout = Some (cr_stdout r), sr_stderr = Some (cr_stderr r),
                        failureReason = None, deniedByPolicy = None\<rparr>)))"

definition inferEntityType :: "string \<Rightarrow> string" where
  "inferEntityType toolName =
     (if includesStr toolName ''booking'' then ''booking''
      else if includesStr toolName ''flight'' then ''flight''
      else if includesStr toolName ''event'' then ''event''
      else if includesStr toolName ''brief'' then ''brief''
      else if includesStr toolName ''alert'' then ''alert''
      else ''unknown'')"

definition argsOf :: "tool_args \<Rightarrow> json" where
  "argsOf a = (case a of ArgsObject j \<Rightarrow> j | ArgsMissing \<Rightarrow> [] | ArgsNotObject \<Rightarrow> [])"

text \<open>
  \<^verbatim>\<open>storeStage\<close>. The payload \<^verbatim>\<open>{ args, result }\<close> is one association list here: the
  arguments followed by the entry \<open>result\<close>.
\<close>

definition storeStage ::
  "DockerSandbox \<Rightarrow> SandboxEnv \<Rightarrow> string \<Rightarrow> SandboxExecutionInput \<Rightarrow> string \<Rightarrow> DockerSandbox" where
  "storeStage sb env sandboxId input result =
     (let change =
            \<lparr>sc_id = env_stageId env, sc_sandboxId = sandboxId,
             sc_toolName = si_toolName input, sc_changeType = create,
             sc_entityType = inferEntityType (si_toolName input),
             sc_payload = argsOf (si_toolArgs input) @ [(''result'', result)],
             sc_createdAt = env_stageTime env\<rparr>;
          existing =
            (case map_of (ds_stagedChanges sb) sandboxId of None \<Rightarrow> [] | Some cs \<Rightarrow> cs)
      in sb\<lparr>ds_stagedChanges := map_set sandboxId (existing @ [change]) (ds_stagedChanges sb)\<rparr>)"

text \<open>
  \<^verbatim>\<open>executeDirectly\<close>, the only place where the sandbox calls the handler. The third
  component of the result counts the calls of the handler.
\<close>

definition executeDirectly ::
  "DockerSandbox \<Rightarrow> SandboxEnv \<Rightarrow> SandboxExecutionInput \<Rightarrow> string
     \<Rightarrow> SandboxExecutionResult \<times> DockerSandbox \<times> nat" where
  "executeDirectly sb env input sandboxId =
     (let failed = (\<lambda>msg isTimeout.
            \<lparr>sr_success = False, sr_result = None, sr_error = Some msg,
             sr_sandboxId = [], sr_artifacts = [], sr_durationMs = 0,
             sr_timedOut = isTimeout,
             sr_exitCode = Some (if isTimeout then 124 else 1),
             sr_stdout = None, sr_stderr = None,
             failureReason = (if isTimeout then Some EXECUTION_TIMEOUT else None),
             deniedByPolicy = Some False\<rparr>)
      in (case si_handler input of
            None \<Rightarrow> (failed ''input.handler is not a function'' False, sb, 0)
          | Some handler \<Rightarrow>
              (case handler (argsOf (si_toolArgs input)) of
                 Resolves v \<Rightarrow>
                   (\<lparr>sr_success = True, sr_result = Some v, sr_error = None,
                     sr_sandboxId = [], sr_artifacts = [], sr_durationMs = 0,
                     sr_timedOut = False, sr_exitCode = Some 0,
                     sr_stdout = None, sr_stderr = None,
                     failureReason = None, deniedByPolicy = Some False\<rparr>,
                    storeStage sb env sandboxId input v, 1)
               | RejectsError msg \<Rightarrow> (failed msg (msg = ''Execution timeout''), sb, 1)
               | RejectsValue v \<Rightarrow> (failed v False, sb, 1)
               | NeverSettles \<Rightarrow> (failed ''Execution timeout'' True, sb, 1))))"

text \<open>
  \<^verbatim>\<open>executeWithIsolation\<close>. \<open>Inl\<close> is an exception that escapes the method.
\<close>

definition executeWithIsolation ::
  "DockerSandbox \<Rightarrow> SandboxEnv \<Rightarrow> SandboxExecutionInput \<Rightarrow> string
     \<Rightarrow> (string + SandboxExecutionResult) \<times> DockerSandbox \<times> nat" where
  "executeWithIsolation sb env input sandboxId =
     (let (dockerAvailable, sb1) = isDockerAvailable sb env
      in if dockerAvailable
         then (case executeInDocker env of
                 Inl e \<Rightarrow> (Inl e, sb1, 0)
               | Inr result \<Rightarrow>
                   (Inr (result\<lparr>sr_sandboxId := sandboxId, sr_artifacts := [],
                               sr_durationMs := env_isolationDuration env\<rparr>), sb1, 0))
         else if failClosedOnDockerUnavailable (ds_config sb1)
         then (let reason = diagnoseDockerUnavailability env
               in (Inr \<lparr>sr_success = False, sr_result = None,
                        sr_error = Some (''FAIL CLOSED: Docker unavailable - '' @ reason
                                    @ ''. Sandboxed execution is required for L2+ operations.''),
                        sr_sandboxId = sandboxId, sr_artifacts = [],
                        sr_durationMs = env_isolationDuration env,
                        sr_timedOut = False, sr_exitCode = None, sr_stdout = None,
                        sr_stderr = None,
                        failureReason =
                          Some (if reason = ''Docker daemon is not running''
                                then DOCKER_NOT_RUNNING else DOCKER_NOT_AVAILABLE),
                        deniedByPolicy = Some True\<rparr>, sb1, 0))
         else (let (directResult, sb2, calls) = executeDirectly sb1 env input sandboxId
               in (Inr (directResult\<lparr>sr_sandboxId := sandboxId, sr_artifacts := [],
                                     sr_durationMs := env_isolationDuration env\<rparr>),
                   sb2, calls)))"

text \<open>
  \<^verbatim>\<open>DockerSandbox.execute\<close>: the result, the sandbox object afterwards, and the number
  of calls of the handler.
\<close>

definition sandbox_execute ::
  "DockerSandbox \<Rightarrow> SandboxEnv \<Rightarrow> SandboxExecutionInput
     \<Rightarrow> SandboxExecutionResult \<times> DockerSandbox \<times> nat" where
  "sandbox_execute sb env input =
     (let sandboxId =
            (case si_sandboxId input of Some i \<Rightarrow> i | None \<Rightarrow> ''sandbox-'' @ env_uuid env)
      in (case validateInput input of
            Some inputError \<Rightarrow>
              (createFailClosedResult sandboxId INVALID_INPUT inputError (env_duration env),
               sb, 0)
          | None \<Rightarrow>
              (case env_mkdir env of
                 Some e \<Rightarrow>
                   (createFailClosedResult sandboxId ARTIFACTS_DIR_CREATION_FAILED
                      (''Failed to create artifacts directory: '' @ e) (env_duration env),
                    sb, 0)
               | None \<Rightarrow>
                   (case executeWithIsolation sb env input sandboxId of
                      (Inl e, sb1, calls) \<Rightarrow>
                        (\<lparr>sr_success = False, sr_result = None,
                          sr_error = Some (''FAIL CLOSED: Unexpected error - '' @ e),
                          sr_sandboxId = sandboxId, sr_artifacts = [],
                          sr_durationMs = env_duration env, sr_timedOut = False,
                          sr_exitCode = None, sr_stdout = None, sr_stderr = None,
                          failureReason = Some UNKNOWN_ERROR,
                          deniedByPolicy = Some True\<rparr>, sb1, calls)
                    | (Inr result, sb1, calls) \<Rightarrow>
                        (if deniedByPolicy result = Some True then (result, sb1, calls)
                         else (result\<lparr>sr_artifacts :=
                                         (case env_readdir env of
                                            None \<Rightarrow> []
                                          | Some files \<Rightarrow>
                                              map (\<lambda>f. artifactsDir (ds_config sb) @ ''/''
                                                         @ sandboxId @ ''/'' @ f) files),
                                      sr_durationMs := env_duration env\<rparr>,
                               sb1, calls))))))"

subsection \<open>FailClosedSandbox\<close>

text \<open>\<^verbatim>\<open>FailClosedSandbox.execute\<close>: the result and the number of calls of the handler.\<close>

definition fc_execute ::
  "string \<Rightarrow> SandboxEnv \<Rightarrow> SandboxExecutionInput \<Rightarrow> SandboxExecutionResult \<times> nat" where
  "fc_execute reason env input =
     (\<lparr>sr_success = False, sr_result = None, sr_error = Some (''FAIL CLOSED: '' @ reason),
       sr_sandboxId =
         (case si_sandboxId input of Some i \<Rightarrow> i | None \<Rightarrow> ''fail-closed-'' @ env_uuid env),
       sr_artifacts = [], sr_durationMs = 0, sr_timedOut = False, sr_exitCode = None,
       sr_stdout = None, sr_stderr = None,
       failureReason = Some DOCKER_NOT_AVAILABLE, deniedByPolicy = Some True\<rparr>, 0)"

subsection \<open>Availability of Docker\<close>

text \<open>
  Docker is unavailable when \<^verbatim>\<open>docker version\<close> cannot be run or exits with an error.
  The sandbox holds a cached answer \<open>available\<close> while the last check is younger than 30
  seconds and found Docker available.
\<close>

definition dockerUnavailable :: "SandboxEnv \<Rightarrow> bool" where
  "dockerUnavailable env =
     (case env_dockerVersion env of Inl e \<Rightarrow> True | Inr r \<Rightarrow> cr_exitCode r \<noteq> 0)"

definition cachedAvailable :: "DockerSandbox \<Rightarrow> SandboxEnv \<Rightarrow> bool" where
  "cachedAvailable sb env =
     (dockerAvailabilityCache sb = Some True
      \<and> env_dateNow env - dockerAvailabilityCacheTime sb < DOCKER_CACHE_TTL_MS)"

subsection \<open>Sample execution\<close>

definition dockerDown :: CommandResult where
  "dockerDown =
     \<lparr>cr_exitCode = 1, cr_stdout = [], cr_stderr = ''Cannot connect to the Docker daemon'',
      cr_timedOut = False\<rparr>"

definition sampleEnv :: SandboxEnv where
  "sampleEnv =
     \<lparr>env_uuid = id3, env_dateNow = 5000, env_duration = 7, env_isolationDuration = 5,
      env_mkdir = None, env_dockerVersion = Inr dockerDown,
      env_dockerDiagnose = Inr dockerDown, env_scriptError = None,
      env_dockerRun = Inr dockerDown, env_jsonParse = (\<lambda>s. None), env_readdir = Some [],
      env_stageId = id2, env_stageTime = 5000\<rparr>"

definition sampleExecution :: SandboxExecutionInput where
  "sampleExecution =
     \<lparr>si_sandboxId = Some ''sandbox-1'', si_runId = run1,
      si_toolName = ''asi.stage_flight_update'', si_toolArgs = ArgsObject [],
      si_handler = Some (\<lambda>args. Resolves ''done'')\<rparr>"

text \<open>
  An execution at time 4000, while Docker is up, and the sandbox it leaves behind, which
  has cached the answer of its availability check.
\<close>

definition dockerUp :: CommandResult where
  "dockerUp =
     \<lparr>cr_exitCode = 0, cr_stdout = ''24.0.7'', cr_stderr = [], cr_timedOut = False\<rparr>"

definition upEnv :: SandboxEnv where
  "upEnv =
     \<lparr>env_uuid = id3, env_dateNow = 4000, env_duration = 7, env_isolationDuration = 5,
      env_mkdir = None, env_dockerVersion = Inr dockerUp,
      env_dockerDiagnose = Inr dockerUp, env_scriptError = None,
      env_dockerRun = Inr dockerUp, env_jsonParse = (\<lambda>s. None), env_readdir = Some [],
      env_stageId = id2, env_stageTime = 4000\<rparr>"

definition warmSandbox :: DockerSandbox where
  "warmSandbox =
     fst (snd (sandbox_execute (newDockerSandbox DEFAULT_SANDBOX_CONFIG) upEnv
                 sampleExecution))"

section \<open>Orchestrator (orchestrator.ts)\<close>

subsection \<open>Types\<close>

record AgentDefinition =
  ag_name :: string
  ag_role :: AgentRole
  ag_allowedTools :: "string list"
  ag_maxTurns :: nat

record WorkflowDefinition =
  wf_name :: string
  wf_domain :: string
  wf_agents :: "AgentDefinition list"
  wf_stages :: "WorkflowStage list"

record WorkflowRunOptions =
  wo_input :: string
  wo_runId :: "string option"
  wo_reviewerVerdict :: "ReviewerVerdict option"
  wo_reviewerNotes :: "string option"

datatype run_status = completed | failed | requires_approval

record ToolCall =
  tc_tool :: string
  tc_trustGateResult :: json
  tc_result :: json
  tc_sandboxId :: "string option"

record AgentRunResult =
  ar_output :: "string option"
  ar_toolCalls :: "ToolCall list"
  ar_status :: run_status
  ar_error :: "string option"
  ar_approvalRequestId :: "string option"
  ar_reviewerVerdict :: "ReviewerVerdict option"

record AgentActionEvent =
  ev_domain :: string
  ev_workflowName :: string
  ev_agentName :: string
  ev_runId :: string
  ev_trustLevel :: TrustLevel
  ev_stage :: WorkflowStage
  ev_intent :: string
  ev_warnings :: "string list"
  ev_errors :: "string list"
  ev_summary :: "string option"

text \<open>
  \<^verbatim>\<open>WorkflowResult\<close>. The result is \<open>None\<close> while \<^verbatim>\<open>finalResult\<close> is undefined, and
  \<open>Some None\<close> for \<^verbatim>\<open>null\<close>.
\<close>

record WorkflowResult =
  res_runId :: string
  res_result :: "string option option"
  res_events :: "AgentActionEvent list"
  res_status :: run_status
  res_error :: "string option"
  res_approvalRequestId :: "string option"
  res_reviewerVerdict :: "ReviewerVerdict option"

text \<open>
  One call of \<^verbatim>\<open>runAgent\<close>, as the run records it: the position of the stage in the
  workflow's stage list, the stage, the agent, and the verdict the agent produced.
\<close>

record AgentRun =
  run_pos :: nat
  run_stage :: WorkflowStage
  run_agent :: string
  run_verdict :: "ReviewerVerdict option"

text \<open>
  What a run reads from outside the orchestrator: the generated run id, the UUID test of
  the approval store, the answer of \<^verbatim>\<open>runAgent\<close> at each position (\<open>Inl\<close> when it
  throws; the model's answers are not determined by the orchestrator), and the clock
  readings and identifiers of the approval store's calls at each position.
\<close>

record OrchestratorEnv =
  oe_uuid :: string
  oe_isUuid :: "string \<Rightarrow> bool"
  oe_runAgent :: "nat \<Rightarrow> AgentDefinition \<Rightarrow> WorkflowStage \<Rightarrow> string \<Rightarrow> ReviewerVerdict option
                    \<Rightarrow> string + AgentRunResult"
  oe_now :: "nat \<Rightarrow> int"
  oe_now2 :: "nat \<Rightarrow> int"
  oe_requestId :: "nat \<Rightarrow> string"
  oe_decisionId :: "nat \<Rightarrow> string"

text \<open>
  The local variables of the stage loop of \<^verbatim>\<open>runWorkflow\<close>, the events handed to the
  logger, the calls of \<^verbatim>\<open>runAgent\<close>, and the approval store (an in-memory store, when
  the orchestrator has one).
\<close>

record LoopState =
  ls_context :: string
  ls_finalResult :: "string option option"
  ls_finalStatus :: run_status
  ls_finalError :: "string option"
  ls_approvalRequestId :: "string option"
  ls_reviewerVerdict :: "ReviewerVerdict option"
  ls_logged :: "AgentActionEvent list"
  ls_agentRuns :: "AgentRun list"
  ls_store :: "InMemoryApprovalStore option"

datatype step_exit = Continue | Break | Throw string

subsection \<open>Validation\<close>

definition validateWorkflowDefinition :: "WorkflowDefinition \<Rightarrow> string option" where
  "validateWorkflowDefinition w =
     (if wf_name w = []
      then Some (''Workflow definition missing required '' @ [CHR 0x27] @ ''name''
                   @ [CHR 0x27] @ '' field'')
      else if wf_agents w = []
      then Some (''Workflow definition missing or empty '' @ [CHR 0x27] @ ''agents''
                   @ [CHR 0x27] @ '' array'')
      else if wf_stages w = []
      then Some (''Workflow definition missing or empty '' @ [CHR 0x27] @ ''stages''
                   @ [CHR 0x27] @ '' array'')
      else None)"

fun indexOf :: "'a list \<Rightarrow> 'a \<Rightarrow> int" where
  "indexOf [] x = - 1"
| "indexOf (y # ys) x =
     (if y = x then 0 else (if indexOf ys x < 0 then - 1 else indexOf ys x + 1))"

fun showStage :: "WorkflowStage \<Rightarrow> string" where
  "showStage plan = ''plan''"
| "showStage execute = ''execute''"
| "showStage review = ''review''"
| "showStage commit = ''commit''"

fun roleForStage :: "WorkflowStage \<Rightarrow> AgentRole" where
  "roleForStage plan = planner"
| "roleForStage execute = worker"
| "roleForStage review = reviewer"
| "roleForStage commit = worker"

definition getAgentForStage :: "AgentDefinition list \<Rightarrow> WorkflowStage \<Rightarrow> AgentDefinition option" where
  "getAgentForStage agents stage = find (\<lambda>a. ag_role a = roleForStage stage) agents"

subsection \<open>Events\<close>

definition orchestratorEvent ::
  "WorkflowDefinition \<Rightarrow> string \<Rightarrow> string \<Rightarrow> TrustLevel \<Rightarrow> WorkflowStage \<Rightarrow> string
     \<Rightarrow> string list \<Rightarrow> string list \<Rightarrow> string option \<Rightarrow> AgentActionEvent" where
  "orchestratorEvent w run agentName lvl stage intent warnings errs summary =
     \<lparr>ev_domain = wf_domain w, ev_workflowName = wf_name w, ev_agentName = agentName,
      ev_runId = run, ev_trustLevel = lvl, ev_stage = stage, ev_intent = intent,
      ev_warnings = warnings, ev_errors = errs, ev_summary = summary\<rparr>"

definition blockedEvent :: "WorkflowDefinition \<Rightarrow> string \<Rightarrow> string option \<Rightarrow> AgentActionEvent" where
  "blockedEvent w run output =
     orchestratorEvent w run ''orchestrator'' L0 review
       ''Workflow blocked: reviewer verdict FAIL''
       [''Commit stage blocked due to reviewer FAIL verdict''] []
       (map_option (take 500) output)"

subsection \<open>Approval requests of the commit stage\<close>

text \<open>
  \<^verbatim>\<open>createApprovalRequest\<close>: the id, eligibility and action type of the created request,
  or \<open>None\<close> for \<^verbatim>\<open>null\<close>; and the store afterwards. When \<^verbatim>\<open>getCommitTool\<close> returns a
  member of the prototype, the input has neither trust level nor action type, the
  store's \<^verbatim>\<open>createRequest\<close> rejects it before it writes, and the \<^verbatim>\<open>catch\<close> returns
  \<^verbatim>\<open>null\<close>.
\<close>

definition createApprovalRequest ::
  "OrchestratorEnv \<Rightarrow> nat \<Rightarrow> InMemoryApprovalStore option \<Rightarrow> WorkflowDefinition \<Rightarrow> string
     \<Rightarrow> string \<Rightarrow> AgentRunResult \<Rightarrow> ReviewerVerdict option \<Rightarrow> string option
     \<Rightarrow> (string \<times> bool \<times> string) option \<times> InMemoryApprovalStore option" where
  "createApprovalRequest E pos store w run agentName stageResult verdict rnotes =
     (case store of
        None \<Rightarrow> (None, store)
      | Some s \<Rightarrow>
          (case find (\<lambda>tc. isCommitTool (tc_tool tc)) (ar_toolCalls stageResult) of
             None \<Rightarrow> (None, store)
           | Some commitToolCall \<Rightarrow>
               (case getCommitTool (tc_tool commitToolCall) of
                  None \<Rightarrow> (None, store)
                | Some (PrototypeMember k) \<Rightarrow> (None, store)
                | Some (Value commitToolDef) \<Rightarrow>
                    (let input =
                           \<lparr>in_domain = Some (wf_domain w), in_runId = run,
                            in_workflowName = wf_name w, in_requestedBy = agentName,
                            in_trustLevel = ct_minTrustLevel commitToolDef,
                            in_actionType = ct_actionType commitToolDef,
                            in_actionPayload = tc_trustGateResult commitToolCall,
                            in_context =
                              Some ([(''toolName'', tc_tool commitToolCall)]
                                    @ tc_result commitToolCall
                                    @ (case tc_sandboxId commitToolCall of
                                         None \<Rightarrow> []
                                       | Some i \<Rightarrow> [(''sandboxId'', i)])),
                            in_reviewerVerdict = verdict, in_reviewerNotes = rnotes\<rparr>
                     in (case mem_createRequest (oe_isUuid E) s input (oe_now E pos)
                                (oe_now E pos) (oe_requestId E pos) of
                           (Inl e, s') \<Rightarrow> (None, Some s')
                         | (Inr request, s') \<Rightarrow>
                             (Some (rid request, autoApproveEligible request,
                                    ct_actionType commitToolDef), Some s'))))))"

text \<open>The branch \<^verbatim>\<open>stageResult.status === "requires_approval"\<close> of the stage loop.\<close>

definition approvalStep ::
  "OrchestratorEnv \<Rightarrow> WorkflowDefinition \<Rightarrow> string \<Rightarrow> WorkflowRunOptions \<Rightarrow> nat
     \<Rightarrow> WorkflowStage \<Rightarrow> AgentDefinition \<Rightarrow> AgentRunResult \<Rightarrow> LoopState
     \<Rightarrow> step_exit \<times> LoopState" where
  "approvalStep E w run opts pos stage agent stageResult st =
     (let st1 = st\<lparr>ls_finalStatus := requires_approval,
                    ls_finalResult := Some (ar_output stageResult),
                    ls_approvalRequestId := ar_approvalRequestId stageResult\<rparr>;
          paused = (\<lambda>s.
            (Break,
             s\<lparr>ls_logged := ls_logged s @
                  [orchestratorEvent w run (ag_name agent) L3 stage
                     ''Workflow paused: requires human approval''
                     [''Approval required to continue''] [] None]\<rparr>))
      in if ls_store st1 \<noteq> None \<and> falsy (ls_approvalRequestId st1) \<and> stage = commit
         then
           (case createApprovalRequest E pos (ls_store st1) w run (ag_name agent) stageResult
                   (ls_reviewerVerdict st1) (wo_reviewerNotes opts) of
              (None, store') \<Rightarrow>
                paused (st1\<lparr>ls_approvalRequestId := None, ls_store := store'\<rparr>)
            | (Some (reqId, elig, act), store') \<Rightarrow>
                (let st2 = st1\<lparr>ls_approvalRequestId := Some reqId, ls_store := store'\<rparr>
                 in if elig \<and> ls_reviewerVerdict st2 = Some PASS
                    then
                      (case store' of
                         None \<Rightarrow> paused st2
                       | Some s \<Rightarrow>
                           (case mem_autoApprove (oe_isUuid E) s reqId
                                   ''Auto-approved: reviewer PASS + eligible action type''
                                   (oe_now2 E pos) (oe_now2 E pos) (oe_now2 E pos)
                                   (oe_decisionId E pos) of
                              (Inl e, s') \<Rightarrow>
                                (Throw (storeErrorMessage e), st2\<lparr>ls_store := Some s'\<rparr>)
                            | (Inr None, s') \<Rightarrow> paused (st2\<lparr>ls_store := Some s'\<rparr>)
                            | (Inr (Some dec), s') \<Rightarrow>
                                (Continue,
                                 st2\<lparr>ls_store := Some s', ls_finalStatus := completed,
                                     ls_logged := ls_logged st2 @
                                       [orchestratorEvent w run ''orchestrator'' L3 stage
                                          ''Auto-approved commit operation'' [] []
                                          (Some (''Auto-approved: '' @ act))]\<rparr>)))
                    else paused st2))
         else paused st1)"

subsection \<open>The stage loop\<close>

text \<open>One iteration of \<^verbatim>\<open>for (const stage of workflow.stages)\<close>.\<close>

definition stageStep ::
  "OrchestratorEnv \<Rightarrow> WorkflowDefinition \<Rightarrow> string \<Rightarrow> WorkflowRunOptions \<Rightarrow> nat
     \<Rightarrow> WorkflowStage \<Rightarrow> LoopState \<Rightarrow> step_exit \<times> LoopState" where
  "stageStep E w run opts pos stage st =
     (case getAgentForStage (wf_agents w) stage of
        None \<Rightarrow>
          (let err = ''FAIL CLOSED: No agent defined for required stage '' @ [CHR 0x27]
                       @ showStage stage @ [CHR 0x27]
           in (Break,
               st\<lparr>ls_finalStatus := failed, ls_finalError := Some err,
                  ls_logged := ls_logged st @
                    [orchestratorEvent w run ''orchestrator'' L0 stage
                       (''FAIL CLOSED: Missing agent for stage '' @ [CHR 0x27]
                          @ showStage stage @ [CHR 0x27]) [] [err] None]\<rparr>))
      | Some agent \<Rightarrow>
          (if stage = commit \<and> ls_reviewerVerdict st = None
           then
             (let err =
                ''FAIL CLOSED: Commit stage requires reviewer verdict but none was provided''
              in (Break,
                  st\<lparr>ls_finalStatus := failed, ls_finalError := Some err,
                     ls_logged := ls_logged st @
                       [orchestratorEvent w run ''orchestrator'' L0 commit
                          ''FAIL CLOSED: Missing reviewer verdict for commit'' [] [err]
                          None]\<rparr>))
           else
             (case oe_runAgent E pos agent stage (ls_context st) (ls_reviewerVerdict st) of
                Inl e \<Rightarrow>
                  (Throw e,
                   st\<lparr>ls_agentRuns := ls_agentRuns st @
                        [\<lparr>run_pos = pos, run_stage = stage, run_agent = ag_name agent,
                          run_verdict = None\<rparr>]\<rparr>)
              | Inr stageResult \<Rightarrow>
                  (let st1 = st\<lparr>ls_agentRuns := ls_agentRuns st @
                                  [\<lparr>run_pos = pos, run_stage = stage,
                                    run_agent = ag_name agent,
                                    run_verdict = ar_reviewerVerdict stageResult\<rparr>]\<rparr>;
                       st2 = (if stage = review \<and> ar_reviewerVerdict stageResult \<noteq> None
                              then st1\<lparr>ls_reviewerVerdict := ar_reviewerVerdict stageResult\<rparr>
                              else st1)
                   in if stage = review \<and> ar_reviewerVerdict stageResult = Some FAIL
                      then
                        (Break,
                         st2\<lparr>ls_finalStatus := failed,
                             ls_finalResult := Some (ar_output stageResult),
                             ls_finalError :=
                               Some ''Reviewer verdict: FAIL - commit stage blocked'',
                             ls_logged := ls_logged st2 @
                               [blockedEvent w run (ar_output stageResult)]\<rparr>)
                      else if ar_status stageResult = requires_approval
                      then approvalStep E w run opts pos stage agent stageResult st2
                      else if ar_status stageResult = failed
                      then
                        (Break,
                         st2\<lparr>ls_finalStatus := failed,
                             ls_finalError := ar_error stageResult,
                             ls_finalResult := Some None,
                             ls_logged := ls_logged st2 @
                               [orchestratorEvent w run (ag_name agent) L0 stage
                                  (''Stage '' @ [CHR 0x27] @ showStage stage @ [CHR 0x27]
                                     @ '' failed'') []
                                  [case ar_error stageResult of
                                     None \<Rightarrow> ''Unknown error'' | Some e \<Rightarrow> e]
                                  None]\<rparr>)
                      else
                        (Continue,
                         st2\<lparr>ls_context :=
                               (case ar_output stageResult of
                                  Some s \<Rightarrow> s | None \<Rightarrow> ''null''),
                             ls_finalResult := Some (ar_output stageResult)\<rparr>)))))"

text \<open>
  The loop over the stages from position \<open>pos\<close> on. The exit is \<open>Continue\<close> when the
  list is exhausted, \<open>Break\<close> after a \<^verbatim>\<open>break\<close>, and \<open>Throw\<close> when an exception
  reaches the \<^verbatim>\<open>catch\<close> of \<^verbatim>\<open>runWorkflow\<close>.
\<close>

fun runStages ::
  "OrchestratorEnv \<Rightarrow> WorkflowDefinition \<Rightarrow> string \<Rightarrow> WorkflowRunOptions \<Rightarrow> nat
     \<Rightarrow> WorkflowStage list \<Rightarrow> LoopState \<Rightarrow> step_exit \<times> LoopState" where
  "runStages E w run opts pos [] st = (Continue, st)"
| "runStages E w run opts pos (stage # rest) st =
     (case stageStep E w run opts pos stage st of
        (Continue, st') \<Rightarrow> runStages E w run opts (Suc pos) rest st'
      | (Break, st') \<Rightarrow> (Break, st')
      | (Throw e, st') \<Rightarrow> (Throw e, st'))"

subsection \<open>runWorkflow\<close>

text \<open>
  The outcome of \<^verbatim>\<open>runWorkflow\<close>: the returned \<^verbatim>\<open>WorkflowResult\<close>, the events handed to
  the logger, the calls of \<^verbatim>\<open>runAgent\<close>, and the approval store afterwards.
\<close>

record WorkflowRun =
  wr_result :: WorkflowResult
  wr_logged :: "AgentActionEvent list"
  wr_agentRuns :: "AgentRun list"
  wr_store :: "InMemoryApprovalStore option"

definition rejectedRun ::
  "string \<Rightarrow> string \<Rightarrow> InMemoryApprovalStore option \<Rightarrow> WorkflowRun" where
  "rejectedRun run err store =
     \<lparr>wr_result =
        \<lparr>res_runId = run, res_result = Some None, res_events = [], res_status = failed,
         res_error = Some err, res_approvalRequestId = None, res_reviewerVerdict = None\<rparr>,
      wr_logged = [], wr_agentRuns = [], wr_store = store\<rparr>"

text \<open>The local variables when the stage loop starts, after the start event is logged.\<close>

definition initialLoopState ::
  "WorkflowDefinition \<Rightarrow> string \<Rightarrow> WorkflowRunOptions \<Rightarrow> InMemoryApprovalStore option
     \<Rightarrow> LoopState" where
  "initialLoopState w run opts store =
     \<lparr>ls_context = wo_input opts, ls_finalResult = None, ls_finalStatus = completed,
      ls_finalError = None, ls_approvalRequestId = None,
      ls_reviewerVerdict = wo_reviewerVerdict opts,
      ls_logged =
        [orchestratorEvent w run ''orchestrator'' L0 plan
           (''Starting workflow: '' @ wf_name w) [] [] None],
      ls_agentRuns = [], ls_store = store\<rparr>"

text \<open>
  What follows the stage loop: the completion event, or the \<^verbatim>\<open>catch\<close> block when the loop
  threw or when the summary of an undefined \<^verbatim>\<open>finalResult\<close> cannot be computed; then the
  returned result.
\<close>

definition finishRun ::
  "WorkflowDefinition \<Rightarrow> string \<Rightarrow> step_exit \<times> LoopState \<Rightarrow> WorkflowRun" where
  "finishRun w run loop =
     (let st1 = snd loop;
          caught = (\<lambda>e.
            st1\<lparr>ls_finalStatus := failed, ls_finalError := Some e,
                ls_logged := ls_logged st1 @
                  [orchestratorEvent w run ''orchestrator'' L0 commit
                     ''Workflow failed with error'' [] [e] None]\<rparr>);
          st2 =
            (case fst loop of
               Throw e \<Rightarrow> caught e
             | _ \<Rightarrow>
                 (case ls_finalResult st1 of
                    None \<Rightarrow>
                      caught (''Cannot read properties of undefined (reading ''
                                @ [CHR 0x27] @ ''slice'' @ [CHR 0x27] @ '')'')
                  | Some r \<Rightarrow>
                      st1\<lparr>ls_logged := ls_logged st1 @
                           [orchestratorEvent w run ''orchestrator'' L0 commit
                              (''Workflow completed with status: ''
                                 @ (case ls_finalStatus st1 of
                                      completed \<Rightarrow> ''completed''
                                    | failed \<Rightarrow> ''failed''
                                    | requires_approval \<Rightarrow> ''requires_approval''))
                              [] []
                              (Some (take 500 (case r of None \<Rightarrow> ''null'' | Some s \<Rightarrow> s)))]\<rparr>))
      in \<lparr>wr_result =
            \<lparr>res_runId = run, res_result = ls_finalResult st2, res_events = [],
             res_status = ls_finalStatus st2, res_error = ls_finalError st2,
             res_approvalRequestId = ls_approvalRequestId st2,
             res_reviewerVerdict = ls_reviewerVerdict st2\<rparr>,
          wr_logged = ls_logged st2, wr_agentRuns = ls_agentRuns st2,
          wr_store = ls_store st2\<rparr>)"

definition runWorkflow ::
  "OrchestratorEnv \<Rightarrow> InMemoryApprovalStore option \<Rightarrow> WorkflowDefinition \<Rightarrow> WorkflowRunOptions
     \<Rightarrow> WorkflowRun" where
  "runWorkflow E store w opts =
     (let run = (case wo_runId opts of Some i \<Rightarrow> i | None \<Rightarrow> oe_uuid E)
      in case validateWorkflowDefinition w of
           Some workflowError \<Rightarrow> rejectedRun run (''FAIL CLOSED: '' @ workflowError) store
         | None \<Rightarrow>
             (let commitIndex = indexOf (wf_stages w) commit;
                  reviewIndex = indexOf (wf_stages w) review
              in if commitIndex \<noteq> - 1 \<and> (reviewIndex = - 1 \<or> reviewIndex > commitIndex)
                 then rejectedRun run
                        ''FAIL CLOSED: Commit stage requires review stage to precede it'' store
                 else finishRun w run
                        (runStages E w run opts 0 (wf_stages w)
                           (initialLoopState w run opts store))))"

subsection \<open>Sample workflow\<close>

definition sampleAgents :: "AgentDefinition list" where
  "sampleAgents =
     [\<lparr>ag_name = ''ops_planner'', ag_role = planner, ag_allowedTools = [], ag_maxTurns = 5\<rparr>,
      \<lparr>ag_name = ''ops_worker'', ag_role = worker, ag_allowedTools = [], ag_maxTurns = 5\<rparr>,
      \<lparr>ag_name = ''ops_reviewer'', ag_role = reviewer, ag_allowedTools = [],
        ag_maxTurns = 5\<rparr>]"

definition sampleWorkflow :: WorkflowDefinition where
  "sampleWorkflow =
     \<lparr>wf_name = ''daily_ops_brief'', wf_domain = ''asi'', wf_agents = sampleAgents,
      wf_stages = [plan, execute, review, commit]\<rparr>"

definition sampleOptions :: WorkflowRunOptions where
  "sampleOptions =
     \<lparr>wo_input = ''brief'', wo_runId = Some run1, wo_reviewerVerdict = None,
      wo_reviewerNotes = None\<rparr>"

text \<open>An environment in which every agent completes and the reviewer answers FAIL.\<close>

definition failingReviewEnv :: OrchestratorEnv where
  "failingReviewEnv =
     \<lparr>oe_uuid = run1, oe_isUuid = uuidShape,
      oe_runAgent = (\<lambda>pos agent stage input verdict.
        Inr \<lparr>ar_output = Some ''text'', ar_toolCalls = [], ar_status = completed,
             ar_error = None, ar_approvalRequestId = None,
             ar_reviewerVerdict = (if ag_role agent = reviewer then Some FAIL else None)\<rparr>),
      oe_now = (\<lambda>pos. 1000), oe_now2 = (\<lambda>pos. 1000),
      oe_requestId = (\<lambda>pos. id1), oe_decisionId = (\<lambda>pos. id2)\<rparr>"

definition failedReviewRun :: AgentRun where
  "failedReviewRun =
     \<lparr>run_pos = 2, run_stage = review, run_agent = ''ops_reviewer'',
      run_verdict = Some FAIL\<rparr>"

text \<open>
  A workflow that reviews, commits and reviews again, and an environment in which the
  first review answers PASS, the commit agent calls \<^verbatim>\<open>asi.commit_post_alert\<close>, which
  requires approval, and the second review answers FAIL.
\<close>

definition repeatedReviewWorkflow :: WorkflowDefinition where
  "repeatedReviewWorkflow =
     \<lparr>wf_name = ''daily_ops_brief'', wf_domain = ''asi'', wf_agents = sampleAgents,
      wf_stages = [review, commit, review]\<rparr>"

definition lateFailEnv :: OrchestratorEnv where
  "lateFailEnv =
     \<lparr>oe_uuid = run1, oe_isUuid = uuidShape,
      oe_runAgent = (\<lambda>pos agent stage input verdict.
        if pos = 0 then
          Inr \<lparr>ar_output = Some ''ok'', ar_toolCalls = [], ar_status = completed,
               ar_error = None, ar_approvalRequestId = None,
               ar_reviewerVerdict = Some PASS\<rparr>
        else if pos = 1 then
          Inr \<lparr>ar_output = None,
               ar_toolCalls =
                 [\<lparr>tc_tool = ''asi.commit_post_alert'', tc_trustGateResult = [],
                   tc_result = [], tc_sandboxId = None\<rparr>],
               ar_status = requires_approval, ar_error = None,
               ar_approvalRequestId = None, ar_reviewerVerdict = None\<rparr>
        else
          Inr \<lparr>ar_output = Some ''rejected'', ar_toolCalls = [], ar_status = completed,
               ar_error = None, ar_approvalRequestId = None,
               ar_reviewerVerdict = Some FAIL\<rparr>),
      oe_now = (\<lambda>pos. 1000), oe_now2 = (\<lambda>pos. 1000),
      oe_requestId = (\<lambda>pos. id1), oe_decisionId = (\<lambda>pos. id2)\<rparr>"

section \<open>Verified properties\<close>

subsection \<open>Association lists\<close>

lemma map_of_map_set: "map_of (map_set k v kvs) = (map_of kvs)(k \<mapsto> v)"
  by (induction kvs) (auto simp: fun_eq_iff)

lemma uuidShape_samples: "uuidShape run1" "uuidShape id1" "uuidShape id2" "uuidShape id3"
  by (simp_all add: uuidShape_def run1_def id1_def id2_def id3_def isHexDigit_def)

subsection \<open>Auto-approve eligibility at creation\<close>

lemma mem_isAutoApproveEligible_eq:
  "mem_isAutoApproveEligible lvl act wfn rv = isAutoApproveEligible lvl act wfn rv"
  by (simp add: mem_isAutoApproveEligible_def isAutoApproveEligible_def
      AUTO_APPROVE_DENY_LIST_def AUTO_APPROVE_ALLOW_LIST_def)

lemma isAutoApproveEligible_spec:
  "isAutoApproveEligible lvl act wfn rv \<longleftrightarrow> lvl = L3 \<and> spec_eligibility_chain lvl act wfn rv"
  by (simp add: isAutoApproveEligible_def spec_eligibility_chain_def)

lemma parse_request_fields:
  assumes "parseCreateApprovalRequest isUuid inp = Some v"
  shows "in_trustLevel v = in_trustLevel inp" "in_actionType v = in_actionType inp"
    "in_workflowName v = in_workflowName inp" "in_reviewerVerdict v = in_reviewerVerdict inp"
    "in_runId v = in_runId inp"
  using assms by (auto simp: parseCreateApprovalRequest_def Let_def split: if_splits)

lemma mem_createRequest_valid:
  assumes "parseCreateApprovalRequest isUuid inp = Some v"
  shows "\<exists>r. mem_createRequest isUuid s inp now created newId
            = (Inr r, s\<lparr>requests := map_set newId r (requests s)\<rparr>)
          \<and> rid r = newId \<and> status r = PENDING \<and> trustLevel r = in_trustLevel inp
          \<and> (autoApproveEligible r \<longleftrightarrow>
               isAutoApproveEligible (in_trustLevel inp) (in_actionType inp)
                 (in_workflowName inp) (in_reviewerVerdict inp))"
  using assms parse_request_fields[OF assms]
  by (auto simp: mem_createRequest_def Let_def mem_isAutoApproveEligible_eq isAutoApproveEligible_def)

lemma filter_rid_fresh:
  "i \<notin> set (map rid rows) \<Longrightarrow> rid row = i \<Longrightarrow> filter (\<lambda>r. rid r = i) (rows @ [row]) = [row]"
  by (induction rows) auto

lemma sb_createRequest_valid:
  assumes "parseCreateApprovalRequest isUuid inp = Some v"
    and "newId \<notin> set (map rid (approval_requests db))"
  shows "\<exists>r. sb_createRequest isUuid db None inp now created newId
            = (Inr r, db\<lparr>approval_requests := approval_requests db @ [r]\<rparr>)
          \<and> rid r = newId \<and> status r = PENDING \<and> trustLevel r = in_trustLevel inp
          \<and> (autoApproveEligible r \<longleftrightarrow>
               isAutoApproveEligible (in_trustLevel inp) (in_actionType inp)
                 (in_workflowName inp) (in_reviewerVerdict inp))"
  using assms parse_request_fields[OF assms(1)]
  by (auto simp: sb_createRequest_def Let_def isAutoApproveEligible_def)

lemma sample_valid:
  "parseCreateApprovalRequest uuidShape (sampleInput lvl ''COMMIT_POST_ALERT'' wfn rv) \<noteq> None
     \<longleftrightarrow> wfn \<noteq> []"
  using uuidShape_samples
  by (simp add: parseCreateApprovalRequest_def sampleInput_def Let_def)

text \<open>
  C5, as the code has it. For every input that passes validation, the eligibility that
  \<^verbatim>\<open>createRequest\<close> computes and stores (in either store) is the chain of the
  specification guarded by one more step: the trust level must be exactly L3. So
  eligibility is true exactly for an L3 request with reviewer verdict PASS whose action
  type and workflow name are both outside the deny list and one of which is in the
  allow list; for L0, L1, L2 and L4 it is false.
\<close>

theorem C5_createRequest_eligibility:
  assumes valid: "parseCreateApprovalRequest isUuid inp \<noteq> None"
    and fresh: "newId \<notin> set (map rid (approval_requests db))"
  shows "(\<exists>r s'. mem_createRequest isUuid s inp now created newId = (Inr r, s')
            \<and> mem_getRequest s' newId = Some r
            \<and> (autoApproveEligible r \<longleftrightarrow>
                 in_trustLevel inp = L3
                 \<and> spec_eligibility_chain (in_trustLevel inp) (in_actionType inp)
                     (in_workflowName inp) (in_reviewerVerdict inp)))
       \<and> (\<exists>r db'. sb_createRequest isUuid db None inp now created newId = (Inr r, db')
            \<and> sb_getRequest db' None newId = Inr (Some r)
            \<and> (autoApproveEligible r \<longleftrightarrow>
                 in_trustLevel inp = L3
                 \<and> spec_eligibility_chain (in_trustLevel inp) (in_actionType inp)
                     (in_workflowName inp) (in_reviewerVerdict inp)))"
proof -
  from valid obtain v where v: "parseCreateApprovalRequest isUuid inp = Some v" by auto
  from mem_createRequest_valid[OF v, of s now created newId] obtain r where
    r: "mem_createRequest isUuid s inp now created newId
          = (Inr r, s\<lparr>requests := map_set newId r (requests s)\<rparr>)"
       "autoApproveEligible r \<longleftrightarrow>
          isAutoApproveEligible (in_trustLevel inp) (in_actionType inp)
            (in_workflowName inp) (in_reviewerVerdict inp)"
    by blast
  have "mem_getRequest (s\<lparr>requests := map_set newId r (requests s)\<rparr>) newId = Some r"
    by (simp add: mem_getRequest_def map_of_map_set)
  with r have A: "\<exists>r s'. mem_createRequest isUuid s inp now created newId = (Inr r, s')
            \<and> mem_getRequest s' newId = Some r
            \<and> (autoApproveEligible r \<longleftrightarrow>
                 in_trustLevel inp = L3
                 \<and> spec_eligibility_chain (in_trustLevel inp) (in_actionType inp)
                     (in_workflowName inp) (in_reviewerVerdict inp))"
    unfolding isAutoApproveEligible_spec by blast
  from sb_createRequest_valid[OF v fresh, of now created] obtain q where
    q: "sb_createRequest isUuid db None inp now created newId
          = (Inr q, db\<lparr>approval_requests := approval_requests db @ [q]\<rparr>)"
       "rid q = newId"
       "autoApproveEligible q \<longleftrightarrow>
          isAutoApproveEligible (in_trustLevel inp) (in_actionType inp)
            (in_workflowName inp) (in_reviewerVerdict inp)"
    by blast
  have "sb_getRequest (db\<lparr>approval_requests := approval_requests db @ [q]\<rparr>) None newId
          = Inr (Some q)"
    using filter_rid_fresh[OF fresh q(2)] by (simp add: sb_getRequest_def)
  with q have B: "\<exists>r db'. sb_createRequest isUuid db None inp now created newId = (Inr r, db')
            \<and> sb_getRequest db' None newId = Inr (Some r)
            \<and> (autoApproveEligible r \<longleftrightarrow>
                 in_trustLevel inp = L3
                 \<and> spec_eligibility_chain (in_trustLevel inp) (in_actionType inp)
                     (in_workflowName inp) (in_reviewerVerdict inp))"
    unfolding isAutoApproveEligible_spec by blast
  from A B show ?thesis by blast
qed

theorem C5_createRequest_eligibility_witness:
  "parseCreateApprovalRequest uuidShape
       (sampleInput L3 ''COMMIT_POST_ALERT'' ''daily_ops_brief'' (Some PASS)) \<noteq> None
   \<and> id1 \<notin> set (map rid (approval_requests emptyDatabase))
   \<and> (\<exists>r s'. mem_createRequest uuidShape emptyStore
                 (sampleInput L3 ''COMMIT_POST_ALERT'' ''daily_ops_brief'' (Some PASS)) 0 0 id1
                 = (Inr r, s')
          \<and> mem_getRequest s' id1 = Some r \<and> autoApproveEligible r)
   \<and> (\<exists>r db'. sb_createRequest uuidShape emptyDatabase None
                 (sampleInput L3 ''COMMIT_POST_ALERT'' ''daily_ops_brief'' (Some PASS)) 0 0 id1
                 = (Inr r, db')
          \<and> sb_getRequest db' None id1 = Inr (Some r) \<and> autoApproveEligible r)"
proof -
  let ?inp = "sampleInput L3 ''COMMIT_POST_ALERT'' ''daily_ops_brief'' (Some PASS)"
  have h1: "parseCreateApprovalRequest uuidShape ?inp \<noteq> None"
    using sample_valid[of L3 "''daily_ops_brief''" "Some PASS"] by simp
  have h2: "id1 \<notin> set (map rid (approval_requests emptyDatabase))"
    by (simp add: emptyDatabase_def)
  have h3: "in_trustLevel ?inp = L3
      \<and> spec_eligibility_chain (in_trustLevel ?inp) (in_actionType ?inp)
           (in_workflowName ?inp) (in_reviewerVerdict ?inp)"
    by (simp add: sampleInput_def spec_eligibility_chain_def
        AUTO_APPROVE_DENY_LIST_def AUTO_APPROVE_ALLOW_LIST_def)
  show ?thesis
    using h1 h2 h3 C5_createRequest_eligibility[OF h1 h2, of emptyStore 0 0] by blast
qed

theorem C5_counterexample:
  "map_sum id autoApproveEligible
     (fst (mem_createRequest uuidShape emptyStore
             (sampleInput L2 ''COMMIT_POST_ALERT'' ''daily_ops_brief'' (Some PASS)) 0 0 id1))
     = Inr False
   \<and> map_sum id autoApproveEligible
     (fst (sb_createRequest uuidShape emptyDatabase None
             (sampleInput L2 ''COMMIT_POST_ALERT'' ''daily_ops_brief'' (Some PASS)) 0 0 id1))
     = Inr False
   \<and> spec_eligibility_chain L2 ''COMMIT_POST_ALERT'' ''daily_ops_brief'' (Some PASS) = True"
  using uuidShape_samples
  by (simp add: mem_createRequest_def sb_createRequest_def parseCreateApprovalRequest_def
      sampleInput_def mem_isAutoApproveEligible_def isAutoApproveEligible_def
      spec_eligibility_chain_def Let_def emptyDatabase_def
      AUTO_APPROVE_DENY_LIST_def AUTO_APPROVE_ALLOW_LIST_def)

subsection \<open>The store invariant holds in every reachable store\<close>

lemma keys_map_set: "fst ` set (map_set k v kvs) = insert k (fst ` set kvs)"
  by (simp add: dom_map_of_conv_image_fst[symmetric] map_of_map_set)

lemma distinct_map_set: "distinct (map fst kvs) \<Longrightarrow> distinct (map fst (map_set k v kvs))"
  by (induction kvs) (auto simp: keys_map_set)

lemma map_of_None_iff: "map_of kvs k = None \<longleftrightarrow> k \<notin> fst ` set kvs"
  by (simp add: map_of_eq_None_iff)

lemma statusForDecision_not_pending [simp]: "statusForDecision d \<noteq> PENDING"
  "PENDING \<noteq> statusForDecision d"
  by (simp_all add: statusForDecision_def)

lemma mem_inv_empty: "mem_inv isUuid emptyStore"
  by (simp add: mem_inv_def emptyStore_def)

lemma mem_inv_insert:
  assumes inv: "mem_inv isUuid s" and u: "isUuid k" and fresh: "k \<notin> set (map fst (requests s))"
    and r: "rid r = k" "trustLevel r = L4 \<longrightarrow> \<not> autoApproveEligible r"
  shows "mem_inv isUuid (s\<lparr>requests := map_set k r (requests s)\<rparr>)"
proof -
  have none: "map_of (requests s) k = None" using fresh by (simp add: map_of_None_iff)
  have nd: "map_of (decisions s) k = None"
  proof (cases "map_of (decisions s) k")
    case (Some d)
    with inv have "\<exists>r. map_of (requests s) k = Some r" unfolding mem_inv_def by blast
    with none show ?thesis by simp
  qed simp
  show ?thesis
    using inv u r none nd
    unfolding mem_inv_def
    by (simp add: map_of_map_set distinct_map_set del: map_of_eq_Some_iff)
qed

lemma mem_inv_update:
  assumes inv: "mem_inv isUuid s" and g: "map_of (requests s) k = Some r"
    and r': "rid r' = rid r" "trustLevel r' = trustLevel r"
      "autoApproveEligible r' = autoApproveEligible r" "status r' = status r"
  shows "mem_inv isUuid (s\<lparr>requests := map_set k r' (requests s)\<rparr>)"
  using inv g r' unfolding mem_inv_def
  by (simp add: map_of_map_set distinct_map_set del: map_of_eq_Some_iff) (metis option.inject)

lemma mem_inv_decide:
  assumes inv: "mem_inv isUuid s" and g: "map_of (requests s) k = Some r"
    and p: "status r = PENDING"
    and d: "approvalRequestId d = k"
  shows "mem_inv isUuid
           (s\<lparr>requests := map_set k (r\<lparr>status := statusForDecision (decision d)\<rparr>) (requests s),
              decisions := map_set k d (decisions s)\<rparr>)"
  using inv g p d unfolding mem_inv_def
  by (simp add: map_of_map_set distinct_map_set del: map_of_eq_Some_iff)


lemma mem_createRequest_cases:
  "mem_createRequest isUuid s inp now created newId = (Inl InvalidInput, s)
   \<or> (\<exists>r. mem_createRequest isUuid s inp now created newId
              = (Inr r, s\<lparr>requests := map_set newId r (requests s)\<rparr>)
          \<and> rid r = newId \<and> status r = PENDING \<and> trustLevel r = in_trustLevel inp
          \<and> (autoApproveEligible r \<longleftrightarrow>
               isAutoApproveEligible (in_trustLevel inp) (in_actionType inp)
                 (in_workflowName inp) (in_reviewerVerdict inp)))"
proof (cases "parseCreateApprovalRequest isUuid inp")
  case None
  then show ?thesis by (simp add: mem_createRequest_def)
next
  case (Some v)
  from mem_createRequest_valid[OF Some] show ?thesis by blast
qed

lemma mem_inv_createRequest:
  assumes "mem_inv isUuid s" "isUuid newId" "newId \<notin> set (map fst (requests s))"
  shows "mem_inv isUuid (snd (mem_createRequest isUuid s inp now created newId))"
proof -
  from mem_createRequest_cases[of isUuid s inp now created newId]
  consider "mem_createRequest isUuid s inp now created newId = (Inl InvalidInput, s)"
    | r where "mem_createRequest isUuid s inp now created newId
              = (Inr r, s\<lparr>requests := map_set newId r (requests s)\<rparr>)"
        "rid r = newId" "autoApproveEligible r \<longleftrightarrow>
               isAutoApproveEligible (in_trustLevel inp) (in_actionType inp)
                 (in_workflowName inp) (in_reviewerVerdict inp)" "trustLevel r = in_trustLevel inp"
    by blast
  then show ?thesis
  proof cases
    case 1
    then show ?thesis using assms by simp
  next
    case 2
    have "trustLevel r = L4 \<longrightarrow> \<not> autoApproveEligible r"
      using 2 by (simp add: isAutoApproveEligible_def)
    from mem_inv_insert[OF assms 2(2) this] 2(1) show ?thesis by simp
  qed
qed

lemma newDecision_sel [simp]:
  "approvalRequestId (newDecision v created newId) = di_approvalRequestId v"
  "decision (newDecision v created newId) = di_decision v"
  "decidedBy (newDecision v created newId) = di_decidedBy v"
  by (simp_all add: newDecision_def)

lemma mem_createDecision_snd:
  "snd (mem_createDecision isUuid s inp now created newId) = s
   \<or> (\<exists>r. map_of (requests s) (di_approvalRequestId inp) = Some r \<and> status r = PENDING
          \<and> snd (mem_createDecision isUuid s inp now created newId)
              = s\<lparr>requests := map_set (di_approvalRequestId inp)
                                (r\<lparr>status := statusForDecision (decision (newDecision inp created newId))\<rparr>)
                                (requests s),
                  decisions := map_set (di_approvalRequestId inp) (newDecision inp created newId)
                                 (decisions s)\<rparr>)"
  by (auto simp: mem_createDecision_def parseCreateDecision_def mem_getRequest_def Let_def
      split: option.splits if_splits)

lemma mem_inv_createDecision:
  assumes "mem_inv isUuid s"
  shows "mem_inv isUuid (snd (mem_createDecision isUuid s inp now created newId))"
proof -
  from mem_createDecision_snd[of isUuid s inp now created newId]
  consider "snd (mem_createDecision isUuid s inp now created newId) = s"
    | r where "map_of (requests s) (di_approvalRequestId inp) = Some r" "status r = PENDING"
       "snd (mem_createDecision isUuid s inp now created newId)
              = s\<lparr>requests := map_set (di_approvalRequestId inp)
                                (r\<lparr>status := statusForDecision (decision (newDecision inp created newId))\<rparr>)
                                (requests s),
                  decisions := map_set (di_approvalRequestId inp) (newDecision inp created newId)
                                 (decisions s)\<rparr>"
    by blast
  then show ?thesis
  proof cases
    case 1
    then show ?thesis using assms by simp
  next
    case 2
    have "approvalRequestId (newDecision inp created newId) = di_approvalRequestId inp" by simp
    from mem_inv_decide[OF assms 2(1) 2(2) this] 2(3) show ?thesis by simp
  qed
qed

lemma mem_autoApprove_snd:
  "snd (mem_autoApprove isUuid s i reason now now2 created newId) = s
   \<or> (\<exists>r. map_of (requests s) i = Some r
          \<and> snd (mem_autoApprove isUuid s i reason now now2 created newId)
              = snd (mem_createDecision isUuid
                       (s\<lparr>requests := map_set i (r\<lparr>autoApproveReason := Some reason\<rparr>) (requests s)\<rparr>)
                       (autoApproveDecisionInput i reason) now2 created newId))"
  by (auto simp: mem_autoApprove_def mem_getRequest_def Let_def
      split: option.splits if_splits prod.splits sum.splits)

lemma mem_inv_autoApprove:
  assumes "mem_inv isUuid s"
  shows "mem_inv isUuid (snd (mem_autoApprove isUuid s i reason now now2 created newId))"
proof -
  from mem_autoApprove_snd[of isUuid s i reason now now2 created newId]
  consider "snd (mem_autoApprove isUuid s i reason now now2 created newId) = s"
    | r where "map_of (requests s) i = Some r"
        "snd (mem_autoApprove isUuid s i reason now now2 created newId)
              = snd (mem_createDecision isUuid
                       (s\<lparr>requests := map_set i (r\<lparr>autoApproveReason := Some reason\<rparr>) (requests s)\<rparr>)
                       (autoApproveDecisionInput i reason) now2 created newId)"
    by blast
  then show ?thesis
  proof cases
    case 1
    then show ?thesis using assms by simp
  next
    case 2
    have "mem_inv isUuid (s\<lparr>requests := map_set i (r\<lparr>autoApproveReason := Some reason\<rparr>) (requests s)\<rparr>)"
      by (rule mem_inv_update[OF assms 2(1)]) simp_all
    from mem_inv_createDecision[OF this] 2(2) show ?thesis by simp
  qed
qed

lemma map_of_map_values:
  "map_of (map (\<lambda>kv. if P (snd kv) then (fst kv, g (snd kv)) else kv) kvs) k
     = map_option (\<lambda>r. if P r then g r else r) (map_of kvs k)"
  by (induction kvs) auto

lemma map_fst_map_values:
  "map fst (map (\<lambda>kv. if P (snd kv) then (fst kv, g (snd kv)) else kv) kvs) = map fst kvs"
  by (induction kvs) auto

lemma mem_inv_expire:
  assumes "mem_inv isUuid s"
  shows "mem_inv isUuid (snd (mem_expireStaleRequests s now))"
proof -
  define rs where "rs = map (\<lambda>kv. if shouldExpire now (snd kv)
                                    then (fst kv, (snd kv)\<lparr>status := EXPIRED\<rparr>) else kv) (requests s)"
  have s': "snd (mem_expireStaleRequests s now) = s\<lparr>requests := rs\<rparr>"
    by (simp add: mem_expireStaleRequests_def rs_def)
  have m: "map_of rs k = map_option (\<lambda>r. if shouldExpire now r then r\<lparr>status := EXPIRED\<rparr> else r)
             (map_of (requests s) k)" for k
    unfolding rs_def by (rule map_of_map_values)
  have f: "map fst rs = map fst (requests s)"
    unfolding rs_def by (rule map_fst_map_values)
  from assms have d1: "distinct (map fst (requests s))" and d2: "distinct (map fst (decisions s))"
    and rq: "\<And>k r. map_of (requests s) k = Some r \<Longrightarrow>
               isUuid k \<and> rid r = k \<and> (trustLevel r = L4 \<longrightarrow> \<not> autoApproveEligible r)"
    and dc: "\<And>k d. map_of (decisions s) k = Some d \<Longrightarrow>
               approvalRequestId d = k
               \<and> (\<exists>r. map_of (requests s) k = Some r \<and> status r = statusForDecision (decision d))"
    unfolding mem_inv_def by blast+
  have B: "isUuid k \<and> rid r = k \<and> (trustLevel r = L4 \<longrightarrow> \<not> autoApproveEligible r)"
    if "map_of rs k = Some r" for k r
  proof -
    from that m[of k] obtain r0 where r0: "map_of (requests s) k = Some r0"
      "r = (if shouldExpire now r0 then r0\<lparr>status := EXPIRED\<rparr> else r0)"
      by (cases "map_of (requests s) k") auto
    from rq[OF r0(1)] r0(2) show ?thesis by auto
  qed
  have C: "approvalRequestId d = k
           \<and> (\<exists>r. map_of rs k = Some r \<and> status r = statusForDecision (decision d))"
    if "map_of (decisions s) k = Some d" for k d
  proof -
    from dc[OF that] obtain r0 where r0: "approvalRequestId d = k"
      "map_of (requests s) k = Some r0" "status r0 = statusForDecision (decision d)"
      by blast
    then have "\<not> shouldExpire now r0" by (simp add: shouldExpire_def)
    with m[of k] r0 have "map_of rs k = Some r0" by simp
    with r0 show ?thesis by blast
  qed
  have "mem_inv isUuid (s\<lparr>requests := rs\<rparr>)"
    unfolding mem_inv_def using d1 d2 B C by (simp add: f del: map_of_eq_Some_iff)
  with s' show ?thesis by simp
qed

lemma mem_reachable_inv: "mem_reachable isUuid s \<Longrightarrow> mem_inv isUuid s"
  by (induction rule: mem_reachable.induct)
     (simp_all add: mem_inv_empty mem_inv_createRequest mem_inv_createDecision
        mem_inv_autoApprove mem_inv_expire)

subsection \<open>The table invariant holds in every reachable database\<close>

lemma sb_inv_empty: "sb_inv isUuid emptyDatabase"
  by (simp add: sb_inv_def emptyDatabase_def)

lemma sb_createRequest_cases:
  "snd (sb_createRequest isUuid db fault inp now created newId) = db
   \<or> (\<exists>r. sb_createRequest isUuid db fault inp now created newId
              = (Inr r, db\<lparr>approval_requests := approval_requests db @ [r]\<rparr>)
          \<and> newId \<notin> set (map rid (approval_requests db))
          \<and> rid r = newId \<and> status r = PENDING \<and> trustLevel r = in_trustLevel inp
          \<and> (autoApproveEligible r \<longleftrightarrow>
               isAutoApproveEligible (in_trustLevel inp) (in_actionType inp)
                 (in_workflowName inp) (in_reviewerVerdict inp)))"
proof (cases "parseCreateApprovalRequest isUuid inp")
  case None
  then show ?thesis by (simp add: sb_createRequest_def)
next
  case (Some v)
  show ?thesis
  proof (cases "fault = None \<and> newId \<notin> set (map rid (approval_requests db))")
    case True
    with sb_createRequest_valid[OF Some, of newId db now created] show ?thesis by auto
  next
    case False
    then show ?thesis using Some
      by (auto simp: sb_createRequest_def Let_def split: option.splits)
  qed
qed

lemma sb_inv_createRequest:
  assumes "sb_inv isUuid db" "isUuid newId"
  shows "sb_inv isUuid (snd (sb_createRequest isUuid db fault inp now created newId))"
proof -
  from sb_createRequest_cases[of isUuid db fault inp now created newId]
  consider "snd (sb_createRequest isUuid db fault inp now created newId) = db"
    | r where "sb_createRequest isUuid db fault inp now created newId
              = (Inr r, db\<lparr>approval_requests := approval_requests db @ [r]\<rparr>)"
        "newId \<notin> set (map rid (approval_requests db))"
        "rid r = newId" "autoApproveEligible r \<longleftrightarrow>
               isAutoApproveEligible (in_trustLevel inp) (in_actionType inp)
                 (in_workflowName inp) (in_reviewerVerdict inp)" "trustLevel r = in_trustLevel inp"
    by blast
  then show ?thesis
  proof cases
    case 1
    then show ?thesis using assms by simp
  next
    case 2
    have "trustLevel r = L4 \<longrightarrow> \<not> autoApproveEligible r"
      using 2 by (simp add: isAutoApproveEligible_def)
    then have "sb_inv isUuid (db\<lparr>approval_requests := approval_requests db @ [r]\<rparr>)"
      using assms 2(2,3) unfolding sb_inv_def by auto
    with 2(1) show ?thesis by simp
  qed
qed

lemma sb_getRequest_Some:
  "sb_getRequest db fault i = Inr (Some r) \<Longrightarrow>
     fault = None \<and> filter (\<lambda>r. rid r = i) (approval_requests db) = [r]"
  by (auto simp: sb_getRequest_def split: option.splits list.splits)

lemma filter_singleton_mem:
  assumes "filter P xs = [x]"
  shows "x \<in> set xs \<and> P x"
proof -
  from assms have "x \<in> set (filter P xs)" by simp
  then show ?thesis by simp
qed

lemma sb_inv_map_rows:
  assumes inv: "sb_inv isUuid db"
    and g: "\<And>r. rid (g r) = rid r" "\<And>r. trustLevel (g r) = trustLevel r"
      "\<And>r. autoApproveEligible (g r) = autoApproveEligible r"
      "\<And>r. status r \<noteq> PENDING \<Longrightarrow> status (g r) = status r"
  shows "sb_inv isUuid (db\<lparr>approval_requests := map g (approval_requests db)\<rparr>)"
proof -
  have m: "map rid (map g (approval_requests db)) = map rid (approval_requests db)"
    by (simp add: g(1))
  have D: "\<exists>r \<in> set (map g (approval_requests db)).
             rid r = approvalRequestId d \<and> status r = statusForDecision (decision d)"
    if "d \<in> set (approval_decisions db)" for d
  proof -
    from inv that obtain r0 where r0: "r0 \<in> set (approval_requests db)"
      "rid r0 = approvalRequestId d" "status r0 = statusForDecision (decision d)"
      unfolding sb_inv_def by blast
    then have "status (g r0) = status r0" by (intro g(4)) simp
    with r0 g(1) show ?thesis by auto
  qed
  show ?thesis
    unfolding sb_inv_def using inv D
    by (simp add: sb_inv_def m g del: map_map) 
qed


lemma map_rid_map: "(\<And>r. rid (g r) = rid r) \<Longrightarrow> map rid (map g xs) = map rid xs"
  by (induction xs) auto

lemma sb_invI:
  assumes "distinct (map rid (approval_requests db))"
    and "distinct (map approvalRequestId (approval_decisions db))"
    and "\<And>r. r \<in> set (approval_requests db) \<Longrightarrow>
            isUuid (rid r) \<and> (trustLevel r = L4 \<longrightarrow> \<not> autoApproveEligible r)"
    and "\<And>d. d \<in> set (approval_decisions db) \<Longrightarrow>
            \<exists>r \<in> set (approval_requests db).
               rid r = approvalRequestId d \<and> status r = statusForDecision (decision d)"
  shows "sb_inv isUuid db"
  unfolding sb_inv_def using assms by simp

lemma parseCreateDecision_Some: "parseCreateDecision isUuid inp = Some v \<Longrightarrow> v = inp"
  by (simp add: parseCreateDecision_def split: if_splits)

lemma sb_createDecision_snd:
  "snd (sb_createDecision isUuid db f_get f_ins inp now created newId) = db
   \<or> (\<exists>r. sb_getRequest db f_get (di_approvalRequestId inp) = Inr (Some r)
          \<and> status r = PENDING \<and> \<not> expiresAt r < now
          \<and> di_approvalRequestId inp \<notin> set (map approvalRequestId (approval_decisions db))
          \<and> sb_createDecision isUuid db f_get f_ins inp now created newId
              = (Inr (newDecision inp created newId),
                 db\<lparr>approval_requests :=
                      map (\<lambda>r. if rid r = di_approvalRequestId inp
                                then r\<lparr>status := statusForDecision (di_decision inp)\<rparr> else r)
                          (approval_requests db),
                    approval_decisions := approval_decisions db @ [newDecision inp created newId]\<rparr>))"
proof (cases "parseCreateDecision isUuid inp")
  case None
  then show ?thesis by (simp add: sb_createDecision_def)
next
  case (Some v)
  then have v: "v = inp" by (rule parseCreateDecision_Some)
  show ?thesis
  proof (cases "sb_getRequest db f_get (di_approvalRequestId inp)")
    case (Inl e)
    with Some v show ?thesis by (simp add: sb_createDecision_def)
  next
    case (Inr ro)
    show ?thesis
    proof (cases ro)
      case None
      with Some v Inr show ?thesis by (simp add: sb_createDecision_def)
    next
      case (Some r)
      note r = this
      show ?thesis
      proof (cases "status r = PENDING \<and> \<not> expiresAt r < now \<and> f_ins = None
                    \<and> di_approvalRequestId inp \<notin> set (map approvalRequestId (approval_decisions db))")
        case True
        with \<open>parseCreateDecision isUuid inp = Some v\<close> v Inr r show ?thesis
          by (simp add: sb_createDecision_def Let_def)
      next
        case False
        with \<open>parseCreateDecision isUuid inp = Some v\<close> v Inr r show ?thesis
          by (cases f_ins) (auto simp: sb_createDecision_def Let_def)
      qed
    qed
  qed
qed

lemma sb_inv_createDecision:
  assumes inv: "sb_inv isUuid db"
  shows "sb_inv isUuid (snd (sb_createDecision isUuid db f_get f_ins inp now created newId))"
proof -
  let ?i = "di_approvalRequestId inp"
  let ?g = "\<lambda>r. if rid r = ?i then r\<lparr>status := statusForDecision (di_decision inp)\<rparr> else r"
  let ?db' = "db\<lparr>approval_requests := map ?g (approval_requests db),
                approval_decisions := approval_decisions db @ [newDecision inp created newId]\<rparr>"
  from sb_createDecision_snd[of isUuid db f_get f_ins inp now created newId]
  consider "snd (sb_createDecision isUuid db f_get f_ins inp now created newId) = db"
    | r where "sb_getRequest db f_get ?i = Inr (Some r)" "status r = PENDING"
        "?i \<notin> set (map approvalRequestId (approval_decisions db))"
        "sb_createDecision isUuid db f_get f_ins inp now created newId
           = (Inr (newDecision inp created newId), ?db')"
    by blast
  then show ?thesis
  proof cases
    case 1
    then show ?thesis using inv by simp
  next
    case 2
    from sb_getRequest_Some[OF 2(1)]
    have "filter (\<lambda>r. rid r = ?i) (approval_requests db) = [r]" by simp
    from filter_singleton_mem[OF this]
    have rin: "r \<in> set (approval_requests db)" "rid r = ?i" by simp_all
    have m: "map rid (map ?g (approval_requests db)) = map rid (approval_requests db)"
      by (rule map_rid_map) simp
    have "sb_inv isUuid ?db'"
    proof (rule sb_invI)
      show "distinct (map rid (approval_requests ?db'))"
        using inv m by (simp add: sb_inv_def del: map_map)
      show "distinct (map approvalRequestId (approval_decisions ?db'))"
        using inv 2(3) by (simp add: sb_inv_def)
      show "isUuid (rid x) \<and> (trustLevel x = L4 \<longrightarrow> \<not> autoApproveEligible x)"
        if "x \<in> set (approval_requests ?db')" for x
        using that inv unfolding sb_inv_def by auto
      show "\<exists>x \<in> set (approval_requests ?db').
             rid x = approvalRequestId d \<and> status x = statusForDecision (decision d)"
        if d: "d \<in> set (approval_decisions ?db')" for d
      proof (cases "d = newDecision inp created newId")
        case True
        have "?g r \<in> set (approval_requests ?db')" using rin(1) by simp
        moreover have "rid (?g r) = approvalRequestId d"
          "status (?g r) = statusForDecision (decision d)"
          using rin(2) True by simp_all
        ultimately show ?thesis by blast
      next
        case False
        with d have din: "d \<in> set (approval_decisions db)" by simp
        with inv obtain r0 where r0: "r0 \<in> set (approval_requests db)"
          "rid r0 = approvalRequestId d" "status r0 = statusForDecision (decision d)"
          unfolding sb_inv_def by blast
        have "approvalRequestId d \<in> set (map approvalRequestId (approval_decisions db))"
          using din by simp
        with 2(3) have "approvalRequestId d \<noteq> ?i" by auto
        with r0 have "?g r0 = r0" by simp
        moreover have "?g r0 \<in> set (approval_requests ?db')" using r0(1) by simp
        ultimately have "r0 \<in> set (approval_requests ?db')" by simp
        with r0(2,3) show ?thesis by blast
      qed
    qed
    with 2(4) show ?thesis by simp
  qed
qed

lemma sb_autoApprove_snd:
  "snd (sb_autoApprove isUuid db f_get f_upd f_get2 f_ins i reason now now2 created newId) = db
   \<or> snd (sb_autoApprove isUuid db f_get f_upd f_get2 f_ins i reason now now2 created newId)
        = snd (sb_createDecision isUuid db f_get2 f_ins (autoApproveDecisionInput i reason)
                 now2 created newId)
   \<or> snd (sb_autoApprove isUuid db f_get f_upd f_get2 f_ins i reason now now2 created newId)
        = snd (sb_createDecision isUuid
                 (db\<lparr>approval_requests :=
                       map (\<lambda>r. if rid r = i then r\<lparr>autoApproveReason := Some reason\<rparr> else r)
                           (approval_requests db)\<rparr>)
                 f_get2 f_ins (autoApproveDecisionInput i reason) now2 created newId)"
proof (cases "sb_getRequest db f_get i")
  case (Inl e)
  then show ?thesis by (simp add: sb_autoApprove_def)
next
  case (Inr ro)
  show ?thesis
  proof (cases ro)
    case None
    with Inr show ?thesis by (simp add: sb_autoApprove_def)
  next
    case (Some r)
    show ?thesis
    proof (cases "trustLevel r \<noteq> L4 \<and> status r = PENDING \<and> autoApproveEligible r
                  \<and> reviewerVerdict r = Some PASS \<and> \<not> expiresAt r < now")
      case False
      with Inr Some show ?thesis by (auto simp: sb_autoApprove_def)
    next
      case True
      with Inr Some show ?thesis
        by (cases f_upd) (simp_all add: sb_autoApprove_def Let_def split: prod.splits sum.splits)
    qed
  qed
qed

lemma sb_inv_autoApprove:
  assumes inv: "sb_inv isUuid db"
  shows "sb_inv isUuid
           (snd (sb_autoApprove isUuid db f_get f_upd f_get2 f_ins i reason now now2 created newId))"
proof -
  let ?db1 = "db\<lparr>approval_requests :=
                       map (\<lambda>r. if rid r = i then r\<lparr>autoApproveReason := Some reason\<rparr> else r)
                           (approval_requests db)\<rparr>"
  let ?res = "snd (sb_autoApprove isUuid db f_get f_upd f_get2 f_ins i reason now now2 created newId)"
  have inv1: "sb_inv isUuid ?db1"
    by (rule sb_inv_map_rows[OF inv]) simp_all
  from sb_autoApprove_snd[of isUuid db f_get f_upd f_get2 f_ins i reason now now2 created newId]
  consider (a) "?res = db"
    | (b) "?res = snd (sb_createDecision isUuid db f_get2 f_ins (autoApproveDecisionInput i reason)
                 now2 created newId)"
    | (c) "?res = snd (sb_createDecision isUuid ?db1 f_get2 f_ins (autoApproveDecisionInput i reason)
                 now2 created newId)"
    by blast
  then show ?thesis
  proof cases
    case a
    then show ?thesis using inv by simp
  next
    case b
    then show ?thesis using sb_inv_createDecision[OF inv] by simp
  next
    case c
    then show ?thesis using sb_inv_createDecision[OF inv1] by simp
  qed
qed

lemma sb_inv_expire:
  assumes inv: "sb_inv isUuid db"
  shows "sb_inv isUuid (snd (sb_expireStaleRequests db fault now))"
proof (cases fault)
  case (Some m)
  then show ?thesis using inv by (simp add: sb_expireStaleRequests_def)
next
  case None
  have "sb_inv isUuid (db\<lparr>approval_requests :=
          map (\<lambda>r. if shouldExpire now r then r\<lparr>status := EXPIRED\<rparr> else r) (approval_requests db)\<rparr>)"
    by (rule sb_inv_map_rows[OF inv]) (simp_all add: shouldExpire_def)
  with None show ?thesis by (simp add: sb_expireStaleRequests_def)
qed

lemma sb_reachable_inv: "sb_reachable isUuid db \<Longrightarrow> sb_inv isUuid db"
  by (induction rule: sb_reachable.induct)
     (simp_all add: sb_inv_empty sb_inv_createRequest sb_inv_createDecision
        sb_inv_autoApprove sb_inv_expire)

subsection \<open>L4 requests are never auto-approvable\<close>

lemma mem_inv_L4:
  assumes "mem_inv isUuid s" "r \<in> set (map snd (requests s))" "trustLevel r = L4"
  shows "\<not> autoApproveEligible r"
proof -
  from assms(2) obtain k where "(k, r) \<in> set (requests s)" by auto
  moreover from assms(1) have "distinct (map fst (requests s))" by (simp add: mem_inv_def)
  ultimately have "map_of (requests s) k = Some r" by (rule map_of_is_SomeI[rotated])
  with assms(1,3) show ?thesis unfolding mem_inv_def by blast
qed

lemma sb_inv_L4:
  assumes "sb_inv isUuid db" "r \<in> set (approval_requests db)" "trustLevel r = L4"
  shows "\<not> autoApproveEligible r"
  using assms unfolding sb_inv_def by blast

lemma mem_createRequest_L4:
  assumes "in_trustLevel inp = L4"
    and "mem_createRequest isUuid s inp now created newId = (Inr r, s')"
  shows "\<not> autoApproveEligible r \<and> mem_getRequest s' newId = Some r"
  using mem_createRequest_cases[of isUuid s inp now created newId] assms
  by (auto simp: isAutoApproveEligible_def mem_getRequest_def map_of_map_set)

lemma sb_createRequest_Inr:
  assumes "sb_createRequest isUuid db fault inp now created newId = (Inr r, db')"
  shows "db' = db\<lparr>approval_requests := approval_requests db @ [r]\<rparr>
         \<and> newId \<notin> set (map rid (approval_requests db))
         \<and> rid r = newId \<and> status r = PENDING \<and> trustLevel r = in_trustLevel inp
         \<and> (autoApproveEligible r \<longleftrightarrow>
               isAutoApproveEligible (in_trustLevel inp) (in_actionType inp)
                 (in_workflowName inp) (in_reviewerVerdict inp))"
proof (cases "parseCreateApprovalRequest isUuid inp")
  case None
  with assms show ?thesis by (simp add: sb_createRequest_def)
next
  case (Some v)
  show ?thesis
  proof (cases "fault = None \<and> newId \<notin> set (map rid (approval_requests db))")
    case True
    with sb_createRequest_valid[OF Some, of newId db now created] assms show ?thesis by auto
  next
    case False
    with Some assms show ?thesis
      by (auto simp: sb_createRequest_def Let_def split: option.splits)
  qed
qed

lemma sb_createRequest_L4:
  assumes "in_trustLevel inp = L4"
    and "sb_createRequest isUuid db fault inp now created newId = (Inr r, db')"
  shows "\<not> autoApproveEligible r \<and> sb_getRequest db' None newId = Inr (Some r)"
proof -
  from sb_createRequest_Inr[OF assms(2)]
  have *: "db' = db\<lparr>approval_requests := approval_requests db @ [r]\<rparr>"
    "newId \<notin> set (map rid (approval_requests db))" "rid r = newId"
    "autoApproveEligible r \<longleftrightarrow>
               isAutoApproveEligible (in_trustLevel inp) (in_actionType inp)
                 (in_workflowName inp) (in_reviewerVerdict inp)"
    by blast+
  have "sb_getRequest db' None newId = Inr (Some r)"
    using filter_rid_fresh[OF *(2,3)] *(1) by (simp add: sb_getRequest_def)
  with * assms(1) show ?thesis by (simp add: isAutoApproveEligible_def)
qed

lemma mem_autoApprove_L4:
  "mem_getRequest s i = Some r \<Longrightarrow> trustLevel r = L4
   \<Longrightarrow> mem_autoApprove isUuid s i reason now now2 created newId = (Inr None, s)"
  by (simp add: mem_autoApprove_def)

lemma sb_autoApprove_L4:
  "sb_getRequest db None i = Inr (Some r) \<Longrightarrow> trustLevel r = L4
   \<Longrightarrow> sb_autoApprove isUuid db None f_upd f_get2 f_ins i reason now now2 created newId
        = (Inr None, db)"
  by (simp add: sb_autoApprove_def)

text \<open>
  C1. In every reachable state of either store, every stored request of trust level L4
  has its auto-approve-eligible flag false. \<^verbatim>\<open>createRequest\<close> stores the flag false
  whenever the input's trust level is L4, and \<^verbatim>\<open>autoApprove\<close> on an L4 request
  returns \<^verbatim>\<open>null\<close> and leaves the store as it was (no decision, no change to the
  request).
\<close>

theorem C1_L4_never_auto_approve_eligible:
  assumes "mem_reachable isUuid s" and "sb_reachable isUuid db"
  shows "(\<forall>r \<in> set (map snd (requests s)). trustLevel r = L4 \<longrightarrow> \<not> autoApproveEligible r)
     \<and> (\<forall>r \<in> set (approval_requests db). trustLevel r = L4 \<longrightarrow> \<not> autoApproveEligible r)
     \<and> (\<forall>inp now created newId r s'.
           in_trustLevel inp = L4
           \<and> mem_createRequest isUuid s inp now created newId = (Inr r, s')
           \<longrightarrow> \<not> autoApproveEligible r \<and> mem_getRequest s' newId = Some r)
     \<and> (\<forall>fault inp now created newId r db'.
           in_trustLevel inp = L4
           \<and> sb_createRequest isUuid db fault inp now created newId = (Inr r, db')
           \<longrightarrow> \<not> autoApproveEligible r \<and> sb_getRequest db' None newId = Inr (Some r))
     \<and> (\<forall>i r reason now now2 created newId.
           mem_getRequest s i = Some r \<and> trustLevel r = L4
           \<longrightarrow> mem_autoApprove isUuid s i reason now now2 created newId = (Inr None, s))
     \<and> (\<forall>i r f_upd f_get2 f_ins reason now now2 created newId.
           sb_getRequest db None i = Inr (Some r) \<and> trustLevel r = L4
           \<longrightarrow> sb_autoApprove isUuid db None f_upd f_get2 f_ins i reason now now2 created newId
                = (Inr None, db))"
proof (intro conjI)
  show "\<forall>r \<in> set (map snd (requests s)). trustLevel r = L4 \<longrightarrow> \<not> autoApproveEligible r"
    using mem_inv_L4[OF mem_reachable_inv[OF assms(1)]] by blast
  show "\<forall>r \<in> set (approval_requests db). trustLevel r = L4 \<longrightarrow> \<not> autoApproveEligible r"
    using sb_inv_L4[OF sb_reachable_inv[OF assms(2)]] by blast
  show "\<forall>inp now created newId r s'.
           in_trustLevel inp = L4
           \<and> mem_createRequest isUuid s inp now created newId = (Inr r, s')
           \<longrightarrow> \<not> autoApproveEligible r \<and> mem_getRequest s' newId = Some r"
    using mem_createRequest_L4 by blast
  show "\<forall>fault inp now created newId r db'.
           in_trustLevel inp = L4
           \<and> sb_createRequest isUuid db fault inp now created newId = (Inr r, db')
           \<longrightarrow> \<not> autoApproveEligible r \<and> sb_getRequest db' None newId = Inr (Some r)"
    using sb_createRequest_L4 by blast
  show "\<forall>i r reason now now2 created newId.
           mem_getRequest s i = Some r \<and> trustLevel r = L4
           \<longrightarrow> mem_autoApprove isUuid s i reason now now2 created newId = (Inr None, s)"
    using mem_autoApprove_L4 by blast
  show "\<forall>i r f_upd f_get2 f_ins reason now now2 created newId.
           sb_getRequest db None i = Inr (Some r) \<and> trustLevel r = L4
           \<longrightarrow> sb_autoApprove isUuid db None f_upd f_get2 f_ins i reason now now2 created newId
                = (Inr None, db)"
    using sb_autoApprove_L4 by blast
qed

lemma sampleStore_requests:
  "\<exists>r. requests (sampleStore lvl) = [(id1, r)] \<and> decisions (sampleStore lvl) = []
       \<and> rid r = id1 \<and> trustLevel r = lvl \<and> status r = PENDING
       \<and> expiresAt r = 1000 + (if lvl = L4 then 86400 else 3600) * 1000
       \<and> reviewerVerdict r = Some PASS \<and> (autoApproveEligible r \<longleftrightarrow> lvl = L3)
       \<and> actionType r = ''COMMIT_POST_ALERT'' \<and> runId r = run1"
  using uuidShape_samples
  by (simp add: sampleStore_def mem_createRequest_def parseCreateApprovalRequest_def
      sampleInput_def Let_def mem_isAutoApproveEligible_def emptyStore_def)

lemma sampleDb_requests:
  "\<exists>r. approval_requests (sampleDb lvl) = [r] \<and> approval_decisions (sampleDb lvl) = []
       \<and> rid r = id1 \<and> trustLevel r = lvl \<and> status r = PENDING
       \<and> expiresAt r = 1000 + (if lvl = L4 then 86400 else 3600) * 1000
       \<and> reviewerVerdict r = Some PASS \<and> (autoApproveEligible r \<longleftrightarrow> lvl = L3)
       \<and> actionType r = ''COMMIT_POST_ALERT'' \<and> runId r = run1"
  using uuidShape_samples
  by (cases lvl) (simp_all add: sampleDb_def sb_createRequest_def parseCreateApprovalRequest_def
      sampleInput_def Let_def isAutoApproveEligible_def emptyDatabase_def
      AUTO_APPROVE_DENY_LIST_def AUTO_APPROVE_ALLOW_LIST_def)

lemma sampleStore_reachable: "mem_reachable uuidShape (sampleStore lvl)"
  unfolding sampleStore_def
  by (rule mr_createRequest[OF mr_init]) (simp_all add: uuidShape_samples emptyStore_def)

lemma sampleDb_reachable: "sb_reachable uuidShape (sampleDb lvl)"
  unfolding sampleDb_def
  by (rule sr_createRequest[OF sr_init]) (simp_all add: uuidShape_samples)

theorem C1_L4_never_auto_approve_eligible_witness:
  "mem_reachable uuidShape (sampleStore L4) \<and> sb_reachable uuidShape (sampleDb L4)
   \<and> map (\<lambda>kv. (trustLevel (snd kv), autoApproveEligible (snd kv))) (requests (sampleStore L4))
       = [(L4, False)]
   \<and> map (\<lambda>r. (trustLevel r, autoApproveEligible r)) (approval_requests (sampleDb L4))
       = [(L4, False)]
   \<and> mem_autoApprove uuidShape (sampleStore L4) id1 ''retry'' 2000 2000 2000 id2
       = (Inr None, sampleStore L4)
   \<and> sb_autoApprove uuidShape (sampleDb L4) None None None None id1 ''retry'' 2000 2000 2000 id2
       = (Inr None, sampleDb L4)"
proof -
  note T = C1_L4_never_auto_approve_eligible[OF sampleStore_reachable[of L4]
             sampleDb_reachable[of L4]]
  from sampleStore_requests[of L4] obtain r where
    r: "requests (sampleStore L4) = [(id1, r)]" "trustLevel r = L4" by blast
  from sampleDb_requests[of L4] obtain q where
    q: "approval_requests (sampleDb L4) = [q]" "trustLevel q = L4" "rid q = id1" by blast
  have gr: "mem_getRequest (sampleStore L4) id1 = Some r"
    using r by (simp add: mem_getRequest_def)
  have gq: "sb_getRequest (sampleDb L4) None id1 = Inr (Some q)"
    using q by (simp add: sb_getRequest_def)
  from T r have "\<not> autoApproveEligible r" by simp
  moreover from T q have "\<not> autoApproveEligible q" by simp
  moreover from T gr r(2)
  have "mem_autoApprove uuidShape (sampleStore L4) id1 ''retry'' 2000 2000 2000 id2
          = (Inr None, sampleStore L4)" by blast
  moreover from T gq q(2)
  have "sb_autoApprove uuidShape (sampleDb L4) None None None None id1 ''retry'' 2000 2000 2000 id2
          = (Inr None, sampleDb L4)" by blast
  ultimately show ?thesis
    using r q sampleStore_reachable[of L4] sampleDb_reachable[of L4] by simp
qed

subsection \<open>Decisions and auto-approval in the in-memory store\<close>

lemma mem_autoApprove_missing:
  "mem_getRequest s i = None
   \<Longrightarrow> mem_autoApprove isUuid s i reason now now2 created newId = (Inl (AutoApproveNotFound i), s)"
  by (simp add: mem_autoApprove_def)

lemma mem_autoApprove_gate_fails:
  "mem_getRequest s i = Some r \<Longrightarrow> \<not> autoApproveGates r now
   \<Longrightarrow> mem_autoApprove isUuid s i reason now now2 created newId = (Inr None, s)"
  by (auto simp: mem_autoApprove_def autoApproveGates_def)

lemma mem_inv_pending_undecided:
  assumes "mem_inv isUuid s" "map_of (requests s) i = Some r" "status r = PENDING"
  shows "map_of (decisions s) i = None"
proof (cases "map_of (decisions s) i")
  case (Some d)
  with assms(1) obtain r' where "map_of (requests s) i = Some r'"
    "status r' = statusForDecision (decision d)" unfolding mem_inv_def by blast
  with assms(2,3) show ?thesis by simp
qed simp

lemma autoApproveDecisionInput_sel [simp]:
  "di_approvalRequestId (autoApproveDecisionInput i reason) = i"
  "di_decidedBy (autoApproveDecisionInput i reason) = ''system:auto-approve''"
  "di_decision (autoApproveDecisionInput i reason) = APPROVE"
  by (simp_all add: autoApproveDecisionInput_def)

lemma mem_autoApprove_gates_pass:
  assumes inv: "mem_inv isUuid s" and g: "mem_getRequest s i = Some r"
    and gates: "autoApproveGates r now"
  shows "mem_autoApprove isUuid s i reason now now2 created newId =
     (if expiresAt r < now2
      then (Inl RequestExpired,
            s\<lparr>requests := map_set i (r\<lparr>autoApproveReason := Some reason\<rparr>) (requests s)\<rparr>)
      else (Inr (Some (newDecision (autoApproveDecisionInput i reason) created newId)),
            s\<lparr>requests := map_set i (r\<lparr>autoApproveReason := Some reason, status := APPROVED\<rparr>)
                             (requests s),
              decisions := map_set i (newDecision (autoApproveDecisionInput i reason) created newId)
                             (decisions s)\<rparr>))"
proof -
  from g have m: "map_of (requests s) i = Some r" by (simp add: mem_getRequest_def)
  from inv m have u: "isUuid i" unfolding mem_inv_def by blast
  from gates have p: "status r = PENDING" by (simp add: autoApproveGates_def)
  from mem_inv_pending_undecided[OF inv m p] have nd: "map_of (decisions s) i = None" .
  have ms: "map_set i a (map_set i b kvs) = map_set i a kvs" for a b :: ApprovalRequest and kvs
    by (induction kvs) auto
  show ?thesis
    using g gates u nd
    by (simp add: mem_autoApprove_def autoApproveGates_def mem_createDecision_def
        parseCreateDecision_def mem_getRequest_def map_of_map_set Let_def ms
        statusForDecision_def)
qed

lemma mem_createDecision_Inr:
  assumes "mem_createDecision isUuid s inp now created newId = (Inr d, s')"
  shows "\<exists>r. mem_getRequest s (di_approvalRequestId inp) = Some r \<and> status r = PENDING
           \<and> \<not> expiresAt r < now
           \<and> d = newDecision inp created newId
           \<and> mem_getRequest s' (di_approvalRequestId inp)
               = Some (r\<lparr>status := statusForDecision (di_decision inp)\<rparr>)
           \<and> mem_getDecision s' (di_approvalRequestId inp) = Some d"
proof (cases "parseCreateDecision isUuid inp")
  case None
  with assms show ?thesis by (simp add: mem_createDecision_def)
next
  case (Some v)
  then have v: "v = inp" by (rule parseCreateDecision_Some)
  show ?thesis
  proof (cases "mem_getRequest s (di_approvalRequestId inp)")
    case None
    with Some v assms show ?thesis by (simp add: mem_createDecision_def)
  next
    case (Some r)
    with \<open>parseCreateDecision isUuid inp = Some v\<close> v assms show ?thesis
      by (auto simp: mem_createDecision_def mem_getRequest_def mem_getDecision_def
          map_of_map_set Let_def split: if_splits)
  qed
qed

lemma mem_createDecision_fail_unchanged:
  "fst (mem_createDecision isUuid s inp now created newId) = Inl e
   \<Longrightarrow> snd (mem_createDecision isUuid s inp now created newId) = s"
  by (auto simp: mem_createDecision_def Let_def split: option.splits if_splits)

lemma mem_createDecision_decided:
  assumes inv: "mem_inv isUuid s"
    and d0: "mem_getDecision s (di_approvalRequestId inp) = Some d0"
    and valid: "parseCreateDecision isUuid inp \<noteq> None"
  shows "mem_createDecision isUuid s inp now created newId
           = (Inl (NotPendingStatus (statusForDecision (decision d0))), s)"
proof -
  from valid obtain v where v: "parseCreateDecision isUuid inp = Some v" by auto
  then have vi: "v = inp" by (rule parseCreateDecision_Some)
  from inv d0 obtain r where r: "map_of (requests s) (di_approvalRequestId inp) = Some r"
    "status r = statusForDecision (decision d0)"
    unfolding mem_inv_def mem_getDecision_def by blast
  then show ?thesis using v vi
    by (simp add: mem_createDecision_def mem_getRequest_def)
qed

lemma distinct_key_filter_le1:
  "distinct (map f xs) \<Longrightarrow> length (filter (\<lambda>x. f x = i) xs) \<le> 1"
  by (induction xs) (auto simp: filter_empty_conv intro: rev_image_eqI)

lemma mem_inv_one_decision:
  assumes inv: "mem_inv isUuid s"
  shows "length (filter (\<lambda>d. approvalRequestId d = i) (map snd (decisions s))) \<le> 1"
proof -
  from inv have dist: "distinct (map fst (decisions s))"
    and key: "\<And>k d. map_of (decisions s) k = Some d \<Longrightarrow> approvalRequestId d = k"
    unfolding mem_inv_def by blast+
  have "approvalRequestId (snd kv) = fst kv" if "kv \<in> set (decisions s)" for kv
  proof -
    from that have "(fst kv, snd kv) \<in> set (decisions s)" by simp
    from map_of_is_SomeI[OF dist this] key show ?thesis by blast
  qed
  then have eq: "map (\<lambda>kv. approvalRequestId (snd kv)) (decisions s) = map fst (decisions s)"
    by (simp add: map_eq_conv)
  have "distinct (map (\<lambda>kv. approvalRequestId (snd kv)) (decisions s))"
    unfolding eq by (rule dist)
  from distinct_key_filter_le1[OF this, of i]
  show ?thesis by (simp add: filter_map comp_def)
qed

lemma mem_decision_kept_createDecision:
  assumes inv: "mem_inv isUuid s" and d0: "mem_getDecision s i = Some d0"
  shows "mem_getDecision (snd (mem_createDecision isUuid s inp now created newId)) i = Some d0"
proof -
  from mem_createDecision_snd[of isUuid s inp now created newId]
  consider "snd (mem_createDecision isUuid s inp now created newId) = s"
    | r where "map_of (requests s) (di_approvalRequestId inp) = Some r" "status r = PENDING"
       "snd (mem_createDecision isUuid s inp now created newId)
              = s\<lparr>requests := map_set (di_approvalRequestId inp)
                                (r\<lparr>status := statusForDecision (decision (newDecision inp created newId))\<rparr>)
                                (requests s),
                  decisions := map_set (di_approvalRequestId inp) (newDecision inp created newId)
                                 (decisions s)\<rparr>"
    by blast
  then show ?thesis
  proof cases
    case 1
    with d0 show ?thesis by simp
  next
    case 2
    from mem_inv_pending_undecided[OF inv 2(1,2)] d0
    have "di_approvalRequestId inp \<noteq> i" by (auto simp: mem_getDecision_def)
    with 2(3) d0 show ?thesis by (simp add: mem_getDecision_def map_of_map_set)
  qed
qed


lemma mem_decision_kept_autoApprove:
  assumes inv: "mem_inv isUuid s" and d0: "mem_getDecision s i = Some d0"
  shows "mem_getDecision (snd (mem_autoApprove isUuid s j reason now now2 created newId)) i
           = Some d0"
proof -
  from mem_autoApprove_snd[of isUuid s j reason now now2 created newId]
  consider "snd (mem_autoApprove isUuid s j reason now now2 created newId) = s"
    | r where "map_of (requests s) j = Some r"
        "snd (mem_autoApprove isUuid s j reason now now2 created newId)
              = snd (mem_createDecision isUuid
                       (s\<lparr>requests := map_set j (r\<lparr>autoApproveReason := Some reason\<rparr>) (requests s)\<rparr>)
                       (autoApproveDecisionInput j reason) now2 created newId)"
    by blast
  then show ?thesis
  proof cases
    case 1
    with d0 show ?thesis by simp
  next
    case 2
    let ?s1 = "s\<lparr>requests := map_set j (r\<lparr>autoApproveReason := Some reason\<rparr>) (requests s)\<rparr>"
    have i1: "mem_inv isUuid ?s1" by (rule mem_inv_update[OF inv 2(1)]) simp_all
    have "mem_getDecision ?s1 i = Some d0" using d0 by (simp add: mem_getDecision_def)
    from mem_decision_kept_createDecision[OF i1 this] 2(2) show ?thesis by simp
  qed
qed

lemma mem_decision_kept_other:
  assumes "mem_getDecision s i = Some d0"
  shows "mem_getDecision (snd (mem_createRequest isUuid s inp now created newId)) i = Some d0"
    and "mem_getDecision (snd (mem_expireStaleRequests s now)) i = Some d0"
  using assms mem_createRequest_cases[of isUuid s inp now created newId]
  by (auto simp: mem_getDecision_def mem_expireStaleRequests_def)

lemma mem_autoApprove_total:
  assumes inv: "mem_inv isUuid s"
  shows "mem_autoApprove isUuid s i reason now now2 created newId =
     (case mem_getRequest s i of
        None \<Rightarrow> (Inl (AutoApproveNotFound i), s)
      | Some r \<Rightarrow>
          if \<not> autoApproveGates r now then (Inr None, s)
          else if expiresAt r < now2
            then (Inl RequestExpired,
                  s\<lparr>requests := map_set i (r\<lparr>autoApproveReason := Some reason\<rparr>) (requests s)\<rparr>)
          else (Inr (Some (newDecision (autoApproveDecisionInput i reason) created newId)),
                s\<lparr>requests := map_set i (r\<lparr>autoApproveReason := Some reason, status := APPROVED\<rparr>)
                                 (requests s),
                  decisions := map_set i (newDecision (autoApproveDecisionInput i reason) created newId)
                                 (decisions s)\<rparr>))"
proof (cases "mem_getRequest s i")
  case None
  then show ?thesis by (simp add: mem_autoApprove_missing)
next
  case (Some r)
  show ?thesis
  proof (cases "autoApproveGates r now")
    case False
    with Some show ?thesis by (simp add: mem_autoApprove_gate_fails)
  next
    case True
    with Some mem_autoApprove_gates_pass[OF inv Some True] show ?thesis by simp
  qed
qed

subsection \<open>Decisions and auto-approval in the Supabase store\<close>

lemma filter_map_rid:
  "(\<And>r. rid (g r) = rid r) \<Longrightarrow>
     filter (\<lambda>r. rid r = i) (map g rows) = map g (filter (\<lambda>r. rid r = i) rows)"
  by (induction rows) auto

lemma sb_getRequest_None_fault:
  "sb_getRequest db None i = Inr (Some r) \<longleftrightarrow> filter (\<lambda>r. rid r = i) (approval_requests db) = [r]"
  by (auto simp: sb_getRequest_def split: list.splits)

lemma sb_getRequest_map:
  assumes "sb_getRequest db None i = Inr (Some r)" "\<And>r. rid (g r) = rid r"
  shows "sb_getRequest (db\<lparr>approval_requests := map g (approval_requests db)\<rparr>) None i
           = Inr (Some (g r))"
  using assms(1) filter_map_rid[of g i "approval_requests db", OF assms(2)]
  by (simp add: sb_getRequest_None_fault)

lemma sb_inv_pending_undecided:
  assumes inv: "sb_inv isUuid db" and g: "sb_getRequest db None i = Inr (Some r)"
    and p: "status r = PENDING"
  shows "i \<notin> set (map approvalRequestId (approval_decisions db))"
proof
  assume "i \<in> set (map approvalRequestId (approval_decisions db))"
  then obtain d where d: "d \<in> set (approval_decisions db)" "approvalRequestId d = i" by auto
  with inv obtain r' where r': "r' \<in> set (approval_requests db)" "rid r' = i"
    "status r' = statusForDecision (decision d)" unfolding sb_inv_def by blast
  then have "r' \<in> set (filter (\<lambda>r. rid r = i) (approval_requests db))" by simp
  with g have "r' = r" by (simp add: sb_getRequest_None_fault)
  with r'(3) p show False by simp
qed

lemma sb_inv_decided_request:
  assumes inv: "sb_inv isUuid db" and d: "d \<in> set (approval_decisions db)"
  shows "\<exists>r. sb_getRequest db None (approvalRequestId d) = Inr (Some r)
            \<and> status r = statusForDecision (decision d)"
proof -
  from inv d obtain r where r: "r \<in> set (approval_requests db)" "rid r = approvalRequestId d"
    "status r = statusForDecision (decision d)" unfolding sb_inv_def by blast
  from inv have dist: "distinct (map rid (approval_requests db))" by (simp add: sb_inv_def)
  have "filter (\<lambda>x. rid x = rid r) xs = [r]" if "distinct (map rid xs)" "r \<in> set xs" for xs
    using that by (induction xs) (auto simp: filter_empty_conv intro: rev_image_eqI)
  from this[OF dist r(1)] r(2,3) show ?thesis by (simp add: sb_getRequest_None_fault)
qed

lemma sb_createDecision_success:
  assumes g: "sb_getRequest db None (di_approvalRequestId inp) = Inr (Some r)"
    and v: "parseCreateDecision isUuid inp \<noteq> None"
    and p: "status r = PENDING"
    and nd: "di_approvalRequestId inp \<notin> set (map approvalRequestId (approval_decisions db))"
  shows "fst (sb_createDecision isUuid db None f_ins inp now created newId)
     = (if expiresAt r < now then Inl RequestExpired
        else case f_ins of Some m \<Rightarrow> Inl (StorageFailure m)
             | None \<Rightarrow> Inr (newDecision inp created newId))"
proof -
  from v obtain w where w: "parseCreateDecision isUuid inp = Some w" by auto
  then have "w = inp" by (rule parseCreateDecision_Some)
  with w g p nd show ?thesis
    by (cases f_ins) (simp_all add: sb_createDecision_def Let_def)
qed

lemma sb_createDecision_get_fault:
  "parseCreateDecision isUuid inp \<noteq> None \<Longrightarrow>
   sb_createDecision isUuid db (Some m) f_ins inp now created newId = (Inl (StorageFailure m), db)"
  by (auto simp: sb_createDecision_def sb_getRequest_def)

lemma sb_autoApprove_get_fault:
  "sb_autoApprove isUuid db (Some m) f_upd f_get2 f_ins i reason now now2 created newId
     = (Inl (StorageFailure m), db)"
  by (simp add: sb_autoApprove_def sb_getRequest_def)

lemma sb_autoApprove_missing:
  "sb_getRequest db None i = Inr None \<Longrightarrow>
   sb_autoApprove isUuid db None f_upd f_get2 f_ins i reason now now2 created newId
     = (Inl (AutoApproveNotFound i), db)"
  by (simp add: sb_autoApprove_def)

lemma sb_autoApprove_gate_fails:
  "sb_getRequest db None i = Inr (Some r) \<Longrightarrow> \<not> autoApproveGates r now \<Longrightarrow>
   sb_autoApprove isUuid db None f_upd f_get2 f_ins i reason now now2 created newId
     = (Inr None, db)"
  by (auto simp: sb_autoApprove_def autoApproveGates_def)

lemma sb_autoApprove_gates_pass:
  assumes inv: "sb_inv isUuid db" and g: "sb_getRequest db None i = Inr (Some r)"
    and gates: "autoApproveGates r now"
  shows "fst (sb_autoApprove isUuid db None f_upd f_get2 f_ins i reason now now2 created newId)
     = (case f_get2 of
          Some m \<Rightarrow> Inl (StorageFailure m)
        | None \<Rightarrow>
            if expiresAt r < now2 then Inl RequestExpired
            else (case f_ins of
                    Some m \<Rightarrow> Inl (StorageFailure m)
                  | None \<Rightarrow> Inr (Some (newDecision (autoApproveDecisionInput i reason) created newId))))"
proof -
  let ?g = "\<lambda>r. if rid r = i then r\<lparr>autoApproveReason := Some reason\<rparr> else r"
  let ?inp = "autoApproveDecisionInput i reason"
  define db1 where "db1 = (case f_upd of Some msg \<Rightarrow> db
                           | None \<Rightarrow> db\<lparr>approval_requests := map ?g (approval_requests db)\<rparr>)"
  from gates have p: "status r = PENDING" by (simp add: autoApproveGates_def)
  from g have rin: "r \<in> set (approval_requests db)" "rid r = i"
    using filter_singleton_mem[of "\<lambda>r. rid r = i" "approval_requests db" r]
    by (simp_all add: sb_getRequest_None_fault)
  from inv rin have u: "isUuid i" unfolding sb_inv_def by blast
  then have v: "parseCreateDecision isUuid ?inp \<noteq> None"
    by (simp add: parseCreateDecision_def)
  have dec1: "approval_decisions db1 = approval_decisions db"
    by (cases f_upd) (simp_all add: db1_def)
  from sb_inv_pending_undecided[OF inv g p]
  have nd: "di_approvalRequestId ?inp \<notin> set (map approvalRequestId (approval_decisions db1))"
    by (simp add: dec1)
  obtain r1 where r1: "sb_getRequest db1 None (di_approvalRequestId ?inp) = Inr (Some r1)"
    "status r1 = PENDING" "expiresAt r1 = expiresAt r"
  proof (cases f_upd)
    case None
    from sb_getRequest_map[OF g, of ?g] have
      "sb_getRequest db1 None i = Inr (Some (?g r))" by (simp add: db1_def None)
    with that[of "?g r"] p show ?thesis by simp
  next
    case (Some m)
    with that[of r] g p show ?thesis by (simp add: db1_def)
  qed
  have step: "sb_autoApprove isUuid db None f_upd f_get2 f_ins i reason now now2 created newId
     = (case sb_createDecision isUuid db1 f_get2 f_ins ?inp now2 created newId of
          (Inl e, db2) \<Rightarrow> (Inl e, db2)
        | (Inr d, db2) \<Rightarrow> (Inr (Some d), db2))"
    using g gates by (simp add: sb_autoApprove_def autoApproveGates_def db1_def Let_def)
  show ?thesis
  proof (cases f_get2)
    case (Some m)
    with step sb_createDecision_get_fault[OF v, of db1 m] show ?thesis by simp
  next
    case None
    from sb_createDecision_success[OF r1(1) v r1(2) nd, of f_ins now2 created newId] r1(3)
    have "fst (sb_createDecision isUuid db1 None f_ins ?inp now2 created newId)
      = (if expiresAt r < now2 then Inl RequestExpired
        else case f_ins of Some m \<Rightarrow> Inl (StorageFailure m)
             | None \<Rightarrow> Inr (newDecision ?inp created newId))" by simp
    with step None show ?thesis
      by (cases "sb_createDecision isUuid db1 None f_ins ?inp now2 created newId")
         (auto split: sum.splits option.splits if_splits)
  qed
qed

subsection \<open>The outcomes of auto-approval\<close>

text \<open>
  C4, as the code has it. On a request that exists, \<^verbatim>\<open>autoApprove\<close> returns
  \<^verbatim>\<open>null\<close> when one of its gates fails (trust level L4, status not PENDING, not
  eligible, reviewer verdict not PASS, expired at its clock reading), and otherwise an
  APPROVE decision with decided-by \<^verbatim>\<open>system:auto-approve\<close>, provided the request is
  still unexpired at the clock reading of the \<^verbatim>\<open>createDecision\<close> it calls. A request
  that does not exist is not a \<^verbatim>\<open>null\<close> result: it raises the exception
  \<^verbatim>\<open>FAIL CLOSED: Approval request not found\<close>. The only other exceptions are the
  expiry between the two clock readings and, in the Supabase store, a reported storage
  fault of the two reads or of the insert.
\<close>

theorem C4_autoApprove_outcomes:
  assumes "mem_reachable isUuid s" and "sb_reachable isUuid db"
  shows
   "(mem_getRequest s i = None \<longrightarrow>
       mem_autoApprove isUuid s i reason now now2 created newId
         = (Inl (AutoApproveNotFound i), s))
    \<and> (\<forall>r. mem_getRequest s i = Some r \<longrightarrow>
          fst (mem_autoApprove isUuid s i reason now now2 created newId)
            = (if \<not> autoApproveGates r now then Inr None
               else if expiresAt r < now2 then Inl RequestExpired
               else Inr (Some (newDecision (autoApproveDecisionInput i reason) created newId))))
    \<and> ((\<exists>d. fst (mem_autoApprove isUuid s i reason now now2 created newId) = Inr (Some d))
         \<longleftrightarrow> (\<exists>r. mem_getRequest s i = Some r \<and> autoApproveGates r now
                  \<and> \<not> expiresAt r < now2))
    \<and> decidedBy (newDecision (autoApproveDecisionInput i reason) created newId)
         = ''system:auto-approve''
    \<and> decision (newDecision (autoApproveDecisionInput i reason) created newId) = APPROVE
    \<and> (\<forall>m. sb_autoApprove isUuid db (Some m) f_upd f_get2 f_ins i reason now now2 created newId
              = (Inl (StorageFailure m), db))
    \<and> (sb_getRequest db None i = Inr None \<longrightarrow>
         sb_autoApprove isUuid db None f_upd f_get2 f_ins i reason now now2 created newId
           = (Inl (AutoApproveNotFound i), db))
    \<and> (\<forall>r. sb_getRequest db None i = Inr (Some r) \<longrightarrow>
          fst (sb_autoApprove isUuid db None f_upd f_get2 f_ins i reason now now2 created newId)
            = (if \<not> autoApproveGates r now then Inr None
               else case f_get2 of
                      Some m \<Rightarrow> Inl (StorageFailure m)
                    | None \<Rightarrow>
                        if expiresAt r < now2 then Inl RequestExpired
                        else (case f_ins of
                                Some m \<Rightarrow> Inl (StorageFailure m)
                              | None \<Rightarrow> Inr (Some (newDecision (autoApproveDecisionInput i reason)
                                                     created newId)))))"
proof -
  note mi = mem_reachable_inv[OF assms(1)] and si = sb_reachable_inv[OF assms(2)]
  note tot = mem_autoApprove_total[OF mi, of i reason now now2 created newId]
  have A: "mem_getRequest s i = None \<longrightarrow>
       mem_autoApprove isUuid s i reason now now2 created newId
         = (Inl (AutoApproveNotFound i), s)"
    by (simp add: mem_autoApprove_missing)
  have B: "\<forall>r. mem_getRequest s i = Some r \<longrightarrow>
          fst (mem_autoApprove isUuid s i reason now now2 created newId)
            = (if \<not> autoApproveGates r now then Inr None
               else if expiresAt r < now2 then Inl RequestExpired
               else Inr (Some (newDecision (autoApproveDecisionInput i reason) created newId)))"
    using tot by simp
  have C: "(\<exists>d. fst (mem_autoApprove isUuid s i reason now now2 created newId) = Inr (Some d))
         \<longleftrightarrow> (\<exists>r. mem_getRequest s i = Some r \<and> autoApproveGates r now
                  \<and> \<not> expiresAt r < now2)"
  proof (cases "mem_getRequest s i")
    case None
    with A show ?thesis by simp
  next
    case (Some r)
    with B show ?thesis by simp
  qed
  have D: "decidedBy (newDecision (autoApproveDecisionInput i reason) created newId)
         = ''system:auto-approve''
    \<and> decision (newDecision (autoApproveDecisionInput i reason) created newId) = APPROVE"
    by simp
  have E: "\<forall>m. sb_autoApprove isUuid db (Some m) f_upd f_get2 f_ins i reason now now2 created newId
              = (Inl (StorageFailure m), db)"
    by (simp add: sb_autoApprove_get_fault)
  have F: "sb_getRequest db None i = Inr None \<longrightarrow>
         sb_autoApprove isUuid db None f_upd f_get2 f_ins i reason now now2 created newId
           = (Inl (AutoApproveNotFound i), db)"
    by (simp add: sb_autoApprove_missing)
  have G: "\<forall>r. sb_getRequest db None i = Inr (Some r) \<longrightarrow>
          fst (sb_autoApprove isUuid db None f_upd f_get2 f_ins i reason now now2 created newId)
            = (if \<not> autoApproveGates r now then Inr None
               else case f_get2 of
                      Some m \<Rightarrow> Inl (StorageFailure m)
                    | None \<Rightarrow>
                        if expiresAt r < now2 then Inl RequestExpired
                        else (case f_ins of
                                Some m \<Rightarrow> Inl (StorageFailure m)
                              | None \<Rightarrow> Inr (Some (newDecision (autoApproveDecisionInput i reason)
                                                     created newId))))"
  proof (intro allI impI)
    fix r assume g: "sb_getRequest db None i = Inr (Some r)"
    show "fst (sb_autoApprove isUuid db None f_upd f_get2 f_ins i reason now now2 created newId)
            = (if \<not> autoApproveGates r now then Inr None
               else case f_get2 of
                      Some m \<Rightarrow> Inl (StorageFailure m)
                    | None \<Rightarrow>
                        if expiresAt r < now2 then Inl RequestExpired
                        else (case f_ins of
                                Some m \<Rightarrow> Inl (StorageFailure m)
                              | None \<Rightarrow> Inr (Some (newDecision (autoApproveDecisionInput i reason)
                                                     created newId))))"
    proof (cases "autoApproveGates r now")
      case True
      with sb_autoApprove_gates_pass[OF si g True] show ?thesis by simp
    next
      case False
      with sb_autoApprove_gate_fails[OF g False] show ?thesis by simp
    qed
  qed
  from A B C D E F G show ?thesis by blast
qed

lemma sample_gates:
  "\<exists>r. mem_getRequest (sampleStore L3) id1 = Some r \<and> autoApproveGates r 2000
       \<and> \<not> expiresAt r < 2500"
  using sampleStore_requests[of L3]
  by (auto simp: mem_getRequest_def autoApproveGates_def)

lemma sample_gates_db:
  "\<exists>r. sb_getRequest (sampleDb L3) None id1 = Inr (Some r) \<and> autoApproveGates r 2000
       \<and> \<not> expiresAt r < 2500"
  using sampleDb_requests[of L3]
  by (auto simp: sb_getRequest_def autoApproveGates_def)

theorem C4_autoApprove_outcomes_witness:
  "mem_reachable uuidShape (sampleStore L3) \<and> sb_reachable uuidShape (sampleDb L3)
   \<and> fst (mem_autoApprove uuidShape (sampleStore L3) id1 ''reviewer PASS'' 2000 2500 2500 id2)
       = Inr (Some (newDecision (autoApproveDecisionInput id1 ''reviewer PASS'') 2500 id2))
   \<and> fst (sb_autoApprove uuidShape (sampleDb L3) None None None None id1 ''reviewer PASS''
            2000 2500 2500 id2)
       = Inr (Some (newDecision (autoApproveDecisionInput id1 ''reviewer PASS'') 2500 id2))
   \<and> mem_autoApprove uuidShape (sampleStore L3) id3 ''reviewer PASS'' 2000 2500 2500 id2
       = (Inl (AutoApproveNotFound id3), sampleStore L3)"
proof -
  note T = C4_autoApprove_outcomes[OF sampleStore_reachable[of L3] sampleDb_reachable[of L3],
             of _ "''reviewer PASS''" 2000 2500 2500 id2 None None None]
  from sample_gates obtain r where r: "mem_getRequest (sampleStore L3) id1 = Some r"
    "autoApproveGates r 2000" "\<not> expiresAt r < 2500" by blast
  from sample_gates_db obtain q where q: "sb_getRequest (sampleDb L3) None id1 = Inr (Some q)"
    "autoApproveGates q 2000" "\<not> expiresAt q < 2500" by blast
  have n: "mem_getRequest (sampleStore L3) id3 = None"
    using sampleStore_requests[of L3] by (auto simp: mem_getRequest_def id1_def id3_def)
  from T[of id1] r
  have 1: "fst (mem_autoApprove uuidShape (sampleStore L3) id1 ''reviewer PASS'' 2000 2500 2500 id2)
       = Inr (Some (newDecision (autoApproveDecisionInput id1 ''reviewer PASS'') 2500 id2))"
    by simp
  from T[of id1] q
  have 2: "fst (sb_autoApprove uuidShape (sampleDb L3) None None None None id1 ''reviewer PASS''
            2000 2500 2500 id2)
       = Inr (Some (newDecision (autoApproveDecisionInput id1 ''reviewer PASS'') 2500 id2))"
    by simp
  from T[of id3] n
  have 3: "mem_autoApprove uuidShape (sampleStore L3) id3 ''reviewer PASS'' 2000 2500 2500 id2
       = (Inl (AutoApproveNotFound id3), sampleStore L3)" by simp
  from 1 2 3 sampleStore_reachable[of L3] sampleDb_reachable[of L3] show ?thesis by simp
qed

theorem C4_counterexample:
  "fst (mem_autoApprove uuidShape emptyStore id1 ''reason'' 0 0 0 id2)
     = Inl (AutoApproveNotFound id1)
   \<and> fst (sb_autoApprove uuidShape emptyDatabase None None None None id1 ''reason'' 0 0 0 id2)
     = Inl (AutoApproveNotFound id1)
   \<and> fst (mem_autoApprove uuidShape emptyStore id1 ''reason'' 0 0 0 id2) \<noteq> Inr None"
  by (simp add: mem_autoApprove_def sb_autoApprove_def mem_getRequest_def sb_getRequest_def
      emptyStore_def emptyDatabase_def)

subsection \<open>Creating decisions\<close>

lemma sb_getDecision_None_fault:
  "sb_getDecision db None i = Inr (Some d)
     \<longleftrightarrow> filter (\<lambda>d. approvalRequestId d = i) (approval_decisions db) = [d]"
  by (auto simp: sb_getDecision_def split: list.splits)

lemma filter_append_fresh:
  "i \<notin> set (map f xs) \<Longrightarrow> f x = i \<Longrightarrow> filter (\<lambda>y. f y = i) (xs @ [x]) = [x]"
  by (induction xs) auto

lemma sb_createDecision_Inr:
  assumes res: "sb_createDecision isUuid db f_get f_ins inp now created newId = (Inr d, db')"
  shows "\<exists>r. sb_getRequest db None (di_approvalRequestId inp) = Inr (Some r)
           \<and> status r = PENDING \<and> \<not> expiresAt r < now
           \<and> d = newDecision inp created newId
           \<and> sb_getRequest db' None (di_approvalRequestId inp)
               = Inr (Some (r\<lparr>status := statusForDecision (di_decision inp)\<rparr>))
           \<and> sb_getDecision db' None (di_approvalRequestId inp) = Inr (Some d)"
proof -
  let ?i = "di_approvalRequestId inp"
  let ?g = "\<lambda>r. if rid r = ?i then r\<lparr>status := statusForDecision (di_decision inp)\<rparr> else r"
  from sb_createDecision_snd[of isUuid db f_get f_ins inp now created newId]
  consider "snd (sb_createDecision isUuid db f_get f_ins inp now created newId) = db"
    | r where "sb_getRequest db f_get ?i = Inr (Some r)" "status r = PENDING"
        "\<not> expiresAt r < now"
        "?i \<notin> set (map approvalRequestId (approval_decisions db))"
        "sb_createDecision isUuid db f_get f_ins inp now created newId
           = (Inr (newDecision inp created newId),
              db\<lparr>approval_requests := map ?g (approval_requests db),
                 approval_decisions := approval_decisions db @ [newDecision inp created newId]\<rparr>)"
    by blast
  then show ?thesis
  proof cases
    case 1
    with res have eq: "db' = db" by simp
    show ?thesis
    proof (cases "parseCreateDecision isUuid inp")
      case None
      with res show ?thesis by (simp add: sb_createDecision_def)
    next
      case (Some v)
      then have v: "v = inp" by (rule parseCreateDecision_Some)
      have False
      proof (cases "sb_getRequest db f_get ?i")
        case (Inl e)
        with Some v res show ?thesis by (simp add: sb_createDecision_def)
      next
        case (Inr ro)
        show ?thesis
        proof (cases ro)
          case None
          with Some v Inr res show ?thesis by (simp add: sb_createDecision_def)
        next
          case (Some r)
          with \<open>parseCreateDecision isUuid inp = Some v\<close> v Inr res eq show ?thesis
            by (cases f_ins)
               (auto simp: sb_createDecision_def Let_def split: if_splits
                  dest: arg_cong[where f = approval_decisions])
        qed
      qed
      then show ?thesis ..
    qed
  next
    case 2
    from sb_getRequest_Some[OF 2(1)] have fg: "f_get = None" by simp
    with 2(1) have g: "sb_getRequest db None ?i = Inr (Some r)" by simp
    from 2(5) res have d: "d = newDecision inp created newId"
      and db': "db' = db\<lparr>approval_requests := map ?g (approval_requests db),
                 approval_decisions := approval_decisions db @ [newDecision inp created newId]\<rparr>"
      by simp_all
    from g have rr: "rid r = ?i"
      using filter_singleton_mem[of "\<lambda>r. rid r = ?i" "approval_requests db" r]
      by (simp add: sb_getRequest_None_fault)
    from sb_getRequest_map[OF g, of ?g]
    have "sb_getRequest (db\<lparr>approval_requests := map ?g (approval_requests db)\<rparr>) None ?i
            = Inr (Some (?g r))" by simp
    then have g': "sb_getRequest db' None ?i
            = Inr (Some (r\<lparr>status := statusForDecision (di_decision inp)\<rparr>))"
      using rr by (simp add: db' sb_getRequest_def)
    have "sb_getDecision db' None ?i = Inr (Some d)"
      using filter_append_fresh[OF 2(4), of "newDecision inp created newId"]
      by (simp add: sb_getDecision_None_fault db' d)
    with g 2(2,3) d g' show ?thesis by blast
  qed
qed

lemma sb_createDecision_fail_unchanged:
  assumes "fst (sb_createDecision isUuid db f_get f_ins inp now created newId) = Inl e"
  shows "snd (sb_createDecision isUuid db f_get f_ins inp now created newId) = db"
  using sb_createDecision_snd[of isUuid db f_get f_ins inp now created newId] assms
  by auto

lemma sb_createDecision_decided:
  assumes inv: "sb_inv isUuid db" and d0: "d0 \<in> set (approval_decisions db)"
    and i: "approvalRequestId d0 = di_approvalRequestId inp"
    and valid: "parseCreateDecision isUuid inp \<noteq> None"
  shows "sb_createDecision isUuid db None f_ins inp now created newId
           = (Inl (NotPendingStatus (statusForDecision (decision d0))), db)"
proof -
  from valid obtain v where v: "parseCreateDecision isUuid inp = Some v" by auto
  then have vi: "v = inp" by (rule parseCreateDecision_Some)
  from sb_inv_decided_request[OF inv d0] i obtain r where
    "sb_getRequest db None (di_approvalRequestId inp) = Inr (Some r)"
    "status r = statusForDecision (decision d0)" by auto
  then show ?thesis using v vi by (simp add: sb_createDecision_def)
qed

lemma sb_inv_one_decision:
  "sb_inv isUuid db \<Longrightarrow>
     length (filter (\<lambda>d. approvalRequestId d = j) (approval_decisions db)) \<le> 1"
  by (rule distinct_key_filter_le1) (simp add: sb_inv_def)

lemma sb_decision_kept_createDecision:
  assumes "d0 \<in> set (approval_decisions db)"
  shows "d0 \<in> set (approval_decisions
                     (snd (sb_createDecision isUuid db f_get f_ins inp now created newId)))"
  using sb_createDecision_snd[of isUuid db f_get f_ins inp now created newId] assms
  by auto

subsection \<open>One decision for each request\<close>

text \<open>
  C7. \<^verbatim>\<open>createDecision\<close> succeeds only on a request that exists, is PENDING and is not
  expired; its success stores the decision and moves the request to APPROVED (for
  APPROVE) or REJECTED (for REJECT). In every reachable state each request has at most
  one decision, and a recorded decision is never replaced. Every failed call leaves the
  store as it was. A further attempt on a request that already has a decision is
  rejected with the error that names the decided status (\<^verbatim>\<open>Cannot decide on request
  with status: APPROVED\<close> or \<^verbatim>\<open>REJECTED\<close>), which no other failure produces, and the
  request keeps its status.
\<close>

theorem C7_createDecision:
  assumes "mem_reachable isUuid s" and "sb_reachable isUuid db"
  shows
   "(\<forall>d s'. mem_createDecision isUuid s inp now created newId = (Inr d, s') \<longrightarrow>
       (\<exists>r. mem_getRequest s (di_approvalRequestId inp) = Some r \<and> status r = PENDING
             \<and> \<not> expiresAt r < now
             \<and> mem_getRequest s' (di_approvalRequestId inp)
                 = Some (r\<lparr>status := statusForDecision (di_decision inp)\<rparr>)
             \<and> mem_getDecision s' (di_approvalRequestId inp) = Some d
             \<and> decision d = di_decision inp))
    \<and> (\<forall>d db'. sb_createDecision isUuid db f_get f_ins inp now created newId = (Inr d, db') \<longrightarrow>
       (\<exists>r. sb_getRequest db None (di_approvalRequestId inp) = Inr (Some r) \<and> status r = PENDING
             \<and> \<not> expiresAt r < now
             \<and> sb_getRequest db' None (di_approvalRequestId inp)
                 = Inr (Some (r\<lparr>status := statusForDecision (di_decision inp)\<rparr>))
             \<and> sb_getDecision db' None (di_approvalRequestId inp) = Inr (Some d)
             \<and> decision d = di_decision inp))
    \<and> statusForDecision APPROVE = APPROVED \<and> statusForDecision REJECT = REJECTED
    \<and> (\<forall>j. length (filter (\<lambda>d. approvalRequestId d = j) (map snd (decisions s))) \<le> 1)
    \<and> (\<forall>j. length (filter (\<lambda>d. approvalRequestId d = j) (approval_decisions db)) \<le> 1)
    \<and> (\<forall>j d0. mem_getDecision s j = Some d0 \<longrightarrow>
          mem_getDecision (snd (mem_createDecision isUuid s inp now created newId)) j = Some d0)
    \<and> (\<forall>d0. d0 \<in> set (approval_decisions db) \<longrightarrow>
          d0 \<in> set (approval_decisions
                      (snd (sb_createDecision isUuid db f_get f_ins inp now created newId))))
    \<and> (\<forall>e. fst (mem_createDecision isUuid s inp now created newId) = Inl e \<longrightarrow>
          snd (mem_createDecision isUuid s inp now created newId) = s)
    \<and> (\<forall>e. fst (sb_createDecision isUuid db f_get f_ins inp now created newId) = Inl e \<longrightarrow>
          snd (sb_createDecision isUuid db f_get f_ins inp now created newId) = db)
    \<and> (\<forall>d0. mem_getDecision s (di_approvalRequestId inp) = Some d0
            \<and> parseCreateDecision isUuid inp \<noteq> None \<longrightarrow>
          mem_createDecision isUuid s inp now created newId
            = (Inl (NotPendingStatus (statusForDecision (decision d0))), s))
    \<and> (\<forall>d0. d0 \<in> set (approval_decisions db)
            \<and> approvalRequestId d0 = di_approvalRequestId inp
            \<and> parseCreateDecision isUuid inp \<noteq> None \<longrightarrow>
          sb_createDecision isUuid db None f_ins inp now created newId
            = (Inl (NotPendingStatus (statusForDecision (decision d0))), db))"
proof -
  note mi = mem_reachable_inv[OF assms(1)] and si = sb_reachable_inv[OF assms(2)]
  have A: "\<forall>d s'. mem_createDecision isUuid s inp now created newId = (Inr d, s') \<longrightarrow>
       (\<exists>r. mem_getRequest s (di_approvalRequestId inp) = Some r \<and> status r = PENDING
             \<and> \<not> expiresAt r < now
             \<and> mem_getRequest s' (di_approvalRequestId inp)
                 = Some (r\<lparr>status := statusForDecision (di_decision inp)\<rparr>)
             \<and> mem_getDecision s' (di_approvalRequestId inp) = Some d
             \<and> decision d = di_decision inp)"
  proof (intro allI impI)
    fix d s' assume "mem_createDecision isUuid s inp now created newId = (Inr d, s')"
    from mem_createDecision_Inr[OF this]
    show "\<exists>r. mem_getRequest s (di_approvalRequestId inp) = Some r \<and> status r = PENDING
             \<and> \<not> expiresAt r < now
             \<and> mem_getRequest s' (di_approvalRequestId inp)
                 = Some (r\<lparr>status := statusForDecision (di_decision inp)\<rparr>)
             \<and> mem_getDecision s' (di_approvalRequestId inp) = Some d
             \<and> decision d = di_decision inp"
      by auto
  qed
  have B: "\<forall>d db'. sb_createDecision isUuid db f_get f_ins inp now created newId = (Inr d, db') \<longrightarrow>
       (\<exists>r. sb_getRequest db None (di_approvalRequestId inp) = Inr (Some r) \<and> status r = PENDING
             \<and> \<not> expiresAt r < now
             \<and> sb_getRequest db' None (di_approvalRequestId inp)
                 = Inr (Some (r\<lparr>status := statusForDecision (di_decision inp)\<rparr>))
             \<and> sb_getDecision db' None (di_approvalRequestId inp) = Inr (Some d)
             \<and> decision d = di_decision inp)"
  proof (intro allI impI)
    fix d db' assume "sb_createDecision isUuid db f_get f_ins inp now created newId = (Inr d, db')"
    from sb_createDecision_Inr[OF this]
    show "\<exists>r. sb_getRequest db None (di_approvalRequestId inp) = Inr (Some r) \<and> status r = PENDING
             \<and> \<not> expiresAt r < now
             \<and> sb_getRequest db' None (di_approvalRequestId inp)
                 = Inr (Some (r\<lparr>status := statusForDecision (di_decision inp)\<rparr>))
             \<and> sb_getDecision db' None (di_approvalRequestId inp) = Inr (Some d)
             \<and> decision d = di_decision inp"
      by auto
  qed
  have C: "statusForDecision APPROVE = APPROVED \<and> statusForDecision REJECT = REJECTED"
    by (simp add: statusForDecision_def)
  have D: "\<forall>j. length (filter (\<lambda>d. approvalRequestId d = j) (map snd (decisions s))) \<le> 1"
    using mem_inv_one_decision[OF mi] by blast
  have E: "\<forall>j. length (filter (\<lambda>d. approvalRequestId d = j) (approval_decisions db)) \<le> 1"
    using sb_inv_one_decision[OF si] by blast
  have F: "\<forall>j d0. mem_getDecision s j = Some d0 \<longrightarrow>
          mem_getDecision (snd (mem_createDecision isUuid s inp now created newId)) j = Some d0"
    using mem_decision_kept_createDecision[OF mi] by blast
  have G: "\<forall>d0. d0 \<in> set (approval_decisions db) \<longrightarrow>
          d0 \<in> set (approval_decisions
                      (snd (sb_createDecision isUuid db f_get f_ins inp now created newId)))"
    using sb_decision_kept_createDecision by blast
  have H: "\<forall>e. fst (mem_createDecision isUuid s inp now created newId) = Inl e \<longrightarrow>
          snd (mem_createDecision isUuid s inp now created newId) = s"
    using mem_createDecision_fail_unchanged by blast
  have I: "\<forall>e. fst (sb_createDecision isUuid db f_get f_ins inp now created newId) = Inl e \<longrightarrow>
          snd (sb_createDecision isUuid db f_get f_ins inp now created newId) = db"
    using sb_createDecision_fail_unchanged by blast
  have J: "\<forall>d0. mem_getDecision s (di_approvalRequestId inp) = Some d0
            \<and> parseCreateDecision isUuid inp \<noteq> None \<longrightarrow>
          mem_createDecision isUuid s inp now created newId
            = (Inl (NotPendingStatus (statusForDecision (decision d0))), s)"
    using mem_createDecision_decided[OF mi] by blast
  have K: "\<forall>d0. d0 \<in> set (approval_decisions db)
            \<and> approvalRequestId d0 = di_approvalRequestId inp
            \<and> parseCreateDecision isUuid inp \<noteq> None \<longrightarrow>
          sb_createDecision isUuid db None f_ins inp now created newId
            = (Inl (NotPendingStatus (statusForDecision (decision d0))), db)"
    using sb_createDecision_decided[OF si] by blast
  show ?thesis
    apply (intro conjI)
    using A apply blast
    using B apply blast
    using C apply blast
    using C apply blast
    using D apply blast
    using E apply blast
    using F apply blast
    using G apply blast
    using H apply blast
    using I apply blast
    using J apply blast
    using K apply blast
    done
qed

lemma decidedStore_reachable: "mem_reachable uuidShape decidedStore"
  unfolding decidedStore_def by (rule mr_createDecision[OF sampleStore_reachable])

lemma decidedDb_reachable: "sb_reachable uuidShape decidedDb"
  unfolding decidedDb_def by (rule sr_createDecision[OF sampleDb_reachable])

lemma firstDecision_valid:
  "parseCreateDecision uuidShape firstDecision \<noteq> None"
  "parseCreateDecision uuidShape secondDecision \<noteq> None"
  using uuidShape_samples
  by (simp_all add: parseCreateDecision_def firstDecision_def secondDecision_def)

lemma decidedStore_contents:
  "\<exists>r d. requests decidedStore = [(id1, r)] \<and> decisions decidedStore = [(id1, d)]
         \<and> status r = APPROVED \<and> decision d = APPROVE \<and> decidedBy d = ''reviewer1''"
proof -
  from sampleStore_requests[of L3] obtain r where
    r: "requests (sampleStore L3) = [(id1, r)]" "decisions (sampleStore L3) = []"
       "status r = PENDING" "expiresAt r = 1000 + 3600 * 1000" by auto
  then show ?thesis
    using uuidShape_samples
    by (simp add: decidedStore_def mem_createDecision_def parseCreateDecision_def
        firstDecision_def mem_getRequest_def Let_def statusForDecision_def newDecision_def)
qed

lemma decidedDb_contents:
  "\<exists>r d. approval_requests decidedDb = [r] \<and> approval_decisions decidedDb = [d]
         \<and> rid r = id1 \<and> approvalRequestId d = id1
         \<and> status r = APPROVED \<and> decision d = APPROVE \<and> decidedBy d = ''reviewer1''"
proof -
  from sampleDb_requests[of L3] obtain r where
    r: "approval_requests (sampleDb L3) = [r]" "approval_decisions (sampleDb L3) = []"
       "rid r = id1" "status r = PENDING" "expiresAt r = 1000 + 3600 * 1000" by auto
  then show ?thesis
    using uuidShape_samples
    by (simp add: decidedDb_def sb_createDecision_def parseCreateDecision_def
        firstDecision_def sb_getRequest_def Let_def statusForDecision_def newDecision_def)
qed

theorem C7_createDecision_witness:
  "mem_reachable uuidShape decidedStore \<and> sb_reachable uuidShape decidedDb
   \<and> mem_createDecision uuidShape decidedStore secondDecision 2100 2100 id3
       = (Inl (NotPendingStatus APPROVED), decidedStore)
   \<and> sb_createDecision uuidShape decidedDb None None secondDecision 2100 2100 id3
       = (Inl (NotPendingStatus APPROVED), decidedDb)
   \<and> mem_isApproved decidedStore id1
   \<and> length (decisions decidedStore) = 1 \<and> length (approval_decisions decidedDb) = 1"
proof -
  note T = C7_createDecision[OF decidedStore_reachable decidedDb_reachable,
             where inp = secondDecision and f_get = None and f_ins = None
               and now = 2100 and created = 2100 and newId = id3]
  from decidedStore_contents obtain r d where
    c: "requests decidedStore = [(id1, r)]" "decisions decidedStore = [(id1, d)]"
       "status r = APPROVED" "decision d = APPROVE" by blast
  from decidedDb_contents obtain q e where
    k: "approval_requests decidedDb = [q]" "approval_decisions decidedDb = [e]"
       "approvalRequestId e = id1" "decision e = APPROVE" by blast
  have i: "di_approvalRequestId secondDecision = id1" by (simp add: secondDecision_def)
  have gd: "mem_getDecision decidedStore (di_approvalRequestId secondDecision) = Some d"
    using c by (simp add: mem_getDecision_def i)
  from T gd firstDecision_valid(2) c(4)
  have 1: "mem_createDecision uuidShape decidedStore secondDecision 2100 2100 id3
       = (Inl (NotPendingStatus APPROVED), decidedStore)"
    by (simp add: statusForDecision_def)
  have "e \<in> set (approval_decisions decidedDb)" using k by simp
  with T k(3,4) i firstDecision_valid(2)
  have 2: "sb_createDecision uuidShape decidedDb None None secondDecision 2100 2100 id3
       = (Inl (NotPendingStatus APPROVED), decidedDb)"
    by (simp add: statusForDecision_def)
  have 3: "mem_isApproved decidedStore id1"
    using c by (simp add: mem_isApproved_def mem_getRequest_def)
  from 1 2 3 c k decidedStore_reachable decidedDb_reachable show ?thesis by simp
qed

subsection \<open>Pending queries\<close>

lemma sortByCreatedDesc_props:
  "mset (sortByCreatedDesc rs) = mset rs"
  "set (sortByCreatedDesc rs) = set rs"
  "sorted_wrt (\<lambda>a b. createdAt a \<ge> createdAt b) (sortByCreatedDesc rs)"
proof -
  show "mset (sortByCreatedDesc rs) = mset rs" by (simp add: sortByCreatedDesc_def)
  show "set (sortByCreatedDesc rs) = set rs" by (simp add: sortByCreatedDesc_def)
  have "sorted (map (\<lambda>r. - createdAt r) (sortByCreatedDesc rs))"
    unfolding sortByCreatedDesc_def by (rule sorted_sort_key)
  then show "sorted_wrt (\<lambda>a b. createdAt a \<ge> createdAt b) (sortByCreatedDesc rs)"
    by (simp add: sorted_map)
qed

lemma applyLimit_props:
  "set (applyLimit options rs) \<subseteq> set rs"
  "sorted_wrt R rs \<Longrightarrow> sorted_wrt R (applyLimit options rs)"
  "applyLimit None rs = rs"
  by (auto simp: applyLimit_def sorted_wrt_take split: option.splits dest: in_set_takeD)

lemma applyPendingOptions_props:
  "set (applyPendingOptions options rs) \<subseteq> set rs"
  "applyPendingOptions None rs = rs"
  by (auto simp: applyPendingOptions_def Let_def split: option.splits)

lemma mem_getPendingRequests_None:
  "mem_getPendingRequests s None now
     = sortByCreatedDesc (filter (\<lambda>r. status r = PENDING \<and> expiresAt r > now)
                            (map snd (requests s)))"
  by (simp add: mem_getPendingRequests_def applyLimit_props applyPendingOptions_props Let_def)

lemma mem_getPendingRequests_sound:
  assumes "r \<in> set (mem_getPendingRequests s options now)"
  shows "status r = PENDING \<and> now < expiresAt r \<and> r \<in> set (map snd (requests s))"
proof -
  let ?P = "filter (\<lambda>r. status r = PENDING \<and> expiresAt r > now) (map snd (requests s))"
  from assms have "r \<in> set (sortByCreatedDesc (applyPendingOptions options ?P))"
    using applyLimit_props(1) by (fastforce simp: mem_getPendingRequests_def Let_def)
  then have "r \<in> set (applyPendingOptions options ?P)"
    by (simp add: sortByCreatedDesc_props)
  with applyPendingOptions_props(1) have "r \<in> set ?P" by blast
  then show ?thesis by auto
qed

lemma mem_getPendingRequests_sorted:
  "sorted_wrt (\<lambda>a b. createdAt a \<ge> createdAt b) (mem_getPendingRequests s options now)"
  by (simp add: mem_getPendingRequests_def Let_def applyLimit_props sortByCreatedDesc_props)

lemma sb_getPendingRequests_eq:
  "sb_getPendingRequests db None options now
     = Inr (mem_getPendingRequests
              \<lparr>requests = map (\<lambda>r. (rid r, r)) (approval_requests db), decisions = []\<rparr>
              options now)"
  by (simp add: sb_getPendingRequests_def mem_getPendingRequests_def Let_def comp_def)

text \<open>
  C9. Without options, \<^verbatim>\<open>getPendingRequests\<close> returns exactly the stored requests
  with status PENDING and expiry strictly after the current time (each once), ordered
  by creation time descending; with options the result is a part of those, in the same
  order. A stored PENDING request with expiry \<open>t\<close> is returned when \<open>now < t\<close>
  and not returned when \<open>now \<ge> t\<close>, whether or not the sweep has run. Both stores.
\<close>

theorem C9_getPendingRequests:
  "mset (mem_getPendingRequests s None now)
     = mset (filter (\<lambda>r. status r = PENDING \<and> expiresAt r > now) (map snd (requests s)))
   \<and> sorted_wrt (\<lambda>a b. createdAt a \<ge> createdAt b) (mem_getPendingRequests s options now)
   \<and> (\<forall>r \<in> set (mem_getPendingRequests s options now).
         status r = PENDING \<and> now < expiresAt r \<and> r \<in> set (map snd (requests s)))
   \<and> (\<forall>r \<in> set (map snd (requests s)).
         status r = PENDING \<longrightarrow>
           (r \<in> set (mem_getPendingRequests s None now) \<longleftrightarrow> now < expiresAt r))
   \<and> (\<exists>rs. sb_getPendingRequests db None None now = Inr rs
         \<and> mset rs = mset (filter (\<lambda>r. status r = PENDING \<and> expiresAt r > now)
                             (approval_requests db))
         \<and> sorted_wrt (\<lambda>a b. createdAt a \<ge> createdAt b) rs
         \<and> (\<forall>r \<in> set (approval_requests db).
               status r = PENDING \<longrightarrow> (r \<in> set rs \<longleftrightarrow> now < expiresAt r)))
   \<and> (\<exists>rs. sb_getPendingRequests db None options now = Inr rs
         \<and> sorted_wrt (\<lambda>a b. createdAt a \<ge> createdAt b) rs
         \<and> (\<forall>r \<in> set rs. status r = PENDING \<and> now < expiresAt r
                            \<and> r \<in> set (approval_requests db)))"
proof -
  let ?db = "\<lparr>requests = map (\<lambda>r. (rid r, r)) (approval_requests db), decisions = []\<rparr>"
  have m: "map snd (requests ?db) = approval_requests db" by (simp add: comp_def)
  have A: "mset (mem_getPendingRequests s None now)
     = mset (filter (\<lambda>r. status r = PENDING \<and> expiresAt r > now) (map snd (requests s)))" for s
    by (simp add: mem_getPendingRequests_None sortByCreatedDesc_props)
  have B: "\<forall>r \<in> set (mem_getPendingRequests s options now).
         status r = PENDING \<and> now < expiresAt r \<and> r \<in> set (map snd (requests s))" for s
    using mem_getPendingRequests_sound by blast
  have C: "\<forall>r \<in> set (map snd (requests s)).
         status r = PENDING \<longrightarrow>
           (r \<in> set (mem_getPendingRequests s None now) \<longleftrightarrow> now < expiresAt r)" for s
    by (simp add: mem_getPendingRequests_None sortByCreatedDesc_props)
  have D: "\<exists>rs. sb_getPendingRequests db None None now = Inr rs
         \<and> mset rs = mset (filter (\<lambda>r. status r = PENDING \<and> expiresAt r > now)
                             (approval_requests db))
         \<and> sorted_wrt (\<lambda>a b. createdAt a \<ge> createdAt b) rs
         \<and> (\<forall>r \<in> set (approval_requests db).
               status r = PENDING \<longrightarrow> (r \<in> set rs \<longleftrightarrow> now < expiresAt r))"
    using A[of ?db] C[of ?db] mem_getPendingRequests_sorted[of ?db None now]
    unfolding sb_getPendingRequests_eq m by blast
  have E: "\<exists>rs. sb_getPendingRequests db None options now = Inr rs
         \<and> sorted_wrt (\<lambda>a b. createdAt a \<ge> createdAt b) rs
         \<and> (\<forall>r \<in> set rs. status r = PENDING \<and> now < expiresAt r
                            \<and> r \<in> set (approval_requests db))"
    using B[of ?db] mem_getPendingRequests_sorted[of ?db options now]
    unfolding sb_getPendingRequests_eq m by blast
  from A[of s] B[of s] C[of s] D E mem_getPendingRequests_sorted[of s options now]
  show ?thesis by blast
qed

theorem C9_getPendingRequests_witness:
  "map rid (mem_getPendingRequests (sampleStore L3) None 3600999) = [id1]
   \<and> mem_getPendingRequests (sampleStore L3) None 3601000 = []
   \<and> map_sum id (map rid) (sb_getPendingRequests (sampleDb L3) None None 3600999) = Inr [id1]
   \<and> sb_getPendingRequests (sampleDb L3) None None 3601000 = Inr []"
proof -
  from sampleStore_requests[of L3] obtain r where
    r: "requests (sampleStore L3) = [(id1, r)]" "rid r = id1" "status r = PENDING"
       "expiresAt r = 3601000" by auto
  from sampleDb_requests[of L3] obtain q where
    q: "approval_requests (sampleDb L3) = [q]" "rid q = id1" "status q = PENDING"
       "expiresAt q = 3601000" by auto
  note T1 = C9_getPendingRequests[of "sampleStore L3" 3600999 None "sampleDb L3"]
  note T2 = C9_getPendingRequests[of "sampleStore L3" 3601000 None "sampleDb L3"]
  have f1: "filter (\<lambda>r. status r = PENDING \<and> expiresAt r > 3600999)
              (map snd (requests (sampleStore L3))) = [r]"
    and f2: "filter (\<lambda>r. status r = PENDING \<and> expiresAt r > 3601000)
              (map snd (requests (sampleStore L3))) = []"
    using r by simp_all
  have g1: "filter (\<lambda>r. status r = PENDING \<and> expiresAt r > 3600999)
              (approval_requests (sampleDb L3)) = [q]"
    and g2: "filter (\<lambda>r. status r = PENDING \<and> expiresAt r > 3601000)
              (approval_requests (sampleDb L3)) = []"
    using q by simp_all
  from T1[THEN conjunct1]
  have "mset (mem_getPendingRequests (sampleStore L3) None 3600999) = mset [r]"
    unfolding f1 .
  then have 1: "mem_getPendingRequests (sampleStore L3) None 3600999 = [r]" by simp
  from T2[THEN conjunct1]
  have "mset (mem_getPendingRequests (sampleStore L3) None 3601000) = mset []"
    unfolding f2 .
  then have 2: "mem_getPendingRequests (sampleStore L3) None 3601000 = []" by simp
  from T1[THEN conjunct2, THEN conjunct2, THEN conjunct2, THEN conjunct2, THEN conjunct1]
  obtain rs where rs: "sb_getPendingRequests (sampleDb L3) None None 3600999 = Inr rs"
    "mset rs = mset (filter (\<lambda>r. status r = PENDING \<and> expiresAt r > 3600999)
                             (approval_requests (sampleDb L3)))"
    by blast
  from rs(2) have "rs = [q]" unfolding g1 by simp
  with rs(1) have 3: "sb_getPendingRequests (sampleDb L3) None None 3600999 = Inr [q]" by simp
  from T2[THEN conjunct2, THEN conjunct2, THEN conjunct2, THEN conjunct2, THEN conjunct1]
  obtain rs' where rs': "sb_getPendingRequests (sampleDb L3) None None 3601000 = Inr rs'"
    "mset rs' = mset (filter (\<lambda>r. status r = PENDING \<and> expiresAt r > 3601000)
                             (approval_requests (sampleDb L3)))"
    by blast
  from rs'(2) have "rs' = []" unfolding g2 by simp
  with rs'(1) have 4: "sb_getPendingRequests (sampleDb L3) None None 3601000 = Inr []" by simp
  from 1 2 3 4 r(2) q(2) show ?thesis by simp
qed

section \<open>Trust level of a tool\<close>

lemma toolOverride_cases:
  "toolOverride gate tool =
     (case cfg_toolOverrides (tg_config gate) of
        None \<Rightarrow> None
      | Some ovr \<Rightarrow>
          (case spec_explicitOverride gate tool of
             Some lvl \<Rightarrow> Some (Value lvl)
           | None \<Rightarrow>
               (if tool_name tool \<in> set objectPrototypeKeys
                then Some (PrototypeMember (tool_name tool)) else None)))"
  by (simp add: toolOverride_def spec_explicitOverride_def objectGet_def split: option.splits)

lemma getTrustLevelForTool_spec:
  "getTrustLevelForTool gate tool =
     (if cfg_toolOverrides (tg_config gate) \<noteq> None \<and> spec_explicitOverride gate tool = None
         \<and> tool_name tool \<in> set objectPrototypeKeys
      then PrototypeMember (tool_name tool)
      else Value (spec_toolTrustLevel (spec_explicitOverride gate tool) (tool_risk tool)
                    (tool_capability tool)))"
  unfolding getTrustLevelForTool_def toolOverride_cases
  by (auto simp: spec_toolTrustLevel_def spec_explicitOverride_def split: option.splits)

lemma evaluate_trustLevel:
  assumes "validateToolDefinition tool = None" "validateContext ctx = None"
    "tg_stagePolicies gate stage = Some pol"
  shows "tg_trustLevel (evaluate gate tool stage ctx) = getTrustLevelForTool gate tool"
  using assms by (simp add: evaluate_def Let_def)

lemma evaluate_invalid_L4:
  assumes "validateToolDefinition tool \<noteq> None \<or> validateContext ctx \<noteq> None
           \<or> tg_stagePolicies gate stage = None"
  shows "tg_trustLevel (evaluate gate tool stage ctx) = Value L4
         \<and> \<not> allowed (evaluate gate tool stage ctx)"
  using assms by (auto simp: evaluate_def createDenyResult_def split: option.splits)

text \<open>
  What \<^verbatim>\<open>getTrustLevelForTool\<close> computes, for every gate and tool definition: the
  result of the chain of the specification, unless the gate has an overrides object
  that gives the tool's name no level and the name is a property of
  \<^verbatim>\<open>Object.prototype\<close>; then it is that inherited member. \<^verbatim>\<open>evaluate\<close> reports what
  \<^verbatim>\<open>getTrustLevelForTool\<close> computes for every tool and context that pass validation at
  a stage that has a policy.
\<close>

lemma getTrustLevelForTool_chain:
  "(cfg_toolOverrides (tg_config gate) = None \<or> spec_explicitOverride gate tool \<noteq> None
      \<or> tool_name tool \<notin> set objectPrototypeKeys
     \<longrightarrow> getTrustLevelForTool gate tool
           = Value (spec_toolTrustLevel (spec_explicitOverride gate tool) (tool_risk tool)
                      (tool_capability tool)))
   \<and> (cfg_toolOverrides (tg_config gate) \<noteq> None \<and> spec_explicitOverride gate tool = None
        \<and> tool_name tool \<in> set objectPrototypeKeys
       \<longrightarrow> getTrustLevelForTool gate tool = PrototypeMember (tool_name tool))
   \<and> (validateToolDefinition tool = None \<and> validateContext ctx = None
        \<and> tg_stagePolicies gate stage \<noteq> None
       \<longrightarrow> tg_trustLevel (evaluate gate tool stage ctx) = getTrustLevelForTool gate tool)"
proof (intro conjI)
  show "cfg_toolOverrides (tg_config gate) = None \<or> spec_explicitOverride gate tool \<noteq> None
      \<or> tool_name tool \<notin> set objectPrototypeKeys
     \<longrightarrow> getTrustLevelForTool gate tool
           = Value (spec_toolTrustLevel (spec_explicitOverride gate tool) (tool_risk tool)
                      (tool_capability tool))"
    unfolding getTrustLevelForTool_spec by auto
  show "cfg_toolOverrides (tg_config gate) \<noteq> None \<and> spec_explicitOverride gate tool = None
        \<and> tool_name tool \<in> set objectPrototypeKeys
       \<longrightarrow> getTrustLevelForTool gate tool = PrototypeMember (tool_name tool)"
    unfolding getTrustLevelForTool_spec by auto
  show "validateToolDefinition tool = None \<and> validateContext ctx = None
        \<and> tg_stagePolicies gate stage \<noteq> None
       \<longrightarrow> tg_trustLevel (evaluate gate tool stage ctx) = getTrustLevelForTool gate tool"
    using evaluate_trustLevel[of tool ctx gate stage] by auto
qed

section \<open>Expiry at the trust gate and at the commit boundary\<close>

lemma evaluateWithApproval_approved:
  assumes "requiresApproval (evaluate gate tool stage ctx)"
    and "ctx_approvalStore ctx = Some q"
    and "q (ctx_runId ctx) = Inr reqs"
    and "find (matchesTool tool) reqs = Some r"
    and "status r = APPROVED"
    and "requiresReviewerVerdict (evaluate gate tool stage ctx) \<longrightarrow> reviewerVerdict r = Some PASS"
  shows "evaluateWithApproval gate tool stage ctx
           = (evaluate gate tool stage ctx)
               \<lparr>allowed := True, approvalId := Some (rid r), approvalStatus := Some APPROVED\<rparr>"
  using assms by (auto simp: evaluateWithApproval_def Let_def)

lemma verify_expired:
  assumes "run \<noteq> []" "toolName \<noteq> []" "getCommitTool toolName = Some toolDef"
    and "getReqs run = Inr reqs"
    and "find (\<lambda>r. Some (actionType r) = entryActionType toolDef \<or> actionType r = toolName)
           reqs = Some r"
    and "\<not> trustIndex (trustLevel r) < entryMinTrustIndex toolDef"
    and "status r = APPROVED" "reviewerVerdict r = Some PASS" "expiresAt r < now"
  shows "verifyCommitEligibility getReqs getStaged now run toolName
           = commitDenied (ApprovalExpired (expiresAt r)) (Some r)"
proof -
  from assms(4,5) have "reqs \<noteq> []" by auto
  with assms show ?thesis by (simp add: verifyCommitEligibility_def)
qed


lemma approvedStore_contents:
  "\<exists>r. requests (approvedStore act) = [(id1, r)]
       \<and> rid r = id1 \<and> runId r = run1 \<and> actionType r = act \<and> trustLevel r = L3
       \<and> status r = APPROVED \<and> reviewerVerdict r = Some PASS \<and> expiresAt r = 3601000
       \<and> requestContext r = None"
  if "act \<noteq> []"
  using uuidShape_samples that
  by (simp add: approvedStore_def mem_createRequest_def parseCreateApprovalRequest_def
      sampleInput_def Let_def mem_createDecision_def parseCreateDecision_def
      firstDecision_def mem_getRequest_def statusForDecision_def newDecision_def
      emptyStore_def)

lemma approvedStore_query:
  assumes "act \<noteq> []"
  shows "\<exists>r. storeQuery (approvedStore act) run1 = Inr [r]
       \<and> rid r = id1 \<and> runId r = run1 \<and> actionType r = act \<and> trustLevel r = L3
       \<and> status r = APPROVED \<and> reviewerVerdict r = Some PASS \<and> expiresAt r = 3601000
       \<and> requestContext r = None"
proof -
  from approvedStore_contents[OF assms] obtain r where
    r: "requests (approvedStore act) = [(id1, r)]" "rid r = id1" "runId r = run1"
       "actionType r = act" "trustLevel r = L3" "status r = APPROVED"
       "reviewerVerdict r = Some PASS" "expiresAt r = 3601000" "requestContext r = None"
    by blast
  then have "storeQuery (approvedStore act) run1 = Inr [r]"
    by (simp add: storeQuery_def mem_getRequestsByRunId_def sortByCreatedAsc_def)
  with r show ?thesis by blast
qed

lemma evaluate_postAlert:
  "evaluate defaultGate postAlertTool commit ctx =
     (if ctx_agentName ctx = [] then createDenyResult FailClosedAgentName
      else if ctx_runId ctx = [] then createDenyResult FailClosedRunId
      else \<lparr>allowed = False, tg_reason = Some CommitToolRequiresApprovalCheck,
            requiresApproval = True, approvalId = None, approvalStatus = None,
            sandboxed = True, tg_trustLevel = Value L3, tg_isCommitTool = True,
            requiresReviewerVerdict = True, tg_autoApproveEligible = True\<rparr>)"
  by (simp add: evaluate_def validateToolDefinition_def validateContext_def defaultGate_def
      postAlertTool_def getTrustLevelForTool_def toolOverride_def isCommitTool_def
      getCommitTool_def objectHas_def objectGet_def COMMIT_TOOLS_def compareLevel_def
      levelIndex_def entryAutoApproveEligible_def shouldSandbox_def Let_def)

text \<open>
  C8. The trust level of a tool is the result of the chain: an explicit per-tool
  override of the domain configuration wins; else risk CRITICAL gives L4; else risk HIGH
  with capability SIDE_EFFECTS gives L3; else risk HIGH or capability WRITE gives L2;
  else capability PROPOSE gives L1; else L0. \<^verbatim>\<open>getTrustLevelForTool\<close> computes it for the
  commit tool \<^verbatim>\<open>asi.commit_post_alert\<close> (L3), and misses it for a CRITICAL tool named
  \<^verbatim>\<open>toString\<close> at the gate \<^verbatim>\<open>DEFAULT_GATES.land\<close>, whose overrides are the empty object:
  the chain gives L4, the gate computes the member \<^verbatim>\<open>toString\<close> of the prototype, and
  \<^verbatim>\<open>evaluate\<close> allows the tool in the execute stage, whose maximum is L2.
\<close>

theorem C8_inherited_member_as_level:
  "getTrustLevelForTool defaultGate postAlertTool = Value L3
   \<and> getTrustLevelForTool landGate toStringTool = PrototypeMember ''toString''
   \<and> spec_toolTrustLevel (spec_explicitOverride landGate toStringTool)
        (tool_risk toStringTool) (tool_capability toStringTool) = L4
   \<and> getTrustLevelForTool landGate toStringTool
       \<noteq> Value (spec_toolTrustLevel (spec_explicitOverride landGate toStringTool)
                  (tool_risk toStringTool) (tool_capability toStringTool))
   \<and> allowed (evaluate landGate toStringTool execute decidedContext)"
  by (simp add: getTrustLevelForTool_def toolOverride_def objectGet_def
      objectPrototypeKeys_def landGate_def defaultGate_def postAlertTool_def
      toStringTool_def spec_toolTrustLevel_def
      spec_explicitOverride_def evaluate_def validateToolDefinition_def
      validateContext_def decidedContext_def run1_def isCommitTool_def objectHas_def
      getCommitTool_def COMMIT_TOOLS_def compareLevel_def levelIndex_def
      shouldSandbox_def entryAutoApproveEligible_def Let_def)

text \<open>
  C10. When \<^verbatim>\<open>evaluateWithApproval\<close> finds, for a tool that requires approval, a matching
  request with status APPROVED that satisfies the reviewer-verdict requirement, it returns
  allowed = true whatever the request's \<open>expiresAt\<close> is: no clock is read. A request with
  the terminal status EXPIRED is denied there. At the commit boundary the same request,
  APPROVED with verdict PASS but with \<open>expiresAt\<close> before the evaluation time, is denied
  by gate 7.
\<close>

theorem C10_approved_path_ignores_expiry:
  assumes "requiresApproval (evaluate gate tool stage ctx)"
    and "ctx_approvalStore ctx = Some q"
    and "q (ctx_runId ctx) = Inr reqs"
    and "find (matchesTool tool) reqs = Some r"
  shows "(status r = APPROVED
          \<and> (requiresReviewerVerdict (evaluate gate tool stage ctx)
               \<longrightarrow> reviewerVerdict r = Some PASS)
          \<longrightarrow> allowed (evaluateWithApproval gate tool stage ctx)
              \<and> approvalStatus (evaluateWithApproval gate tool stage ctx) = Some APPROVED
              \<and> approvalId (evaluateWithApproval gate tool stage ctx) = Some (rid r))
       \<and> (status r = EXPIRED
          \<longrightarrow> \<not> allowed (evaluateWithApproval gate tool stage ctx)
              \<and> tg_reason (evaluateWithApproval gate tool stage ctx)
                  = Some (ApprovalTerminal EXPIRED))
       \<and> (\<forall>getReqs getStaged now run toolName toolDef creqs.
            run \<noteq> [] \<and> toolName \<noteq> [] \<and> getCommitTool toolName = Some toolDef
            \<and> getReqs run = Inr creqs
            \<and> find (\<lambda>x. Some (actionType x) = entryActionType toolDef
                          \<or> actionType x = toolName) creqs
                = Some r
            \<and> \<not> trustIndex (trustLevel r) < entryMinTrustIndex toolDef
            \<and> status r = APPROVED \<and> reviewerVerdict r = Some PASS \<and> expiresAt r < now
            \<longrightarrow> verifyCommitEligibility getReqs getStaged now run toolName
                  = commitDenied (ApprovalExpired (expiresAt r)) (Some r))"
proof (intro conjI)
  show "status r = APPROVED
          \<and> (requiresReviewerVerdict (evaluate gate tool stage ctx)
               \<longrightarrow> reviewerVerdict r = Some PASS)
          \<longrightarrow> allowed (evaluateWithApproval gate tool stage ctx)
              \<and> approvalStatus (evaluateWithApproval gate tool stage ctx) = Some APPROVED
              \<and> approvalId (evaluateWithApproval gate tool stage ctx) = Some (rid r)"
    using evaluateWithApproval_approved[OF assms] by simp
  show "status r = EXPIRED
          \<longrightarrow> \<not> allowed (evaluateWithApproval gate tool stage ctx)
              \<and> tg_reason (evaluateWithApproval gate tool stage ctx)
                  = Some (ApprovalTerminal EXPIRED)"
    using assms by (simp add: evaluateWithApproval_def Let_def)
  show "\<forall>getReqs getStaged now run toolName toolDef creqs.
            run \<noteq> [] \<and> toolName \<noteq> [] \<and> getCommitTool toolName = Some toolDef
            \<and> getReqs run = Inr creqs
            \<and> find (\<lambda>x. Some (actionType x) = entryActionType toolDef
                          \<or> actionType x = toolName) creqs
                = Some r
            \<and> \<not> trustIndex (trustLevel r) < entryMinTrustIndex toolDef
            \<and> status r = APPROVED \<and> reviewerVerdict r = Some PASS \<and> expiresAt r < now
            \<longrightarrow> verifyCommitEligibility getReqs getStaged now run toolName
                  = commitDenied (ApprovalExpired (expiresAt r)) (Some r)"
    using verify_expired by blast
qed

theorem C10_approved_path_ignores_expiry_witness:
  "requiresApproval (evaluate defaultGate postAlertTool commit decidedContext)
   \<and> (\<exists>r. find (matchesTool postAlertTool)
             (mem_getRequestsByRunId (approvedStore ''asi.commit_post_alert'') run1) = Some r
          \<and> status r = APPROVED \<and> expiresAt r = 3601000)
   \<and> allowed (evaluateWithApproval defaultGate postAlertTool commit decidedContext)
   \<and> \<not> eligible (verifyCommitEligibility (storeQuery (approvedStore ''asi.commit_post_alert''))
                     noStagedChanges 4000000 run1 ''asi.commit_post_alert'')
   \<and> ce_reason (verifyCommitEligibility (storeQuery (approvedStore ''asi.commit_post_alert''))
                  noStagedChanges 4000000 run1 ''asi.commit_post_alert'')
       = Some (ApprovalExpired 3601000)"
proof -
  let ?s = "approvedStore ''asi.commit_post_alert''"
  from approvedStore_query[of "''asi.commit_post_alert''"] obtain r where
    r: "storeQuery ?s run1 = Inr [r]" "actionType r = ''asi.commit_post_alert''"
       "trustLevel r = L3" "status r = APPROVED" "reviewerVerdict r = Some PASS"
       "expiresAt r = 3601000"
    by auto
  have e: "evaluate defaultGate postAlertTool commit decidedContext
     = \<lparr>allowed = False, tg_reason = Some CommitToolRequiresApprovalCheck,
            requiresApproval = True, approvalId = None, approvalStatus = None,
            sandboxed = True, tg_trustLevel = Value L3, tg_isCommitTool = True,
            requiresReviewerVerdict = True, tg_autoApproveEligible = True\<rparr>"
    by (simp add: evaluate_postAlert decidedContext_def run1_def)
  have a1: "requiresApproval (evaluate defaultGate postAlertTool commit decidedContext)"
    by (simp add: e)
  have a2: "ctx_approvalStore decidedContext = Some (storeQuery ?s)"
    by (simp add: decidedContext_def storeQuery_def fun_eq_iff)
  have a3: "storeQuery ?s (ctx_runId decidedContext) = Inr [r]"
    using r(1) by (simp add: decidedContext_def)
  have a4: "find (matchesTool postAlertTool) [r] = Some r"
    using r(2) by (simp add: matchesTool_def postAlertTool_def)
  note T = C10_approved_path_ignores_expiry[OF a1 a2 a3 a4]
  have m: "mem_getRequestsByRunId ?s run1 = [r]"
    using r(1) by (simp add: storeQuery_def)
  let ?d = "Value \<lparr>ct_name = ''asi.commit_post_alert'', ct_minTrustLevel = L3,
                    ct_actionType = ''COMMIT_POST_ALERT'', ct_autoApproveEligible = True,
                    ct_risk = MEDIUM\<rparr>"
  have td: "getCommitTool ''asi.commit_post_alert'' = Some ?d"
    by (simp add: getCommitTool_def objectGet_def COMMIT_TOOLS_def)
  have f: "find (\<lambda>x. Some (actionType x) = entryActionType ?d
                       \<or> actionType x = ''asi.commit_post_alert'') [r] = Some r"
    using r(2) by simp
  have ti: "\<not> trustIndex (trustLevel r) < entryMinTrustIndex ?d"
    using r(3) by (simp add: entryMinTrustIndex_def entryMinTrustLevel_def)
  from T[THEN conjunct1] r(4,5) e
  have 1: "allowed (evaluateWithApproval defaultGate postAlertTool commit decidedContext)"
    by simp
  from T[THEN conjunct2, THEN conjunct2, rule_format,
         where run = run1 and toolName = "''asi.commit_post_alert''" and toolDef = ?d
           and getReqs = "storeQuery ?s" and creqs = "[r]" and now = 4000000
           and getStaged = noStagedChanges]
       td r f ti
  have 2: "verifyCommitEligibility (storeQuery ?s) noStagedChanges 4000000 run1
             ''asi.commit_post_alert''
           = commitDenied (ApprovalExpired 3601000) (Some r)"
    by (simp add: run1_def)
  from a1 a4 m r(4,6) 1 2 show ?thesis by (auto simp: commitDenied_def)
qed


section \<open>Commit eligibility\<close>

lemma commitReasonText_marker:
  "take 13 (commitReasonText showDate d) = ''FAIL CLOSED: ''"
  by (cases d) simp_all

lemma verify_denied_reason:
  assumes "\<not> eligible (verifyCommitEligibility getReqs getStaged now run toolName)"
  shows "\<exists>d. ce_reason (verifyCommitEligibility getReqs getStaged now run toolName) = Some d
           \<and> take 13 (commitReasonText showDate d) = ''FAIL CLOSED: ''
           \<and> 1 \<le> gateOf d \<and> gateOf d \<le> 8"
proof -
  have "\<exists>d. ce_reason (verifyCommitEligibility getReqs getStaged now run toolName) = Some d"
    using assms
    by (auto simp: verifyCommitEligibility_def commitDenied_def commitEligible_def
        split: option.splits sum.splits if_splits)
  then obtain d where
    d: "ce_reason (verifyCommitEligibility getReqs getStaged now run toolName) = Some d"
    by blast
  have "1 \<le> gateOf d \<and> gateOf d \<le> 8" by (cases d) simp_all
  with d commitReasonText_marker[of showDate d] show ?thesis by blast
qed

lemma verify_after_gates:
  assumes "gates1to7 getReqs now run toolName = Some r"
  shows "verifyCommitEligibility getReqs getStaged now run toolName =
     (if toolName = ''asi.commit_apply_changes''
      then (case contextSandboxId r of
              None \<Rightarrow> commitEligible r None
            | Some sandboxId \<Rightarrow>
                (case getStaged sandboxId of
                   Inl e \<Rightarrow> commitDenied (StagedChangesFailed e) (Some r)
                 | Inr changes \<Rightarrow>
                     (if changes = [] then commitDenied NoStagedChanges (Some r)
                      else commitEligible r (Some changes))))
      else commitEligible r None)"
proof -
  from assms have ne: "run \<noteq> []" "toolName \<noteq> []"
    by (auto simp: gates1to7_def split: if_splits)
  from assms ne obtain toolDef where td: "getCommitTool toolName = Some toolDef"
    by (auto simp: gates1to7_def split: option.splits)
  from assms ne td obtain reqs where rq: "getReqs run = Inr reqs"
    by (auto simp: gates1to7_def split: sum.splits)
  from assms ne td rq have
    f: "find (\<lambda>r. Some (actionType r) = entryActionType toolDef \<or> actionType r = toolName)
          reqs = Some r"
    and g: "entryMinTrustIndex toolDef \<le> trustIndex (trustLevel r)"
      "status r = APPROVED" "reviewerVerdict r = Some PASS" "\<not> expiresAt r < now"
    by (auto simp: gates1to7_def split: option.splits if_splits)
  from f have "reqs \<noteq> []" by auto
  with ne td rq f g show ?thesis
    by (simp add: verifyCommitEligibility_def not_less)
qed

lemma verify_gate8_denial:
  assumes "gates1to7 getReqs now run toolName = Some r"
    and "\<not> code_stagedGate getStaged toolName r"
  shows "\<exists>d. ce_reason (verifyCommitEligibility getReqs getStaged now run toolName) = Some d
           \<and> gateOf d = 8"
  using assms(2) unfolding verify_after_gates[OF assms(1)]
  by (auto simp: code_stagedGate_def commitDenied_def split: option.splits sum.splits)

lemma verify_gate17_denial:
  assumes "gates1to7 getReqs now run toolName = None"
  shows "\<not> eligible (verifyCommitEligibility getReqs getStaged now run toolName)
         \<and> (\<exists>d. ce_reason (verifyCommitEligibility getReqs getStaged now run toolName) = Some d
           \<and> gateOf d \<le> 7)"
  using assms
  by (auto simp: verifyCommitEligibility_def gates1to7_def
      commitDenied_def commitEligible_def not_less
      split: option.splits sum.splits if_splits)

lemma verify_eligible_iff:
  "eligible (verifyCommitEligibility getReqs getStaged now run toolName)
     \<longleftrightarrow> (\<exists>r. gates1to7 getReqs now run toolName = Some r
               \<and> code_stagedGate getStaged toolName r)"
proof (cases "gates1to7 getReqs now run toolName")
  case None
  from verify_gate17_denial[OF None, of getStaged] None show ?thesis by simp
next
  case (Some r)
  show ?thesis
    unfolding verify_after_gates[OF Some] Some
    by (auto simp: code_stagedGate_def commitDenied_def commitEligible_def
        split: option.splits sum.splits)
qed

text \<open>
  C2. \<^verbatim>\<open>verifyCommitEligibility\<close> returns eligible = true exactly when gates 1 to 7
  pass and the staged-changes test of the source passes (\<open>verify_eligible_iff\<close>), and
  every denial carries a reason that starts with the marker \<^verbatim>\<open>FAIL CLOSED: \<close> and comes
  from one of the eight gates (\<open>verify_denied_reason\<close>). The staged-changes test of the
  source is weaker than gate 8: for \<^verbatim>\<open>asi.commit_apply_changes\<close> and an approved,
  unexpired L3 request with verdict PASS whose context holds no sandbox id, the boundary
  answers eligible = true with no staged changes, although no sandbox with a non-empty
  staged-change set is associated with the request.
\<close>

theorem C2_apply_changes_without_sandbox:
  "eligible (verifyCommitEligibility (storeQuery (approvedStore ''COMMIT_APPLY_CHANGES''))
               noStagedChanges 3000 run1 ''asi.commit_apply_changes'')
   \<and> ce_stagedChanges (verifyCommitEligibility
                         (storeQuery (approvedStore ''COMMIT_APPLY_CHANGES''))
                         noStagedChanges 3000 run1 ''asi.commit_apply_changes'') = None
   \<and> map_option (spec_stagedGate noStagedChanges ''asi.commit_apply_changes'')
        (gates1to7 (storeQuery (approvedStore ''COMMIT_APPLY_CHANGES'')) 3000 run1
           ''asi.commit_apply_changes'') = Some False"
proof -
  let ?s = "approvedStore ''COMMIT_APPLY_CHANGES''"
  from approvedStore_query[of "''COMMIT_APPLY_CHANGES''"] obtain r where
    r: "storeQuery ?s run1 = Inr [r]" "actionType r = ''COMMIT_APPLY_CHANGES''"
       "trustLevel r = L3" "status r = APPROVED" "reviewerVerdict r = Some PASS"
       "expiresAt r = 3601000" "requestContext r = None"
    by auto
  have g: "gates1to7 (storeQuery ?s) 3000 run1 ''asi.commit_apply_changes'' = Some r"
    using r
    by (simp add: gates1to7_def getCommitTool_def objectGet_def COMMIT_TOOLS_def run1_def
        entryActionType_def entryMinTrustIndex_def entryMinTrustLevel_def)
  have v: "verifyCommitEligibility (storeQuery ?s) noStagedChanges 3000 run1
             ''asi.commit_apply_changes'' = commitEligible r None"
    using r
    by (simp add: verifyCommitEligibility_def getCommitTool_def objectGet_def
        COMMIT_TOOLS_def run1_def contextSandboxId_def entryActionType_def
        entryMinTrustIndex_def entryMinTrustLevel_def)
  have n: "\<not> spec_stagedGate noStagedChanges ''asi.commit_apply_changes'' r"
    using r by (simp add: spec_stagedGate_def contextSandboxId_def)
  from g v n show ?thesis by (simp add: commitEligible_def)
qed

section \<open>The sandbox fails closed\<close>

lemma isDockerAvailable_config:
  "ds_config (snd (isDockerAvailable sb env)) = ds_config sb"
  "ds_stagedChanges (snd (isDockerAvailable sb env)) = ds_stagedChanges sb"
  by (auto simp: isDockerAvailable_def Let_def split: option.splits sum.splits)

lemma isDockerAvailable_probe_fails:
  assumes "case env_dockerVersion env of Inl e \<Rightarrow> True | Inr r \<Rightarrow> cr_exitCode r \<noteq> 0"
    and "dockerAvailabilityCache sb = Some True
           \<longrightarrow> \<not> env_dateNow env - dockerAvailabilityCacheTime sb < DOCKER_CACHE_TTL_MS"
  shows "\<not> fst (isDockerAvailable sb env)"
  using assms
  by (auto simp: isDockerAvailable_def Let_def split: option.splits sum.splits)

lemma executeWithIsolation_unavailable:
  assumes "failClosedOnDockerUnavailable (ds_config sb)"
    and "\<not> fst (isDockerAvailable sb env)"
  shows "executeWithIsolation sb env input sandboxId =
     (Inr \<lparr>sr_success = False, sr_result = None,
           sr_error = Some (''FAIL CLOSED: Docker unavailable - ''
                             @ diagnoseDockerUnavailability env
                             @ ''. Sandboxed execution is required for L2+ operations.''),
           sr_sandboxId = sandboxId, sr_artifacts = [],
           sr_durationMs = env_isolationDuration env,
           sr_timedOut = False, sr_exitCode = None, sr_stdout = None, sr_stderr = None,
           failureReason =
             Some (if diagnoseDockerUnavailability env = ''Docker daemon is not running''
                   then DOCKER_NOT_RUNNING else DOCKER_NOT_AVAILABLE),
           deniedByPolicy = Some True\<rparr>,
      snd (isDockerAvailable sb env), 0)"
proof -
  obtain a sb1 where p: "isDockerAvailable sb env = (a, sb1)" by (cases "isDockerAvailable sb env")
  with assms(2) have a: "\<not> a" by simp
  from p isDockerAvailable_config(1)[of sb env] assms(1)
  have c: "failClosedOnDockerUnavailable (ds_config sb1)" by simp
  show ?thesis
    unfolding executeWithIsolation_def p using a c by (simp add: Let_def)
qed

lemma executeWithIsolation_fail_closed_calls:
  assumes "failClosedOnDockerUnavailable (ds_config sb)"
  shows "snd (snd (executeWithIsolation sb env input sandboxId)) = 0
       \<and> ds_stagedChanges (fst (snd (executeWithIsolation sb env input sandboxId)))
           = ds_stagedChanges sb"
proof -
  obtain a sb1 where p: "isDockerAvailable sb env = (a, sb1)" by (cases "isDockerAvailable sb env")
  from p isDockerAvailable_config[of sb env] assms
  have c: "failClosedOnDockerUnavailable (ds_config sb1)"
    "ds_stagedChanges sb1 = ds_stagedChanges sb" by simp_all
  show ?thesis
    unfolding executeWithIsolation_def p using c
    by (simp add: Let_def split: sum.splits)
qed

lemma execute_fail_closed_no_handler:
  assumes "failClosedOnDockerUnavailable (ds_config sb)"
  shows "snd (snd (sandbox_execute sb env input)) = 0
       \<and> ds_stagedChanges (fst (snd (sandbox_execute sb env input))) = ds_stagedChanges sb"
proof -
  let ?sid = "case si_sandboxId input of Some i \<Rightarrow> i | None \<Rightarrow> ''sandbox-'' @ env_uuid env"
  obtain res sb1 n where e: "executeWithIsolation sb env input ?sid = (res, sb1, n)"
    by (cases "executeWithIsolation sb env input ?sid") auto
  from executeWithIsolation_fail_closed_calls[OF assms, of env input ?sid] e
  have "n = 0" "ds_stagedChanges sb1 = ds_stagedChanges sb" by simp_all
  then show ?thesis
    unfolding sandbox_execute_def Let_def e
    by (simp split: option.splits sum.splits)
qed

lemma execute_unavailable:
  assumes "failClosedOnDockerUnavailable (ds_config sb)"
    and "\<not> fst (isDockerAvailable sb env)"
  shows "fst (sandbox_execute sb env input) =
     (let sandboxId =
            (case si_sandboxId input of Some i \<Rightarrow> i | None \<Rightarrow> ''sandbox-'' @ env_uuid env)
      in case validateInput input of
           Some inputError \<Rightarrow>
             createFailClosedResult sandboxId INVALID_INPUT inputError (env_duration env)
         | None \<Rightarrow>
             (case env_mkdir env of
                Some e \<Rightarrow>
                  createFailClosedResult sandboxId ARTIFACTS_DIR_CREATION_FAILED
                    (''Failed to create artifacts directory: '' @ e) (env_duration env)
              | None \<Rightarrow>
                  \<lparr>sr_success = False, sr_result = None,
                   sr_error = Some (''FAIL CLOSED: Docker unavailable - ''
                             @ diagnoseDockerUnavailability env
                             @ ''. Sandboxed execution is required for L2+ operations.''),
                   sr_sandboxId = sandboxId, sr_artifacts = [],
                   sr_durationMs = env_isolationDuration env,
                   sr_timedOut = False, sr_exitCode = None, sr_stdout = None,
                   sr_stderr = None,
                   failureReason =
                     Some (if diagnoseDockerUnavailability env = ''Docker daemon is not running''
                           then DOCKER_NOT_RUNNING else DOCKER_NOT_AVAILABLE),
                   deniedByPolicy = Some True\<rparr>))"
  unfolding sandbox_execute_def Let_def executeWithIsolation_unavailable[OF assms]
  by (simp split: option.splits)

lemma isDockerAvailable_unavailable:
  assumes "dockerUnavailable env"
  shows "fst (isDockerAvailable sb env) = cachedAvailable sb env"
  using assms
  by (auto simp: isDockerAvailable_def dockerUnavailable_def cachedAvailable_def Let_def
      split: option.splits sum.splits)

lemma execute_docker_attempted:
  assumes "fst (isDockerAvailable sb env)"
    and "validateInput input = None" and "env_mkdir env = None"
  shows "(env_scriptError env = None
            \<longrightarrow> deniedByPolicy (fst (sandbox_execute sb env input)) = None
                \<and> failureReason (fst (sandbox_execute sb env input)) = None)
       \<and> (env_scriptError env \<noteq> None
            \<longrightarrow> deniedByPolicy (fst (sandbox_execute sb env input)) = Some True
                \<and> failureReason (fst (sandbox_execute sb env input)) = Some UNKNOWN_ERROR)"
proof -
  obtain sb1 where p: "isDockerAvailable sb env = (True, sb1)"
    using assms(1) by (cases "isDockerAvailable sb env") auto
  show ?thesis
    unfolding sandbox_execute_def executeWithIsolation_def p Let_def
    using assms(2,3)
    by (auto simp: executeInDocker_def Let_def split: option.splits sum.splits)
qed

text \<open>
  C3. For every execution of a \<^verbatim>\<open>DockerSandbox\<close> whose fail-closed flag is set while
  Docker is unavailable, the handler is not called and nothing is staged. An invalid
  input is denied with INVALID_INPUT and a failure to create the artifacts directory with
  ARTIFACTS_DIR_CREATION_FAILED. Otherwise the outcome depends on the cache of the
  availability check. Without a cached answer \<open>available\<close> younger than 30 seconds,
  \<^verbatim>\<open>execute\<close> returns a failure with deniedByPolicy = true and the reason
  DOCKER_NOT_RUNNING or DOCKER_NOT_AVAILABLE, according to the diagnosis. With such a
  cached answer the sandbox attempts \<^verbatim>\<open>docker run\<close> and returns its outcome with
  neither deniedByPolicy nor a failure reason (UNKNOWN_ERROR with deniedByPolicy = true
  when building the command throws). \<^verbatim>\<open>FailClosedSandbox.execute\<close> always denies with
  DOCKER_NOT_AVAILABLE and does not call the handler.
\<close>

theorem C3_docker_unavailable_fail_closed:
  assumes "failClosedOnDockerUnavailable (ds_config sb)"
    and "dockerUnavailable env"
  shows "snd (snd (sandbox_execute sb env input)) = 0
       \<and> ds_stagedChanges (fst (snd (sandbox_execute sb env input))) = ds_stagedChanges sb
       \<and> (validateInput input \<noteq> None
            \<longrightarrow> deniedByPolicy (fst (sandbox_execute sb env input)) = Some True
                \<and> failureReason (fst (sandbox_execute sb env input)) = Some INVALID_INPUT)
       \<and> (validateInput input = None \<and> env_mkdir env \<noteq> None
            \<longrightarrow> deniedByPolicy (fst (sandbox_execute sb env input)) = Some True
                \<and> failureReason (fst (sandbox_execute sb env input))
                    = Some ARTIFACTS_DIR_CREATION_FAILED)
       \<and> (validateInput input = None \<and> env_mkdir env = None \<and> \<not> cachedAvailable sb env
            \<longrightarrow> \<not> sr_success (fst (sandbox_execute sb env input))
                \<and> deniedByPolicy (fst (sandbox_execute sb env input)) = Some True
                \<and> failureReason (fst (sandbox_execute sb env input))
                  = Some (if diagnoseDockerUnavailability env = ''Docker daemon is not running''
                          then DOCKER_NOT_RUNNING else DOCKER_NOT_AVAILABLE))
       \<and> (validateInput input = None \<and> env_mkdir env = None \<and> cachedAvailable sb env
           \<and> env_scriptError env = None
            \<longrightarrow> deniedByPolicy (fst (sandbox_execute sb env input)) = None
                \<and> failureReason (fst (sandbox_execute sb env input)) = None)
       \<and> (validateInput input = None \<and> env_mkdir env = None \<and> cachedAvailable sb env
           \<and> env_scriptError env \<noteq> None
            \<longrightarrow> deniedByPolicy (fst (sandbox_execute sb env input)) = Some True
                \<and> failureReason (fst (sandbox_execute sb env input)) = Some UNKNOWN_ERROR)
       \<and> deniedByPolicy (fst (fc_execute reason env input)) = Some True
       \<and> failureReason (fst (fc_execute reason env input)) = Some DOCKER_NOT_AVAILABLE
       \<and> snd (fc_execute reason env input) = 0"
proof -
  note A = isDockerAvailable_unavailable[OF assms(2), of sb]
  note N = execute_fail_closed_no_handler[OF assms(1), of env input]
  have 3: "validateInput input \<noteq> None
            \<longrightarrow> deniedByPolicy (fst (sandbox_execute sb env input)) = Some True
                \<and> failureReason (fst (sandbox_execute sb env input)) = Some INVALID_INPUT"
    by (auto simp: sandbox_execute_def Let_def createFailClosedResult_def)
  have 4: "validateInput input = None \<and> env_mkdir env \<noteq> None
            \<longrightarrow> deniedByPolicy (fst (sandbox_execute sb env input)) = Some True
                \<and> failureReason (fst (sandbox_execute sb env input))
                    = Some ARTIFACTS_DIR_CREATION_FAILED"
    by (auto simp: sandbox_execute_def Let_def createFailClosedResult_def)
  have 5: "validateInput input = None \<and> env_mkdir env = None \<and> \<not> cachedAvailable sb env
            \<longrightarrow> \<not> sr_success (fst (sandbox_execute sb env input))
                \<and> deniedByPolicy (fst (sandbox_execute sb env input)) = Some True
                \<and> failureReason (fst (sandbox_execute sb env input))
                  = Some (if diagnoseDockerUnavailability env = ''Docker daemon is not running''
                          then DOCKER_NOT_RUNNING else DOCKER_NOT_AVAILABLE)"
  proof
    assume h: "validateInput input = None \<and> env_mkdir env = None \<and> \<not> cachedAvailable sb env"
    then have na: "\<not> fst (isDockerAvailable sb env)" using A by simp
    show "\<not> sr_success (fst (sandbox_execute sb env input))
                \<and> deniedByPolicy (fst (sandbox_execute sb env input)) = Some True
                \<and> failureReason (fst (sandbox_execute sb env input))
                  = Some (if diagnoseDockerUnavailability env = ''Docker daemon is not running''
                          then DOCKER_NOT_RUNNING else DOCKER_NOT_AVAILABLE)"
      unfolding execute_unavailable[OF assms(1) na, of input] using h
      by (simp add: Let_def)
  qed
  have 6: "validateInput input = None \<and> env_mkdir env = None \<and> cachedAvailable sb env
           \<and> env_scriptError env = None
            \<longrightarrow> deniedByPolicy (fst (sandbox_execute sb env input)) = None
                \<and> failureReason (fst (sandbox_execute sb env input)) = None"
    using execute_docker_attempted[of sb env input] A by auto
  have 7: "validateInput input = None \<and> env_mkdir env = None \<and> cachedAvailable sb env
           \<and> env_scriptError env \<noteq> None
            \<longrightarrow> deniedByPolicy (fst (sandbox_execute sb env input)) = Some True
                \<and> failureReason (fst (sandbox_execute sb env input)) = Some UNKNOWN_ERROR"
    using execute_docker_attempted[of sb env input] A by auto
  have 8: "deniedByPolicy (fst (fc_execute reason env input)) = Some True
       \<and> failureReason (fst (fc_execute reason env input)) = Some DOCKER_NOT_AVAILABLE
       \<and> snd (fc_execute reason env input) = 0"
    by (simp add: fc_execute_def)
  from N 3 4 5 6 7 8 show ?thesis by blast
qed

lemma sample_unavailable:
  "failClosedOnDockerUnavailable (ds_config (newDockerSandbox DEFAULT_SANDBOX_CONFIG))"
  "dockerUnavailable sampleEnv"
  "\<not> cachedAvailable (newDockerSandbox DEFAULT_SANDBOX_CONFIG) sampleEnv"
  "validateInput sampleExecution = None" "env_mkdir sampleEnv = None"
  "diagnoseDockerUnavailability sampleEnv = ''Docker daemon is not running''"
  by (simp_all add: newDockerSandbox_def DEFAULT_SANDBOX_CONFIG_def dockerUnavailable_def
      cachedAvailable_def sampleEnv_def dockerDown_def Let_def validateInput_def
      sampleExecution_def run1_def diagnoseDockerUnavailability_def)

theorem C3_docker_unavailable_fail_closed_witness:
  "failClosedOnDockerUnavailable (ds_config (newDockerSandbox DEFAULT_SANDBOX_CONFIG))
   \<and> dockerUnavailable sampleEnv
   \<and> si_handler sampleExecution \<noteq> None
   \<and> deniedByPolicy (fst (sandbox_execute (newDockerSandbox DEFAULT_SANDBOX_CONFIG) sampleEnv
                              sampleExecution)) = Some True
   \<and> failureReason (fst (sandbox_execute (newDockerSandbox DEFAULT_SANDBOX_CONFIG) sampleEnv
                              sampleExecution)) = Some DOCKER_NOT_RUNNING
   \<and> snd (snd (sandbox_execute (newDockerSandbox DEFAULT_SANDBOX_CONFIG) sampleEnv
                   sampleExecution)) = 0"
proof -
  note T = C3_docker_unavailable_fail_closed[OF sample_unavailable(1,2),
             of sampleExecution "''disabled''"]
  have h: "si_handler sampleExecution \<noteq> None" by (simp add: sampleExecution_def)
  from T[THEN conjunct1]
       T[THEN conjunct2, THEN conjunct2, THEN conjunct2, THEN conjunct2, THEN conjunct1]
       sample_unavailable h
  show ?thesis by simp
qed

text \<open>
  Docker goes down within 30 seconds of a successful check: the sandbox left by an
  execution at time 4000 runs the same input at time 5000 with the fail-closed flag set,
  and the result is no denial.
\<close>

lemma warmSandbox_state:
  "warmSandbox =
     \<lparr>ds_config = DEFAULT_SANDBOX_CONFIG, ds_stagedChanges = [],
      dockerAvailabilityCache = Some True, dockerAvailabilityCacheTime = 4000\<rparr>"
  by (simp add: warmSandbox_def sandbox_execute_def executeWithIsolation_def
      isDockerAvailable_def executeInDocker_def newDockerSandbox_def upEnv_def dockerUp_def
      validateInput_def sampleExecution_def run1_def Let_def falsy_def)

theorem C3_counterexample:
  "failClosedOnDockerUnavailable (ds_config warmSandbox)
   \<and> dockerUnavailable sampleEnv
   \<and> deniedByPolicy (fst (sandbox_execute warmSandbox sampleEnv sampleExecution)) = None
   \<and> failureReason (fst (sandbox_execute warmSandbox sampleEnv sampleExecution)) = None"
  unfolding warmSandbox_state
  by (simp add: sandbox_execute_def executeWithIsolation_def isDockerAvailable_def
      executeInDocker_def DEFAULT_SANDBOX_CONFIG_def DOCKER_CACHE_TTL_MS_def sampleEnv_def
      dockerDown_def dockerUnavailable_def validateInput_def sampleExecution_def run1_def
      Let_def falsy_def)

section \<open>A failing review blocks the commit stage\<close>

lemma approvalStep_props:
  assumes "approvalStep E w run opts pos stage agent res st = (ex, st')"
  shows "ls_agentRuns st' = ls_agentRuns st
       \<and> (stage \<noteq> commit \<longrightarrow> ls_store st' = ls_store st)"
  using assms
  by (auto simp: approvalStep_def Let_def split: if_splits prod.splits option.splits sum.splits)

text \<open>What one iteration of the stage loop adds to the calls of \<^verbatim>\<open>runAgent\<close>.\<close>

lemma stageStep_runs:
  assumes "stageStep E w run opts pos stage st = (ex, st')"
  shows "ls_agentRuns st' = ls_agentRuns st
       \<or> (\<exists>a v. ls_agentRuns st' = ls_agentRuns st
                   @ [\<lparr>run_pos = pos, run_stage = stage, run_agent = a, run_verdict = v\<rparr>]
              \<and> (stage = review \<and> v = Some FAIL
                   \<longrightarrow> ex = Break \<and> ls_finalStatus st' = failed
                       \<and> ls_finalError st'
                           = Some ''Reviewer verdict: FAIL - commit stage blocked''
                       \<and> (\<exists>out. ls_finalResult st' = Some out
                                  \<and> ls_logged st' = ls_logged st @ [blockedEvent w run out])
                       \<and> ls_store st' = ls_store st))"
proof (cases "getAgentForStage (wf_agents w) stage")
  case None
  with assms show ?thesis by (auto simp: stageStep_def Let_def)
next
  case (Some agent)
  show ?thesis
  proof (cases "stage = commit \<and> ls_reviewerVerdict st = None")
    case True
    with assms Some show ?thesis by (auto simp: stageStep_def Let_def)
  next
    case nc: False
    show ?thesis
    proof (cases "oe_runAgent E pos agent stage (ls_context st) (ls_reviewerVerdict st)")
      case (Inl e)
      with assms Some nc show ?thesis by (auto simp: stageStep_def Let_def)
    next
      case (Inr res)
      let ?st1 = "st\<lparr>ls_agentRuns := ls_agentRuns st @
                       [\<lparr>run_pos = pos, run_stage = stage, run_agent = ag_name agent,
                         run_verdict = ar_reviewerVerdict res\<rparr>]\<rparr>"
      let ?st2 = "if stage = review \<and> ar_reviewerVerdict res \<noteq> None
                  then ?st1\<lparr>ls_reviewerVerdict := ar_reviewerVerdict res\<rparr> else ?st1"
      show ?thesis
      proof (cases "stage = review \<and> ar_reviewerVerdict res = Some FAIL")
        case True
        with assms Some nc Inr show ?thesis
          by (auto simp: stageStep_def Let_def)
      next
        case nf: False
        show ?thesis
        proof (cases "ar_status res = requires_approval")
          case True
          with assms Some nc Inr nf
          have "approvalStep E w run opts pos stage agent res ?st2 = (ex, st')"
            by (auto simp: stageStep_def Let_def split: if_splits)
          from approvalStep_props[OF this]
          have "ls_agentRuns st' = ls_agentRuns ?st2" by simp
          with nf show ?thesis by auto
        next
          case False
          with assms Some nc Inr nf show ?thesis
            by (auto simp: stageStep_def Let_def split: if_splits)
        qed
      qed
    qed
  qed
qed

lemma stageStep_store:
  assumes "stageStep E w run opts pos stage st = (ex, st')" and "stage \<noteq> commit"
  shows "ls_store st' = ls_store st"
proof (cases "getAgentForStage (wf_agents w) stage")
  case None
  with assms show ?thesis by (auto simp: stageStep_def Let_def)
next
  case (Some agent)
  show ?thesis
  proof (cases "oe_runAgent E pos agent stage (ls_context st) (ls_reviewerVerdict st)")
    case (Inl e)
    with assms Some show ?thesis by (auto simp: stageStep_def Let_def)
  next
    case (Inr res)
    let ?st1 = "st\<lparr>ls_agentRuns := ls_agentRuns st @
                     [\<lparr>run_pos = pos, run_stage = stage, run_agent = ag_name agent,
                       run_verdict = ar_reviewerVerdict res\<rparr>]\<rparr>"
    let ?st2 = "if stage = review \<and> ar_reviewerVerdict res \<noteq> None
                then ?st1\<lparr>ls_reviewerVerdict := ar_reviewerVerdict res\<rparr> else ?st1"
    show ?thesis
    proof (cases "ar_status res = requires_approval
                  \<and> \<not> (stage = review \<and> ar_reviewerVerdict res = Some FAIL)")
      case True
      with assms Some Inr
      have "approvalStep E w run opts pos stage agent res ?st2 = (ex, st')"
        by (auto simp: stageStep_def Let_def split: if_splits)
      from approvalStep_props[OF this] assms(2)
      have "ls_store st' = ls_store ?st2" by simp
      then show ?thesis by auto
    next
      case False
      with assms Some Inr show ?thesis
        by (auto simp: stageStep_def Let_def split: if_splits)
    qed
  qed
qed

text \<open>
  The loop invariant: a failing review among the calls the loop adds is the last call,
  the loop has left by \<^verbatim>\<open>break\<close> with the status \<open>failed\<close>, and the blocking event is
  the last one logged.
\<close>

lemma runStages_fail:
  assumes "runStages E w run opts pos stages st = (ex, st')"
  shows "\<exists>new. ls_agentRuns st' = ls_agentRuns st @ new
       \<and> (\<forall>q \<in> set new. pos \<le> run_pos q \<and> run_pos q < pos + length stages
                          \<and> run_stage q = stages ! (run_pos q - pos))
       \<and> (\<forall>r \<in> set new. run_stage r = review \<and> run_verdict r = Some FAIL
            \<longrightarrow> ex = Break \<and> ls_finalStatus st' = failed
                \<and> ls_finalError st' = Some ''Reviewer verdict: FAIL - commit stage blocked''
                \<and> (\<exists>out. ls_finalResult st' = Some out
                           \<and> last (ls_logged st') = blockedEvent w run out
                           \<and> ls_logged st' \<noteq> [])
                \<and> last new = r
                \<and> (\<forall>q \<in> set new. run_pos q \<le> run_pos r)
                \<and> (commit \<notin> set (take (run_pos r - pos) stages)
                     \<longrightarrow> ls_store st' = ls_store st))"
  using assms
proof (induction stages arbitrary: pos st)
  case Nil
  then show ?case by simp
next
  case (Cons stage rest)
  obtain ex1 st1 where s1: "stageStep E w run opts pos stage st = (ex1, st1)"
    by (cases "stageStep E w run opts pos stage st")
  from stageStep_runs[OF s1] consider
    (same) "ls_agentRuns st1 = ls_agentRuns st"
    | (added) a v where
      "ls_agentRuns st1 = ls_agentRuns st
         @ [\<lparr>run_pos = pos, run_stage = stage, run_agent = a, run_verdict = v\<rparr>]"
      "stage = review \<and> v = Some FAIL
         \<longrightarrow> ex1 = Break \<and> ls_finalStatus st1 = failed
             \<and> ls_finalError st1 = Some ''Reviewer verdict: FAIL - commit stage blocked''
             \<and> (\<exists>out. ls_finalResult st1 = Some out
                        \<and> ls_logged st1 = ls_logged st @ [blockedEvent w run out])
             \<and> ls_store st1 = ls_store st"
    by blast
  then obtain new1 where n1: "ls_agentRuns st1 = ls_agentRuns st @ new1"
    and n1b: "\<forall>q \<in> set new1. run_pos q = pos \<and> run_stage q = stage"
    and n1c: "length new1 \<le> 1"
    and n1d: "\<forall>r \<in> set new1. run_stage r = review \<and> run_verdict r = Some FAIL
         \<longrightarrow> ex1 = Break \<and> ls_finalStatus st1 = failed
             \<and> ls_finalError st1 = Some ''Reviewer verdict: FAIL - commit stage blocked''
             \<and> (\<exists>out. ls_finalResult st1 = Some out
                        \<and> ls_logged st1 = ls_logged st @ [blockedEvent w run out])
             \<and> ls_store st1 = ls_store st"
  proof cases
    case same
    show ?thesis by (rule that[of "[]"]) (simp_all add: same)
  next
    case (added a v)
    show ?thesis
      by (rule that[of "[\<lparr>run_pos = pos, run_stage = stage, run_agent = a,
                           run_verdict = v\<rparr>]"])
        (use added in simp_all)
  qed
  show ?case
  proof (cases ex1)
    case Continue
    with Cons.prems s1 have r: "runStages E w run opts (Suc pos) rest st1 = (ex, st')"
      by simp
    from Cons.IH[OF r] obtain new2 where
      a: "ls_agentRuns st' = ls_agentRuns st1 @ new2"
      and b: "\<forall>q \<in> set new2. Suc pos \<le> run_pos q \<and> run_pos q < Suc pos + length rest
                          \<and> run_stage q = rest ! (run_pos q - Suc pos)"
      and c: "\<forall>r \<in> set new2. run_stage r = review \<and> run_verdict r = Some FAIL
            \<longrightarrow> ex = Break \<and> ls_finalStatus st' = failed
                \<and> ls_finalError st' = Some ''Reviewer verdict: FAIL - commit stage blocked''
                \<and> (\<exists>out. ls_finalResult st' = Some out
                           \<and> last (ls_logged st') = blockedEvent w run out
                           \<and> ls_logged st' \<noteq> [])
                \<and> last new2 = r
                \<and> (\<forall>q \<in> set new2. run_pos q \<le> run_pos r)
                \<and> (commit \<notin> set (take (run_pos r - Suc pos) rest)
                     \<longrightarrow> ls_store st' = ls_store st1)"
      by blast
    from n1d Continue have nofail1:
      "\<forall>r \<in> set new1. \<not> (run_stage r = review \<and> run_verdict r = Some FAIL)"
      by auto
    have p1: "ls_agentRuns st' = ls_agentRuns st @ (new1 @ new2)"
      using a n1 by simp
    have p2: "\<forall>q \<in> set (new1 @ new2). pos \<le> run_pos q
                \<and> run_pos q < pos + length (stage # rest)
                \<and> run_stage q = (stage # rest) ! (run_pos q - pos)"
    proof
      fix q assume "q \<in> set (new1 @ new2)"
      then consider "q \<in> set new1" | "q \<in> set new2" by auto
      then show "pos \<le> run_pos q \<and> run_pos q < pos + length (stage # rest)
                \<and> run_stage q = (stage # rest) ! (run_pos q - pos)"
      proof cases
        case 1
        with n1b show ?thesis by simp
      next
        case 2
        with b have q: "Suc pos \<le> run_pos q" "run_pos q < Suc pos + length rest"
          "run_stage q = rest ! (run_pos q - Suc pos)" by auto
        from q(1) have "run_pos q - pos = Suc (run_pos q - Suc pos)" by simp
        with q show ?thesis by simp
      qed
    qed
    have p3: "\<forall>r \<in> set (new1 @ new2). run_stage r = review \<and> run_verdict r = Some FAIL
            \<longrightarrow> ex = Break \<and> ls_finalStatus st' = failed
                \<and> ls_finalError st' = Some ''Reviewer verdict: FAIL - commit stage blocked''
                \<and> (\<exists>out. ls_finalResult st' = Some out
                           \<and> last (ls_logged st') = blockedEvent w run out
                           \<and> ls_logged st' \<noteq> [])
                \<and> last (new1 @ new2) = r
                \<and> (\<forall>q \<in> set (new1 @ new2). run_pos q \<le> run_pos r)
                \<and> (commit \<notin> set (take (run_pos r - pos) (stage # rest))
                     \<longrightarrow> ls_store st' = ls_store st)"
    proof (intro ballI impI)
      fix r assume rin: "r \<in> set (new1 @ new2)"
        and rf: "run_stage r = review \<and> run_verdict r = Some FAIL"
      with nofail1 have r2: "r \<in> set new2" by auto
      then have ne: "new2 \<noteq> []" by auto
      from c r2 rf have cc: "ex = Break" "ls_finalStatus st' = failed"
        "ls_finalError st' = Some ''Reviewer verdict: FAIL - commit stage blocked''"
        "\<exists>out. ls_finalResult st' = Some out
                           \<and> last (ls_logged st') = blockedEvent w run out
                           \<and> ls_logged st' \<noteq> []"
        "last new2 = r" "\<forall>q \<in> set new2. run_pos q \<le> run_pos r"
        "commit \<notin> set (take (run_pos r - Suc pos) rest) \<longrightarrow> ls_store st' = ls_store st1"
        by blast+
      from b r2 have rp: "Suc pos \<le> run_pos r" by auto
      then have d: "run_pos r - pos = Suc (run_pos r - Suc pos)" by simp
      have le: "\<forall>q \<in> set (new1 @ new2). run_pos q \<le> run_pos r"
        using cc(6) n1b rp by auto
      have st: "commit \<notin> set (take (run_pos r - pos) (stage # rest))
                     \<longrightarrow> ls_store st' = ls_store st"
      proof
        assume h: "commit \<notin> set (take (run_pos r - pos) (stage # rest))"
        with d have "stage \<noteq> commit" "commit \<notin> set (take (run_pos r - Suc pos) rest)"
          by auto
        with cc(7) stageStep_store[OF s1] show "ls_store st' = ls_store st" by simp
      qed
      from cc(1-5) ne le st
      show "ex = Break \<and> ls_finalStatus st' = failed
                \<and> ls_finalError st' = Some ''Reviewer verdict: FAIL - commit stage blocked''
                \<and> (\<exists>out. ls_finalResult st' = Some out
                           \<and> last (ls_logged st') = blockedEvent w run out
                           \<and> ls_logged st' \<noteq> [])
                \<and> last (new1 @ new2) = r
                \<and> (\<forall>q \<in> set (new1 @ new2). run_pos q \<le> run_pos r)
                \<and> (commit \<notin> set (take (run_pos r - pos) (stage # rest))
                     \<longrightarrow> ls_store st' = ls_store st)"
        by simp
    qed
    from p1 p2 p3 show ?thesis by blast
  next
    case Break
    with Cons.prems s1 have e: "ex = Break" "st' = st1" by simp_all
    have p1: "ls_agentRuns st' = ls_agentRuns st @ new1" using n1 e by simp
    have p2: "\<forall>q \<in> set new1. pos \<le> run_pos q
                \<and> run_pos q < pos + length (stage # rest)
                \<and> run_stage q = (stage # rest) ! (run_pos q - pos)"
      using n1b by simp
    have p3: "\<forall>r \<in> set new1. run_stage r = review \<and> run_verdict r = Some FAIL
            \<longrightarrow> ex = Break \<and> ls_finalStatus st' = failed
                \<and> ls_finalError st' = Some ''Reviewer verdict: FAIL - commit stage blocked''
                \<and> (\<exists>out. ls_finalResult st' = Some out
                           \<and> last (ls_logged st') = blockedEvent w run out
                           \<and> ls_logged st' \<noteq> [])
                \<and> last new1 = r
                \<and> (\<forall>q \<in> set new1. run_pos q \<le> run_pos r)
                \<and> (commit \<notin> set (take (run_pos r - pos) (stage # rest))
                     \<longrightarrow> ls_store st' = ls_store st)"
    proof (intro ballI impI)
      fix r assume rin: "r \<in> set new1"
        and rf: "run_stage r = review \<and> run_verdict r = Some FAIL"
      from rin n1c have l: "new1 = [r]" by (cases new1) auto
      from n1d rin rf obtain out where
        o: "ls_finalStatus st1 = failed"
           "ls_finalError st1 = Some ''Reviewer verdict: FAIL - commit stage blocked''"
           "ls_finalResult st1 = Some out"
           "ls_logged st1 = ls_logged st @ [blockedEvent w run out]"
           "ls_store st1 = ls_store st"
        by blast
      from o e l n1b
      show "ex = Break \<and> ls_finalStatus st' = failed
                \<and> ls_finalError st' = Some ''Reviewer verdict: FAIL - commit stage blocked''
                \<and> (\<exists>out. ls_finalResult st' = Some out
                           \<and> last (ls_logged st') = blockedEvent w run out
                           \<and> ls_logged st' \<noteq> [])
                \<and> last new1 = r
                \<and> (\<forall>q \<in> set new1. run_pos q \<le> run_pos r)
                \<and> (commit \<notin> set (take (run_pos r - pos) (stage # rest))
                     \<longrightarrow> ls_store st' = ls_store st)"
        by simp
    qed
    from p1 p2 p3 show ?thesis by blast
  next
    case (Throw m)
    with Cons.prems s1 have e: "ex = Throw m" "st' = st1" by simp_all
    from n1d Throw have nofail1:
      "\<forall>r \<in> set new1. \<not> (run_stage r = review \<and> run_verdict r = Some FAIL)"
      by auto
    have p1: "ls_agentRuns st' = ls_agentRuns st @ new1" using n1 e by simp
    have p2: "\<forall>q \<in> set new1. pos \<le> run_pos q
                \<and> run_pos q < pos + length (stage # rest)
                \<and> run_stage q = (stage # rest) ! (run_pos q - pos)"
      using n1b by simp
    from p1 p2 nofail1 show ?thesis by blast
  qed
qed

lemma runStages_no_commit:
  assumes "runStages E w run opts pos stages st = (ex, st')"
    and "ls_agentRuns st' = ls_agentRuns st @ new"
    and "r \<in> set new" and "commit \<notin> set (take (run_pos r - pos) stages)"
    and "\<forall>q \<in> set new. pos \<le> run_pos q \<and> run_pos q < pos + length stages
                          \<and> run_stage q = stages ! (run_pos q - pos)"
    and "\<forall>q \<in> set new. run_pos q \<le> run_pos r"
    and "run_stage r = review"
  shows "\<forall>q \<in> set new. run_stage q \<noteq> commit"
proof
  fix q assume q: "q \<in> set new"
  with assms(5,6) have b: "pos \<le> run_pos q" "run_pos q \<le> run_pos r"
    "run_stage q = stages ! (run_pos q - pos)" by auto
  from assms(3,5) have rb: "run_pos r < pos + length stages"
    "run_stage r = stages ! (run_pos r - pos)" by auto
  show "run_stage q \<noteq> commit"
  proof (cases "run_pos q = run_pos r")
    case True
    with b(3) rb(2) assms(7) show ?thesis by simp
  next
    case False
    with b have lt: "run_pos q - pos < run_pos r - pos" by simp
    from rb(1) b have "run_pos r - pos \<le> length stages" by simp
    with lt have "stages ! (run_pos q - pos) \<in> set (take (run_pos r - pos) stages)"
      by (metis in_set_conv_nth length_take min.absorb2 nth_take)
    with assms(4) b(3) show ?thesis by auto
  qed
qed


lemma finishRun_runs:
  "wr_agentRuns (finishRun w run loop) = ls_agentRuns (snd loop)"
  "wr_store (finishRun w run loop) = ls_store (snd loop)"
  "res_runId (wr_result (finishRun w run loop)) = run"
  by (simp_all add: finishRun_def Let_def split: step_exit.splits option.splits)

lemma finishRun_break:
  assumes "fst loop = Break" and "ls_finalResult (snd loop) = Some out"
  shows "res_status (wr_result (finishRun w run loop)) = ls_finalStatus (snd loop)"
    "res_error (wr_result (finishRun w run loop)) = ls_finalError (snd loop)"
    "set (ls_logged (snd loop)) \<subseteq> set (wr_logged (finishRun w run loop))"
  using assms by (auto simp: finishRun_def Let_def)

lemma indexOf_nth:
  "distinct xs \<Longrightarrow> i < length xs \<Longrightarrow> indexOf xs (xs ! i) = int i"
proof (induction xs arbitrary: i)
  case Nil
  then show ?case by simp
next
  case (Cons y ys)
  show ?case
  proof (cases i)
    case 0
    then show ?thesis by simp
  next
    case (Suc j)
    with Cons.prems have j: "j < length ys" "distinct ys" "y \<noteq> ys ! j" by auto
    from Cons.IH[OF j(2,1)] have "indexOf ys (ys ! j) = int j" .
    with Suc j(3) show ?thesis by simp
  qed
qed

lemma indexOf_take:
  "x \<in> set (take n xs) \<Longrightarrow> 0 \<le> indexOf xs x \<and> indexOf xs x < int n"
proof (induction xs arbitrary: n)
  case Nil
  then show ?case by simp
next
  case (Cons y ys)
  then obtain m where n: "n = Suc m" by (cases n) auto
  show ?case
  proof (cases "y = x")
    case True
    with n show ?thesis by simp
  next
    case False
    with Cons.prems n have "x \<in> set (take m ys)" by simp
    from Cons.IH[OF this] False n show ?thesis by simp
  qed
qed

text \<open>
  In a stage list that the validation of \<^verbatim>\<open>runWorkflow\<close> accepts and that names no
  stage twice, no commit stage precedes a review stage.
\<close>

lemma validated_review_before_commit:
  assumes "\<not> (indexOf stages commit \<noteq> - 1
              \<and> (indexOf stages review = - 1 \<or> indexOf stages review > indexOf stages commit))"
    and "distinct stages" and "p < length stages" and "stages ! p = review"
  shows "commit \<notin> set (take p stages)"
proof
  assume "commit \<in> set (take p stages)"
  from indexOf_take[OF this] have c: "0 \<le> indexOf stages commit" "indexOf stages commit < int p"
    by simp_all
  from indexOf_nth[OF assms(2,3)] assms(4) have "indexOf stages review = int p" by simp
  with c assms(1) show False by simp
qed

lemma runWorkflow_validated:
  assumes "wr_agentRuns (runWorkflow E store w opts) \<noteq> []"
  shows "\<not> (indexOf (wf_stages w) commit \<noteq> - 1
            \<and> (indexOf (wf_stages w) review = - 1
                \<or> indexOf (wf_stages w) review > indexOf (wf_stages w) commit))"
  using assms
  by (auto simp: runWorkflow_def Let_def rejectedRun_def split: option.splits if_splits)

lemma runWorkflow_ran:
  assumes "wr_agentRuns (runWorkflow E store w opts) \<noteq> []"
  shows "runWorkflow E store w opts =
           finishRun w (case wo_runId opts of Some i \<Rightarrow> i | None \<Rightarrow> oe_uuid E)
             (runStages E w (case wo_runId opts of Some i \<Rightarrow> i | None \<Rightarrow> oe_uuid E) opts 0
                (wf_stages w)
                (initialLoopState w (case wo_runId opts of Some i \<Rightarrow> i | None \<Rightarrow> oe_uuid E)
                   opts store))"
  using assms
  by (auto simp: runWorkflow_def Let_def rejectedRun_def split: option.splits if_splits)

text \<open>
  C6. In every run of \<^verbatim>\<open>runWorkflow\<close> in which the agent of a review stage produces the
  verdict FAIL, the run ends with status \<open>failed\<close> and the error
  \<^verbatim>\<open>Reviewer verdict: FAIL - commit stage blocked\<close>, the event
  \<^verbatim>\<open>Workflow blocked: reviewer verdict FAIL\<close> with the warning
  \<^verbatim>\<open>Commit stage blocked due to reviewer FAIL verdict\<close> is handed to the logger, and that
  call of the reviewer is the last call of an agent: no later stage is entered. When no
  commit stage precedes the failing review in the stage list, no commit-stage agent is
  run in the whole run and the approval store is left as it was: no approval request is
  created. No commit stage precedes the failing review when the stage list names no
  stage twice.
\<close>

theorem C6_reviewer_fail_blocks_commit:
  assumes "r \<in> set (wr_agentRuns (runWorkflow E store w opts))"
    and "run_stage r = review" and "run_verdict r = Some FAIL"
  shows "res_status (wr_result (runWorkflow E store w opts)) = failed
       \<and> res_error (wr_result (runWorkflow E store w opts))
           = Some ''Reviewer verdict: FAIL - commit stage blocked''
       \<and> (\<exists>e \<in> set (wr_logged (runWorkflow E store w opts)).
             ev_intent e = ''Workflow blocked: reviewer verdict FAIL''
             \<and> ev_warnings e = [''Commit stage blocked due to reviewer FAIL verdict'']
             \<and> ev_stage e = review
             \<and> ev_runId e = res_runId (wr_result (runWorkflow E store w opts)))
       \<and> last (wr_agentRuns (runWorkflow E store w opts)) = r
       \<and> (\<forall>q \<in> set (wr_agentRuns (runWorkflow E store w opts)). run_pos q \<le> run_pos r)
       \<and> (commit \<notin> set (take (run_pos r) (wf_stages w))
            \<longrightarrow> (\<forall>q \<in> set (wr_agentRuns (runWorkflow E store w opts)).
                    run_stage q \<noteq> commit)
                \<and> wr_store (runWorkflow E store w opts) = store)
       \<and> (distinct (wf_stages w) \<longrightarrow> commit \<notin> set (take (run_pos r) (wf_stages w)))"
proof -
  let ?run = "case wo_runId opts of Some i \<Rightarrow> i | None \<Rightarrow> oe_uuid E"
  let ?st0 = "initialLoopState w ?run opts store"
  obtain ex st1 where loop: "runStages E w ?run opts 0 (wf_stages w) ?st0 = (ex, st1)"
    by (cases "runStages E w ?run opts 0 (wf_stages w) ?st0")
  from assms(1) have "wr_agentRuns (runWorkflow E store w opts) \<noteq> []" by auto
  from runWorkflow_ran[OF this] loop
  have rw: "runWorkflow E store w opts = finishRun w ?run (ex, st1)" by simp
  have st0: "ls_agentRuns ?st0 = []" "ls_store ?st0 = store"
    by (simp_all add: initialLoopState_def)
  from runStages_fail[OF loop] st0 obtain new where
    n: "ls_agentRuns st1 = new"
    and nb: "\<forall>q \<in> set new. 0 \<le> run_pos q \<and> run_pos q < 0 + length (wf_stages w)
                          \<and> run_stage q = wf_stages w ! (run_pos q - 0)"
    and nf: "\<forall>r \<in> set new. run_stage r = review \<and> run_verdict r = Some FAIL
            \<longrightarrow> ex = Break \<and> ls_finalStatus st1 = failed
                \<and> ls_finalError st1 = Some ''Reviewer verdict: FAIL - commit stage blocked''
                \<and> (\<exists>out. ls_finalResult st1 = Some out
                           \<and> last (ls_logged st1) = blockedEvent w ?run out
                           \<and> ls_logged st1 \<noteq> [])
                \<and> last new = r
                \<and> (\<forall>q \<in> set new. run_pos q \<le> run_pos r)
                \<and> (commit \<notin> set (take (run_pos r - 0) (wf_stages w))
                     \<longrightarrow> ls_store st1 = store)"
    by auto
  have runs: "wr_agentRuns (runWorkflow E store w opts) = new"
    unfolding rw using n by (simp add: finishRun_runs)
  with assms(1) have rin: "r \<in> set new" by simp
  from nf rin assms(2,3) obtain out where
    f: "ex = Break" "ls_finalStatus st1 = failed"
       "ls_finalError st1 = Some ''Reviewer verdict: FAIL - commit stage blocked''"
       "ls_finalResult st1 = Some out" "last (ls_logged st1) = blockedEvent w ?run out"
       "ls_logged st1 \<noteq> []" "last new = r" "\<forall>q \<in> set new. run_pos q \<le> run_pos r"
       "commit \<notin> set (take (run_pos r - 0) (wf_stages w)) \<longrightarrow> ls_store st1 = store"
    by blast
  have fb: "fst (ex, st1) = Break" "ls_finalResult (snd (ex, st1)) = Some out"
    using f by simp_all
  have 1: "res_status (wr_result (runWorkflow E store w opts)) = failed"
    unfolding rw finishRun_break(1)[OF fb] using f by simp
  have 2: "res_error (wr_result (runWorkflow E store w opts))
           = Some ''Reviewer verdict: FAIL - commit stage blocked''"
    unfolding rw finishRun_break(2)[OF fb] using f by simp
  from f(5,6) have "blockedEvent w ?run out \<in> set (ls_logged st1)"
    using last_in_set by metis
  with finishRun_break(3)[OF fb, of w ?run]
  have "blockedEvent w ?run out \<in> set (wr_logged (runWorkflow E store w opts))"
    unfolding rw by auto
  moreover have "ev_intent (blockedEvent w ?run out) = ''Workflow blocked: reviewer verdict FAIL''
      \<and> ev_warnings (blockedEvent w ?run out)
          = [''Commit stage blocked due to reviewer FAIL verdict'']
      \<and> ev_stage (blockedEvent w ?run out) = review
      \<and> ev_runId (blockedEvent w ?run out)
          = res_runId (wr_result (runWorkflow E store w opts))"
    unfolding rw by (simp add: blockedEvent_def orchestratorEvent_def finishRun_runs)
  ultimately have 3: "\<exists>e \<in> set (wr_logged (runWorkflow E store w opts)).
             ev_intent e = ''Workflow blocked: reviewer verdict FAIL''
             \<and> ev_warnings e = [''Commit stage blocked due to reviewer FAIL verdict'']
             \<and> ev_stage e = review
             \<and> ev_runId e = res_runId (wr_result (runWorkflow E store w opts))"
    by blast
  have 4: "last (wr_agentRuns (runWorkflow E store w opts)) = r"
    unfolding runs by (rule f(7))
  have 5: "\<forall>q \<in> set (wr_agentRuns (runWorkflow E store w opts)). run_pos q \<le> run_pos r"
    unfolding runs by (rule f(8))
  have 6: "commit \<notin> set (take (run_pos r) (wf_stages w))
            \<longrightarrow> (\<forall>q \<in> set (wr_agentRuns (runWorkflow E store w opts)).
                    run_stage q \<noteq> commit)
                \<and> wr_store (runWorkflow E store w opts) = store"
  proof
    assume h: "commit \<notin> set (take (run_pos r) (wf_stages w))"
    have a: "ls_agentRuns st1 = ls_agentRuns ?st0 @ new" using n st0 by simp
    from h have h0: "commit \<notin> set (take (run_pos r - 0) (wf_stages w))" by simp
    from runStages_no_commit[OF loop a rin h0 nb f(8) assms(2)]
    have "\<forall>q \<in> set new. run_stage q \<noteq> commit" .
    moreover from f(9) h0 have "wr_store (runWorkflow E store w opts) = store"
      unfolding rw by (simp add: finishRun_runs)
    ultimately show "(\<forall>q \<in> set (wr_agentRuns (runWorkflow E store w opts)).
                    run_stage q \<noteq> commit)
                \<and> wr_store (runWorkflow E store w opts) = store"
      unfolding runs by simp
  qed
  have 7: "distinct (wf_stages w) \<longrightarrow> commit \<notin> set (take (run_pos r) (wf_stages w))"
  proof
    assume d: "distinct (wf_stages w)"
    from assms(1) have ne: "wr_agentRuns (runWorkflow E store w opts) \<noteq> []" by auto
    from nb rin assms(2) have p: "run_pos r < length (wf_stages w)"
      "wf_stages w ! run_pos r = review" by auto
    from validated_review_before_commit[OF runWorkflow_validated[OF ne] d p]
    show "commit \<notin> set (take (run_pos r) (wf_stages w))" .
  qed
  from 1 2 3 4 5 6 7 show ?thesis by blast
qed

lemma sample_run:
  "wr_agentRuns (runWorkflow failingReviewEnv (Some emptyStore) sampleWorkflow sampleOptions)
     = [\<lparr>run_pos = 0, run_stage = plan, run_agent = ''ops_planner'', run_verdict = None\<rparr>,
        \<lparr>run_pos = 1, run_stage = execute,
          run_agent = ''ops_worker'', run_verdict = None\<rparr>,
        failedReviewRun]"
  by (simp add: runWorkflow_def validateWorkflowDefinition_def sampleWorkflow_def
      sampleAgents_def sampleOptions_def finishRun_def initialLoopState_def stageStep_def
      getAgentForStage_def failingReviewEnv_def failedReviewRun_def Let_def)

theorem C6_reviewer_fail_blocks_commit_witness:
  "failedReviewRun \<in> set (wr_agentRuns (runWorkflow failingReviewEnv (Some emptyStore)
                                          sampleWorkflow sampleOptions))
   \<and> run_stage failedReviewRun = review \<and> run_verdict failedReviewRun = Some FAIL
   \<and> commit \<notin> set (take (run_pos failedReviewRun) (wf_stages sampleWorkflow))
   \<and> commit \<in> set (wf_stages sampleWorkflow)
   \<and> res_status (wr_result (runWorkflow failingReviewEnv (Some emptyStore) sampleWorkflow
                               sampleOptions)) = failed
   \<and> map run_stage (wr_agentRuns (runWorkflow failingReviewEnv (Some emptyStore)
                                     sampleWorkflow sampleOptions))
       = [plan, execute, review]
   \<and> wr_store (runWorkflow failingReviewEnv (Some emptyStore) sampleWorkflow sampleOptions)
       = Some emptyStore"
proof -
  have a1: "failedReviewRun \<in> set (wr_agentRuns (runWorkflow failingReviewEnv (Some emptyStore)
                                          sampleWorkflow sampleOptions))"
    unfolding sample_run by simp
  have a2: "run_stage failedReviewRun = review" "run_verdict failedReviewRun = Some FAIL"
    by (simp_all add: failedReviewRun_def)
  have a3: "commit \<notin> set (take (run_pos failedReviewRun) (wf_stages sampleWorkflow))"
    "commit \<in> set (wf_stages sampleWorkflow)"
    by (simp_all add: failedReviewRun_def sampleWorkflow_def numeral_2_eq_2)
  note T = C6_reviewer_fail_blocks_commit[OF a1 a2]
  from T[THEN conjunct1]
       T[THEN conjunct2, THEN conjunct2, THEN conjunct2, THEN conjunct2, THEN conjunct2,
         THEN conjunct1, rule_format, OF a3(1)]
       a1 a2 a3 sample_run
  show ?thesis by (simp add: failedReviewRun_def)
qed

text \<open>
  The stage list review, commit, review passes the validation. The first review answers
  PASS, the commit stage is entered, its approval request is created and auto-approved,
  and the second review answers FAIL: the run is failed by a reviewer after its commit
  stage ran.
\<close>

theorem C6_counterexample:
  "map run_stage (wr_agentRuns (runWorkflow lateFailEnv (Some emptyStore)
                                  repeatedReviewWorkflow sampleOptions))
     = [review, commit, review]
   \<and> map run_verdict (wr_agentRuns (runWorkflow lateFailEnv (Some emptyStore)
                                      repeatedReviewWorkflow sampleOptions))
     = [Some PASS, None, Some FAIL]
   \<and> res_status (wr_result (runWorkflow lateFailEnv (Some emptyStore)
                               repeatedReviewWorkflow sampleOptions)) = failed
   \<and> map_option (map (actionType \<circ> snd) \<circ> requests)
        (wr_store (runWorkflow lateFailEnv (Some emptyStore) repeatedReviewWorkflow
                     sampleOptions)) = Some [''COMMIT_POST_ALERT'']
   \<and> map_option (map (status \<circ> snd) \<circ> requests)
        (wr_store (runWorkflow lateFailEnv (Some emptyStore) repeatedReviewWorkflow
                     sampleOptions)) = Some [APPROVED]"
proof -
  let ?w = repeatedReviewWorkflow
  let ?E = lateFailEnv
  let ?reason = "''Auto-approved: reviewer PASS + eligible action type''"
  let ?res1 = "\<lparr>ar_output = None,
               ar_toolCalls =
                 [\<lparr>tc_tool = ''asi.commit_post_alert'', tc_trustGateResult = [],
                   tc_result = [], tc_sandboxId = None\<rparr>],
               ar_status = requires_approval, ar_error = None,
               ar_approvalRequestId = None, ar_reviewerVerdict = None\<rparr>"
  let ?R = "\<lparr>rid = id1, createdAt = 1000, domain = ''asi'', runId = run1,
            workflowName = ''daily_ops_brief'', requestedBy = ''ops_worker'',
            trustLevel = L3, actionType = ''COMMIT_POST_ALERT'', actionPayload = [],
            status = PENDING, expiresAt = 3601000,
            requestContext = Some [(''toolName'', ''asi.commit_post_alert'')],
            reviewerVerdict = Some PASS, reviewerNotes = None,
            autoApproveEligible = True, autoApproveReason = None\<rparr>"
  let ?S1 = "\<lparr>requests = [(id1, ?R)], decisions = []\<rparr>"
  have wf: "wf_name ?w = ''daily_ops_brief''" "wf_domain ?w = ''asi''"
    "wf_stages ?w = [review, commit, review]" "wf_agents ?w \<noteq> []"
    by (simp_all add: repeatedReviewWorkflow_def sampleAgents_def)
  have op: "wo_runId sampleOptions = Some run1" "wo_reviewerVerdict sampleOptions = None"
    "wo_reviewerNotes sampleOptions = None"
    by (simp_all add: sampleOptions_def)
  have en: "oe_isUuid ?E = uuidShape" "oe_now ?E p = 1000" "oe_now2 ?E p = 1000"
    "oe_requestId ?E p = id1" "oe_decisionId ?E p = id2" for p
    by (simp_all add: lateFailEnv_def)
  have ra: "oe_runAgent ?E 0 a stg i v =
              Inr \<lparr>ar_output = Some ''ok'', ar_toolCalls = [], ar_status = completed,
                   ar_error = None, ar_approvalRequestId = None,
                   ar_reviewerVerdict = Some PASS\<rparr>"
    "oe_runAgent ?E (Suc 0) a stg i v = Inr ?res1"
    "oe_runAgent ?E (Suc (Suc 0)) a stg i v =
              Inr \<lparr>ar_output = Some ''rejected'', ar_toolCalls = [], ar_status = completed,
                   ar_error = None, ar_approvalRequestId = None,
                   ar_reviewerVerdict = Some FAIL\<rparr>" for a stg i v
    by (simp_all add: lateFailEnv_def)
  have ag: "getAgentForStage (wf_agents ?w) review = Some
              \<lparr>ag_name = ''ops_reviewer'', ag_role = reviewer, ag_allowedTools = [],
               ag_maxTurns = 5\<rparr>"
    "getAgentForStage (wf_agents ?w) commit = Some
              \<lparr>ag_name = ''ops_worker'', ag_role = worker, ag_allowedTools = [],
               ag_maxTurns = 5\<rparr>"
    by (simp_all add: getAgentForStage_def repeatedReviewWorkflow_def sampleAgents_def)
  have cr: "createApprovalRequest ?E (Suc 0) (Some emptyStore) ?w run1 ''ops_worker'' ?res1
              (Some PASS) None
            = (Some (id1, True, ''COMMIT_POST_ALERT''), Some ?S1)"
    using uuidShape_samples
    by (simp add: createApprovalRequest_def isCommitTool_def objectHas_def getCommitTool_def
        objectGet_def COMMIT_TOOLS_def wf en mem_createRequest_def
        parseCreateApprovalRequest_def mem_isAutoApproveEligible_def emptyStore_def Let_def)
  have "\<exists>D S2. mem_autoApprove uuidShape ?S1 id1 ?reason 1000 1000 1000 id2
                   = (Inr (Some D), S2)
               \<and> map (actionType \<circ> snd) (requests S2) = [''COMMIT_POST_ALERT'']
               \<and> map (status \<circ> snd) (requests S2) = [APPROVED]"
    using uuidShape_samples
    by (simp add: mem_autoApprove_def mem_getRequest_def mem_createDecision_def
        parseCreateDecision_def autoApproveDecisionInput_def newDecision_def
        statusForDecision_def Let_def)
  then obtain D S2 where
    aa: "mem_autoApprove uuidShape ?S1 id1 ?reason 1000 1000 1000 id2 = (Inr (Some D), S2)"
    and S2: "map (actionType \<circ> snd) (requests S2) = [''COMMIT_POST_ALERT'']"
      "map (status \<circ> snd) (requests S2) = [APPROVED]"
    by (elim exE conjE) (rule that)
  define st0 where "st0 = initialLoopState ?w run1 sampleOptions (Some emptyStore)"
  define st1 where "st1 = snd (stageStep ?E ?w run1 sampleOptions 0 review st0)"
  define st2 where "st2 = snd (stageStep ?E ?w run1 sampleOptions (Suc 0) commit st1)"
  define st3 where "st3 = snd (stageStep ?E ?w run1 sampleOptions (Suc (Suc 0)) review st2)"
  have i0: "ls_reviewerVerdict st0 = None" "ls_store st0 = Some emptyStore"
    "ls_agentRuns st0 = []"
    by (simp_all add: st0_def initialLoopState_def op)
  have s1: "fst (stageStep ?E ?w run1 sampleOptions 0 review st0) = Continue"
    "ls_reviewerVerdict st1 = Some PASS" "ls_store st1 = Some emptyStore"
    "map run_stage (ls_agentRuns st1) = [review]"
    "map run_verdict (ls_agentRuns st1) = [Some PASS]"
    unfolding st1_def by (simp_all add: stageStep_def ag ra i0 Let_def)
  have s2: "fst (stageStep ?E ?w run1 sampleOptions (Suc 0) commit st1) = Continue"
    "ls_reviewerVerdict st2 = Some PASS" "ls_store st2 = Some S2"
    "map run_stage (ls_agentRuns st2) = [review, commit]"
    "map run_verdict (ls_agentRuns st2) = [Some PASS, None]"
    unfolding st2_def
    by (simp_all add: stageStep_def approvalStep_def falsy_def ag ra s1 en op cr aa Let_def)
  have s3: "fst (stageStep ?E ?w run1 sampleOptions (Suc (Suc 0)) review st2) = Break"
    "ls_finalStatus st3 = failed" "ls_store st3 = Some S2"
    "ls_finalResult st3 = Some (Some ''rejected'')"
    "map run_stage (ls_agentRuns st3) = [review, commit, review]"
    "map run_verdict (ls_agentRuns st3) = [Some PASS, None, Some FAIL]"
    unfolding st3_def by (simp_all add: stageStep_def ag ra s2 Let_def)
  have loop: "runStages ?E ?w run1 sampleOptions 0 [review, commit, review] st0 = (Break, st3)"
  proof -
    have e1: "stageStep ?E ?w run1 sampleOptions 0 review st0 = (Continue, st1)"
      using s1(1) unfolding st1_def by (simp add: prod_eq_iff)
    have e2: "stageStep ?E ?w run1 sampleOptions (Suc 0) commit st1 = (Continue, st2)"
      using s2(1) unfolding st2_def by (simp add: prod_eq_iff)
    have e3: "stageStep ?E ?w run1 sampleOptions (Suc (Suc 0)) review st2 = (Break, st3)"
      using s3(1) unfolding st3_def by (simp add: prod_eq_iff)
    show ?thesis by (simp add: e1 e2 e3)
  qed
  have rw: "runWorkflow ?E (Some emptyStore) ?w sampleOptions
              = finishRun ?w run1 (Break, st3)"
    using loop by (simp add: runWorkflow_def validateWorkflowDefinition_def wf op st0_def)
  have fb: "fst (Break, st3) = Break" "ls_finalResult (snd (Break, st3)) = Some (Some ''rejected'')"
    using s3(4) by simp_all
  show ?thesis
    unfolding rw finishRun_runs finishRun_break(1)[OF fb]
    using s3 S2 by simp
qed

end
